(* ===== verification/C_Prelude.thy ===== *)
theory C_Prelude
  imports Main "HOL-Library.Word"
begin

text \<open>
  The vocabulary every component shares: machine integers at their C width, NUL-terminated
  strings inside byte arrays, the conversions of \<^verbatim>\<open>printf\<close> and \<^verbatim>\<open>strtol\<close> the
  sources use, host byte order, and the generic lemmas about them. Nothing here models a file
  under \<^verbatim>\<open>src/\<close>; it models what those files use of C and of the C library.
\<close>

unbundle bit_operations_syntax

section \<open>Machine integers\<close>

type_synonym u8 = "8 word"
type_synonym u16 = "16 word"
type_synonym u32 = "32 word"
type_synonym u64 = "64 word"
type_synonym byte = u8
type_synonym bytes = "u8 list"

text \<open>The C types \<^verbatim>\<open>int\<close> and \<^verbatim>\<open>pid_t\<close> are 32-bit words read by \<^term>\<open>sint\<close>.\<close>

abbreviation (input) INT_MAX :: int where "INT_MAX \<equiv> 2147483647"
abbreviation (input) INT_MIN :: int where "INT_MIN \<equiv> - 2147483648"
abbreviation (input) LONG_MAX :: int where "LONG_MAX \<equiv> 9223372036854775807"
abbreviation (input) LONG_MIN :: int where "LONG_MIN \<equiv> - 9223372036854775808"

text \<open>Signed overflow is undefined in C: arithmetic on \<^verbatim>\<open>int\<close> is partial.\<close>

definition int_in_range :: "int \<Rightarrow> bool" where
  "int_in_range n \<longleftrightarrow> INT_MIN \<le> n \<and> n \<le> INT_MAX"

definition c_int_add :: "int \<Rightarrow> int \<Rightarrow> int option" where
  "c_int_add a b = (if int_in_range (a + b) then Some (a + b) else None)"

definition c_int_sub :: "int \<Rightarrow> int \<Rightarrow> int option" where
  "c_int_sub a b = (if int_in_range (a - b) then Some (a - b) else None)"

definition c_int_mul :: "int \<Rightarrow> int \<Rightarrow> int option" where
  "c_int_mul a b = (if int_in_range (a * b) then Some (a * b) else None)"

text \<open>Conversion of a \<^verbatim>\<open>long\<close> to \<^verbatim>\<open>int\<close> keeps the low 32 bits.\<close>

definition to_int32 :: "int \<Rightarrow> int" where
  "to_int32 n = sint (word_of_int n :: u32)"

lemma to_int32_id: "int_in_range n \<Longrightarrow> to_int32 n = n"
  by (simp add: to_int32_def int_in_range_def sint_sbintrunc' signed_take_bit_int_eq_self_iff)

section \<open>Byte order\<close>

datatype endian = LE | BE

fun of_le :: "bytes \<Rightarrow> nat" where
  "of_le [] = 0"
| "of_le (b # bs) = unat b + 256 * of_le bs"

definition of_be :: "bytes \<Rightarrow> nat" where
  "of_be bs = of_le (rev bs)"

fun to_le :: "nat \<Rightarrow> nat \<Rightarrow> bytes" where
  "to_le 0 n = []"
| "to_le (Suc k) n = of_nat (n mod 256) # to_le k (n div 256)"

fun host_num :: "endian \<Rightarrow> bytes \<Rightarrow> nat" where
  "host_num LE bs = of_le bs"
| "host_num BE bs = of_be bs"

lemma length_to_le [simp]: "length (to_le k n) = k"
  by (induction k arbitrary: n) auto

lemma of_le_bound: "of_le bs < 256 ^ length bs"
proof (induction bs)
  case (Cons b bs)
  have "unat b < 256" using unsigned_less [of b, where ?'a = nat] by simp
  moreover have "Suc (of_le bs) * 256 \<le> 256 ^ length bs * 256"
    using Cons.IH by (intro mult_right_mono) auto
  ultimately show ?case by (simp add: algebra_simps)
qed simp

lemma of_le_to_le: "n < 256 ^ k \<Longrightarrow> of_le (to_le k n) = n"
proof (induction k arbitrary: n)
  case (Suc k)
  then have "n div 256 < 256 ^ k" by (simp add: less_mult_imp_div_less mult.commute)
  with Suc.IH show ?case
    by (simp add: unat_of_nat take_bit_nat_def)
qed simp

lemma host_num_bound: "host_num en bs < 256 ^ length bs"
  by (cases en) (use of_le_bound [of bs] of_le_bound [of "rev bs"] in \<open>auto simp: of_be_def\<close>)

lemma to_le_of_le: "length bs = k \<Longrightarrow> to_le k (of_le bs) = bs"
proof (induction bs arbitrary: k)
  case (Cons b bs)
  have "unat b < 256" using unsigned_less [of b, where ?'a = nat] by simp
  with Cons show ?case by auto
qed simp

text \<open>
  \<^verbatim>\<open>ntohs\<close> and \<^verbatim>\<open>ntohl\<close> swap bytes on a little-endian host and do nothing on a big-endian one.
\<close>

definition swab16 :: "u16 \<Rightarrow> u16" where
  "swab16 x = of_nat (of_be (to_le 2 (unat x)))"

definition swab32 :: "u32 \<Rightarrow> u32" where
  "swab32 x = of_nat (of_be (to_le 4 (unat x)))"

fun ntohs :: "endian \<Rightarrow> u16 \<Rightarrow> u16" where
  "ntohs LE x = swab16 x"
| "ntohs BE x = x"

fun ntohl :: "endian \<Rightarrow> u32 \<Rightarrow> u32" where
  "ntohl LE x = swab32 x"
| "ntohl BE x = x"

text \<open>Reading a field that is in network order gives its big-endian value on either host.\<close>

lemma ntohs_host:
  assumes "length bs = 2"
  shows "ntohs en (of_nat (host_num en bs)) = of_nat (of_be bs)"
proof -
  have "unat (of_nat (of_le bs) :: u16) = of_le bs"
    using of_le_bound [of bs] assms by (simp add: unat_of_nat take_bit_nat_eq_self_iff)
  then show ?thesis by (cases en) (simp_all add: swab16_def to_le_of_le assms)
qed

lemma ntohl_host:
  assumes "length bs = 4"
  shows "ntohl en (of_nat (host_num en bs)) = of_nat (of_be bs)"
proof -
  have "unat (of_nat (of_le bs) :: u32) = of_le bs"
    using of_le_bound [of bs] assms by (simp add: unat_of_nat take_bit_nat_eq_self_iff)
  then show ?thesis by (cases en) (simp_all add: swab32_def to_le_of_le assms)
qed

lemma unat_of_be_16: "length bs = 2 \<Longrightarrow> unat (of_nat (of_be bs) :: u16) = of_be bs"
  using of_le_bound [of "rev bs"] by (simp add: unat_of_nat take_bit_nat_eq_self_iff of_be_def)

lemma unat_of_be_32: "length bs = 4 \<Longrightarrow> unat (of_nat (of_be bs) :: u32) = of_be bs"
  using of_le_bound [of "rev bs"] by (simp add: unat_of_nat take_bit_nat_eq_self_iff of_be_def)

lemma of_be_byte [simp]: "of_be [b] = unat b"
  by (simp add: of_be_def)

lemma of_be_pair [simp]: "of_be [a, b] = 256 * unat a + unat b"
  by (simp add: of_be_def)

section \<open>Strings\<close>

text \<open>
  A C string in a byte array ends at the first NUL. An array without one makes \<^verbatim>\<open>%s\<close>
  read past its end, which is the value \<^term>\<open>None\<close> here.
\<close>

definition c_str :: "bytes \<Rightarrow> string option" where
  "c_str bs = (if 0 \<in> set bs
     then Some (map (\<lambda>b. char_of (unat b)) (takeWhile (\<lambda>b. b \<noteq> 0) bs)) else None)"

definition bytes_of :: "string \<Rightarrow> bytes" where
  "bytes_of s = map (\<lambda>c. of_nat (of_char c)) s"

definition no_nul :: "string \<Rightarrow> bool" where
  "no_nul s \<longleftrightarrow> CHR 0x00 \<notin> set s"

lemma c_str_terminated: "0 \<in> set bs \<Longrightarrow> \<exists>s. c_str bs = Some s"
  by (simp add: c_str_def)

lemma length_bytes_of [simp]: "length (bytes_of s) = length s"
  by (simp add: bytes_of_def)

lemma unat_of_char [simp]: "unat (of_nat (of_char c) :: byte) = (of_char c :: nat)"
proof -
  have "(of_char c :: nat) < 256" by simp
  then show ?thesis by (simp add: unat_of_nat take_bit_nat_eq_self_iff)
qed

lemma bytes_of_nonzero: "no_nul s \<Longrightarrow> 0 \<notin> set (bytes_of s)"
proof -
  assume nn: "no_nul s"
  have "(of_nat (of_char c) :: byte) \<noteq> 0" if "c \<in> set s" for c
  proof
    assume "(of_nat (of_char c) :: byte) = 0"
    then have "unat (of_nat (of_char c) :: byte) = 0" by simp
    then have "(of_char c :: nat) = 0" by (simp only: unat_of_char)
    then have "(of_char c :: nat) = of_char (CHR 0x00)" by simp
    then have "c = CHR 0x00" by (simp only: of_char_eq_iff)
    with that nn show False by (simp add: no_nul_def)
  qed
  then show ?thesis by (auto simp: bytes_of_def)
qed

lemma c_str_bytes_of:
  assumes "no_nul s"
  shows "c_str (bytes_of s @ 0 # rest) = Some s"
proof -
  have tw: "takeWhile (\<lambda>b. b \<noteq> 0) (bytes_of s @ 0 # rest) = bytes_of s"
    using bytes_of_nonzero [OF assms] by (simp add: takeWhile_append)
  show ?thesis
    by (simp add: c_str_def tw) (simp add: bytes_of_def comp_def)
qed

section \<open>Number formatting\<close>

definition digit_char :: "nat \<Rightarrow> char" where
  "digit_char d = char_of (if d < 10 then 48 + d else 87 + d)"

fun dec :: "nat \<Rightarrow> string" where
  "dec n = (if n < 10 then [digit_char n] else dec (n div 10) @ [digit_char (n mod 10)])"

fun hex :: "nat \<Rightarrow> string" where
  "hex n = (if n < 16 then [digit_char n] else hex (n div 16) @ [digit_char (n mod 16)])"

declare dec.simps [simp del] hex.simps [simp del]

definition dec_int :: "int \<Rightarrow> string" where
  "dec_int n = (if n < 0 then CHR ''-'' # dec (nat (- n)) else dec (nat n))"

text \<open>\<^verbatim>\<open>%-Ns\<close> pads on the right, \<^verbatim>\<open>%0Nx\<close> pads with zeros on the left.\<close>

definition pad_right :: "nat \<Rightarrow> string \<Rightarrow> string" where
  "pad_right n s = s @ replicate (n - length s) CHR '' ''"

definition zero_pad :: "nat \<Rightarrow> string \<Rightarrow> string" where
  "zero_pad n s = replicate (n - length s) CHR ''0'' @ s"

text \<open>\<^verbatim>\<open>snprintf(dst, size, ...)\<close> keeps at most \<^verbatim>\<open>size - 1\<close> characters.\<close>

definition snprintf :: "nat \<Rightarrow> string \<Rightarrow> string" where
  "snprintf n s = take (n - 1) s"

lemma dec_small: "n < 10 \<Longrightarrow> dec n = [digit_char n]"
  by (subst dec.simps) simp

lemma dec_step: "\<not> n < 10 \<Longrightarrow> dec n = dec (n div 10) @ [digit_char (n mod 10)]"
  by (subst dec.simps) simp

lemma dec_nonempty [simp]: "dec n \<noteq> []"
  by (subst dec.simps) simp

definition is_digit_char :: "char \<Rightarrow> bool" where
  "is_digit_char c \<longleftrightarrow> 48 \<le> (of_char c :: nat) \<and> (of_char c :: nat) \<le> 57"

definition digit_val :: "char \<Rightarrow> nat" where
  "digit_val c = of_char c - 48"

lemma of_digit_char: "d < 10 \<Longrightarrow> (of_char (digit_char d) :: nat) = 48 + d"
  by (simp add: digit_char_def of_char_of)

lemma is_digit_digit_char [simp]: "d < 10 \<Longrightarrow> is_digit_char (digit_char d)"
  by (simp add: is_digit_char_def of_digit_char)

lemma digit_val_digit_char [simp]: "d < 10 \<Longrightarrow> digit_val (digit_char d) = d"
  by (simp add: digit_val_def of_digit_char)

lemma dec_digits: "c \<in> set (dec n) \<Longrightarrow> is_digit_char c"
proof (induction n rule: dec.induct)
  case (1 n)
  show ?case
  proof (cases "n < 10")
    case True
    with "1.prems" show ?thesis by (simp add: dec_small)
  next
    case False
    with "1" show ?thesis by (auto simp: dec_step)
  qed
qed

definition digits_val :: "string \<Rightarrow> nat" where
  "digits_val s = foldl (\<lambda>a c. 10 * a + digit_val c) 0 s"

lemma digits_val_snoc [simp]: "digits_val (s @ [c]) = 10 * digits_val s + digit_val c"
  by (simp add: digits_val_def)

lemma digits_val_dec [simp]: "digits_val (dec n) = n"
proof (induction n rule: dec.induct)
  case (1 n)
  then show ?case
    by (cases "n < 10") (simp_all add: dec_small dec_step, simp add: digits_val_def)
qed

lemma dec_inj: "dec m = dec n \<Longrightarrow> m = n"
  by (metis digits_val_dec)

lemma length_dec_le: "0 < k \<Longrightarrow> n < 10 ^ k \<Longrightarrow> length (dec n) \<le> k"
proof (induction k arbitrary: n)
  case (Suc k)
  show ?case
  proof (cases "n < 10")
    case True
    then show ?thesis by (simp add: dec_small)
  next
    case False
    with Suc.prems have "0 < k" by (cases k) auto
    moreover from Suc.prems have "n div 10 < 10 ^ k"
      by (simp add: less_mult_imp_div_less mult.commute)
    ultimately show ?thesis using False Suc.IH by (simp add: dec_step)
  qed
qed simp

section \<open>Number parsing\<close>

text \<open>
  \<^verbatim>\<open>strtol(s, NULL, 10)\<close>: white space, an optional sign, digits up to the first other
  character; out of range it returns the nearest bound and sets \<^verbatim>\<open>errno\<close> to
  \<^verbatim>\<open>ERANGE\<close>, here the second component.
\<close>

definition c_isspace :: "char \<Rightarrow> bool" where
  "c_isspace c \<longleftrightarrow> (of_char c :: nat) = 32 \<or> (9 \<le> (of_char c :: nat) \<and> (of_char c :: nat) \<le> 13)"

fun strtol_sign :: "string \<Rightarrow> bool \<times> string" where
  "strtol_sign [] = (False, [])"
| "strtol_sign (c # s) = (if c = CHR ''-'' then (True, s)
     else if c = CHR ''+'' then (False, s) else (False, c # s))"

definition strtol10 :: "string \<Rightarrow> int \<times> bool" where
  "strtol10 s =
     (let (neg, ds) = strtol_sign (dropWhile c_isspace s);
          v = int (digits_val (takeWhile is_digit_char ds));
          n = (if neg then - v else v)
      in if n > LONG_MAX then (LONG_MAX, True)
         else if n < LONG_MIN then (LONG_MIN, True) else (n, False))"

text \<open>glibc's \<^verbatim>\<open>atoi\<close> is \<^verbatim>\<open>(int) strtol(s, NULL, 10)\<close>.\<close>

definition atoi :: "string \<Rightarrow> int" where
  "atoi s = to_int32 (fst (strtol10 s))"

lemma digit_not_space: "is_digit_char c \<Longrightarrow> \<not> c_isspace c"
  by (auto simp: is_digit_char_def c_isspace_def)

lemma digit_not_sign: "is_digit_char c \<Longrightarrow> c \<noteq> CHR ''-'' \<and> c \<noteq> CHR ''+''"
  by (auto simp: is_digit_char_def)

lemma strtol10_dec:
  assumes "int n \<le> LONG_MAX"
  shows "strtol10 (dec n) = (int n, False)"
proof -
  obtain c s where cs: "dec n = c # s" by (cases "dec n") auto
  have dc: "is_digit_char c" using dec_digits [of c n] by (simp add: cs)
  have tw: "takeWhile is_digit_char (dec n) = dec n"
    using dec_digits by (simp add: takeWhile_eq_all_conv)
  have "dropWhile c_isspace (dec n) = dec n"
    by (simp add: cs digit_not_space [OF dc])
  moreover have "strtol_sign (dec n) = (False, dec n)"
    using digit_not_sign [OF dc] by (simp add: cs)
  ultimately show ?thesis using assms by (simp add: strtol10_def tw)
qed

lemma strtol10_range: "LONG_MIN \<le> fst (strtol10 s) \<and> fst (strtol10 s) \<le> LONG_MAX"
  by (auto simp: strtol10_def Let_def split: prod.splits)

end
