(* ===== verification/Bpf_Kernel.thy ===== *)
theory Bpf_Kernel
  imports C_Prelude
begin

text \<open>
  The kernel as the BPF programs see it. Maps, ring buffers and helpers are code outside the
  repository: they enter every handler as arguments (records of operations, or the values a
  helper returned to this invocation). The locales state what the handlers rely on, which is the
  documented behaviour of the map types and helpers; the clients' lemmas are proved from those
  laws alone. At the end two executable instances (a hash map that refuses new keys when full, a
  bounded ring buffer) satisfy the laws, so that every handler can be run on concrete input.
\<close>

section \<open>Process identity\<close>

text \<open>
  \<^verbatim>\<open>bpf_get_current_pid_tgid()\<close> returns \<^verbatim>\<open>tgid << 32 | pid\<close>. Every handler takes it
  apart with \<^verbatim>\<open>>> 32\<close> and a truncating cast.
\<close>

definition tgid_of :: "u64 \<Rightarrow> u32" where
  "tgid_of i = ucast (drop_bit 32 i)"

definition tid_of :: "u64 \<Rightarrow> u32" where
  "tid_of i = ucast i"

definition pid_tgid :: "u32 \<Rightarrow> u32 \<Rightarrow> u64" where
  "pid_tgid tgid pid = push_bit 32 (ucast tgid) OR ucast pid"

lemma tgid_of_pid_tgid [simp]: "tgid_of (pid_tgid g p) = g"
  by (rule bit_word_eqI) (auto simp: tgid_of_def pid_tgid_def bit_simps dest: bit_imp_le_length)

lemma tid_of_pid_tgid [simp]: "tid_of (pid_tgid g p) = p"
  by (rule bit_word_eqI) (auto simp: tid_of_def pid_tgid_def bit_simps dest: bit_imp_le_length)

section \<open>Helpers that fill a buffer\<close>

text \<open>
  \<^verbatim>\<open>bpf_get_current_comm(buf, size)\<close> is given by its return value and the bytes it leaves in
  the buffer. The buffer is NUL-terminated on success and filled with zeroes on failure.
\<close>

type_synonym comm_helper = "nat \<Rightarrow> int \<times> bytes"

definition comm_doc :: "comm_helper \<Rightarrow> bool" where
  "comm_doc f \<longleftrightarrow> (\<forall>n > 0. length (snd (f n)) = n \<and>
     (if fst (f n) = 0 then 0 \<in> set (snd (f n)) else snd (f n) = replicate n 0))"

lemma comm_docD:
  assumes "comm_doc f" and "0 < n"
  shows "length (snd (f n)) = n" and "0 \<in> set (snd (f n))"
  using assms(1) [unfolded comm_doc_def, rule_format, OF assms(2)] assms(2)
  by (auto split: if_splits)

text \<open>
  \<^verbatim>\<open>bpf_probe_read_*_str(dst, size, src)\<close> copies at most \<^verbatim>\<open>size - 1\<close> bytes of the string,
  ends them with a NUL and leaves the rest of the target as it was.
\<close>

type_synonym read_str_helper = "u64 \<Rightarrow> nat \<Rightarrow> bytes \<Rightarrow> int \<times> bytes"

definition str_copy :: "nat \<Rightarrow> string \<Rightarrow> bytes \<Rightarrow> bytes" where
  "str_copy n s dst = take (n - 1) (bytes_of s) @ 0 # drop (Suc (min (length s) (n - 1))) dst"

lemma bytes_of_take: "bytes_of (take k s) = take k (bytes_of s)"
  by (simp add: bytes_of_def take_map)

lemma no_nul_take: "no_nul s \<Longrightarrow> no_nul (take k s)"
  by (auto simp: no_nul_def dest: in_set_takeD)

lemma c_str_str_copy: "no_nul s \<Longrightarrow> c_str (str_copy n s dst) = Some (take (n - 1) s)"
  using c_str_bytes_of [OF no_nul_take, of s "n - 1"]
  by (simp add: str_copy_def bytes_of_take)

lemma length_str_copy: "0 < n \<Longrightarrow> length dst = n \<Longrightarrow> length (str_copy n s dst) = n"
  by (auto simp: str_copy_def min_def)

section \<open>Hash maps\<close>

record ('m, 'k, 'v) map_ops =
  map_lookup_elem :: "'m \<Rightarrow> 'k \<Rightarrow> 'v option"
  map_update_elem :: "'m \<Rightarrow> 'k \<Rightarrow> 'v \<Rightarrow> nat \<Rightarrow> int \<times> 'm"
  map_delete_elem :: "'m \<Rightarrow> 'k \<Rightarrow> int \<times> 'm"

abbreviation (input) BPF_ANY :: nat where "BPF_ANY \<equiv> 0"

locale bpf_map =
  fixes mops :: "('m, 'k, 'v) map_ops"
  assumes update_ok: "fst (map_update_elem mops m k v BPF_ANY) = 0 \<Longrightarrow>
      map_lookup_elem mops (snd (map_update_elem mops m k v BPF_ANY)) = (map_lookup_elem mops m)(k \<mapsto> v)"
    and update_err: "fst (map_update_elem mops m k v BPF_ANY) \<noteq> 0 \<Longrightarrow>
      map_lookup_elem mops (snd (map_update_elem mops m k v BPF_ANY)) = map_lookup_elem mops m"
    and delete: "map_lookup_elem mops (snd (map_delete_elem mops m k)) = (map_lookup_elem mops m)(k := None)"
begin

lemma lookup_after_update:
  "map_lookup_elem mops (snd (map_update_elem mops m k v BPF_ANY)) =
     (if fst (map_update_elem mops m k v BPF_ANY) = 0
      then (map_lookup_elem mops m)(k \<mapsto> v) else map_lookup_elem mops m)"
  by (simp add: update_ok update_err)

lemma update_other:
  "k' \<noteq> k \<Longrightarrow> map_lookup_elem mops (snd (map_update_elem mops m k v BPF_ANY)) k' = map_lookup_elem mops m k'"
  by (simp add: lookup_after_update)

lemma delete_same: "map_lookup_elem mops (snd (map_delete_elem mops m k)) k = None"
  by (simp add: delete)

lemma delete_other:
  "k' \<noteq> k \<Longrightarrow> map_lookup_elem mops (snd (map_delete_elem mops m k)) k' = map_lookup_elem mops m k'"
  by (simp add: delete)

lemma delete_dom:
  "dom (map_lookup_elem mops (snd (map_delete_elem mops m k))) = dom (map_lookup_elem mops m) - {k}"
  by (auto simp: delete)

end

text \<open>
  A map declared with \<^verbatim>\<open>max_entries\<close> holds at most that many keys and accepts every update
  while it holds fewer.
\<close>

locale bpf_hash_map = bpf_map mops for mops :: "('m, 'k, 'v) map_ops" +
  fixes max_entries :: nat
  assumes finite_keys: "finite (dom (map_lookup_elem mops m))"
    and map_room: "card (dom (map_lookup_elem mops m)) < max_entries \<Longrightarrow>
      fst (map_update_elem mops m k v BPF_ANY) = 0"
begin

lemma update_below_limit:
  "card (dom (map_lookup_elem mops m)) < max_entries \<Longrightarrow>
   map_lookup_elem mops (snd (map_update_elem mops m k v BPF_ANY)) = (map_lookup_elem mops m)(k \<mapsto> v)"
  by (simp add: map_room update_ok)

lemma card_update:
  "card (dom (map_lookup_elem mops (snd (map_update_elem mops m k v BPF_ANY))))
     \<le> Suc (card (dom (map_lookup_elem mops m)))"
  by (simp add: lookup_after_update card_insert_if finite_keys)

lemma card_delete:
  "card (dom (map_lookup_elem mops (snd (map_delete_elem mops m k)))) \<le> card (dom (map_lookup_elem mops m))"
  by (simp add: delete_dom card_mono finite_keys)

end

section \<open>Ring buffers\<close>

text \<open>
  \<^verbatim>\<open>bpf_ringbuf_reserve\<close> hands out uninitialised memory, so what it returns is a struct with
  arbitrary contents (of the right layout). The record becomes visible to the reader, after
  those already there, when it is submitted.
\<close>

record ('r, 'e) ringbuf_ops =
  ringbuf_reserve :: "'r \<Rightarrow> nat \<Rightarrow> 'e option \<times> 'r"
  ringbuf_submit :: "'r \<Rightarrow> 'e \<Rightarrow> 'r"
  ringbuf_records :: "'r \<Rightarrow> 'e list"

locale bpf_ringbuf =
  fixes rops :: "('r, 'e) ringbuf_ops" and layout :: "'e \<Rightarrow> bool" and sz :: nat
  assumes reserve_none: "ringbuf_reserve rops r sz = (None, r') \<Longrightarrow>
      ringbuf_records rops r' = ringbuf_records rops r"
    and reserve_layout: "ringbuf_reserve rops r sz = (Some e, r') \<Longrightarrow> layout e"
    and submit: "ringbuf_reserve rops r sz = (Some e0, r') \<Longrightarrow>
      ringbuf_records rops (ringbuf_submit rops r' e) = ringbuf_records rops r @ [e]"
begin

text \<open>What any handler that reserves, fills and submits does to the reader's view.\<close>

lemma produce_records:
  "ringbuf_records rops (case ringbuf_reserve rops r sz of
       (None, r') \<Rightarrow> r' | (Some e, r') \<Rightarrow> ringbuf_submit rops r' (f e)) =
   ringbuf_records rops r @ (case fst (ringbuf_reserve rops r sz) of None \<Rightarrow> [] | Some e \<Rightarrow> [f e])"
  by (auto split: prod.splits option.splits dest: reserve_none submit)

end

locale bpf_ringbuf_cap = bpf_ringbuf rops layout sz
  for rops :: "('r, 'e) ringbuf_ops" and layout :: "'e \<Rightarrow> bool" and sz :: nat +
  fixes capacity :: nat
  assumes ring_room: "length (ringbuf_records rops r) < capacity \<Longrightarrow> fst (ringbuf_reserve rops r sz) \<noteq> None"

section \<open>Executable instances of the documented behaviour\<close>

definition kernel_hash :: "nat \<Rightarrow> (('k \<times> 'v) list, 'k, 'v) map_ops" where
  "kernel_hash max_entries = \<lparr>
     map_lookup_elem = map_of,
     map_update_elem = (\<lambda>m k v flags.
       if map_of m k \<noteq> None \<or> length (remdups (map fst m)) < max_entries
       then (0, (k, v) # filter (\<lambda>p. fst p \<noteq> k) m) else (- 7, m)),
     map_delete_elem = (\<lambda>m k.
       if map_of m k \<noteq> None then (0, filter (\<lambda>p. fst p \<noteq> k) m) else (- 2, m)) \<rparr>"

definition kernel_ringbuf :: "nat \<Rightarrow> 'e \<Rightarrow> ('e list, 'e) ringbuf_ops" where
  "kernel_ringbuf capacity stale = \<lparr>
     ringbuf_reserve = (\<lambda>r n. if length r < capacity then (Some stale, r) else (None, r)),
     ringbuf_submit = (\<lambda>r e. r @ [e]),
     ringbuf_records = (\<lambda>r. r) \<rparr>"

lemma kernel_ringbuf_simps [simp]:
  "ringbuf_reserve (kernel_ringbuf capacity stale) r n = (if length r < capacity then (Some stale, r) else (None, r))"
  "ringbuf_submit (kernel_ringbuf capacity stale) r e = r @ [e]"
  "ringbuf_records (kernel_ringbuf capacity stale) r = r"
  by (simp_all add: kernel_ringbuf_def)

lemma map_of_filter_key: "map_of (filter (\<lambda>p. fst p \<noteq> k) m) = (map_of m)(k := None)"
  by (induction m) (auto simp: fun_eq_iff)

lemma card_dom_map_of: "card (dom (map_of m)) = length (remdups (map fst m))"
  by (simp add: dom_map_of_conv_image_fst length_remdups_card_conv)

interpretation kernel_hash: bpf_hash_map "kernel_hash max_entries" max_entries for max_entries
  by unfold_locales (auto simp: kernel_hash_def map_of_filter_key card_dom_map_of finite_dom_map_of
      fun_eq_iff split: if_splits)

lemma kernel_ringbuf_law: "layout stale \<Longrightarrow> bpf_ringbuf_cap (kernel_ringbuf cap stale) layout sz cap"
  by unfold_locales (auto simp: kernel_ringbuf_def split: if_splits)

interpretation kernel_ringbuf: bpf_ringbuf_cap "kernel_ringbuf capacity stale" "\<lambda>e. e = stale" sz capacity
  for capacity stale sz
  by (rule kernel_ringbuf_law) simp

end
