(* ===== verification/Bootstrap_Bpf.thy ===== *)
theory Bootstrap_Bpf
  imports Bpf_Kernel
begin

text \<open>
  The kernel half of \<^verbatim>\<open>bootstrap\<close>: \<^verbatim>\<open>bootstrap.h\<close> and
  \<^verbatim>\<open>bootstrap.bpf.c\<close>. Two tracepoint handlers share the hash map
  \<^verbatim>\<open>exec_start\<close> (process id to time of exec) and the ring buffer \<^verbatim>\<open>rb\<close>. The
  abstract specification is a function of the history of tracepoint hits; the refinement lemmas
  say that the handlers compute it.
\<close>

section \<open>Data\<close>

abbreviation (input) TASK_COMM_LEN :: nat where "TASK_COMM_LEN \<equiv> 16"
abbreviation (input) MAX_FILENAME_LEN :: nat where "MAX_FILENAME_LEN \<equiv> 127"

record event =
  e_pid :: u32
  e_ppid :: u32
  e_exit_code :: u32
  e_duration_ns :: u64
  e_comm :: bytes
  e_filename :: bytes
  e_exit_event :: bool

text \<open>The size of \<^verbatim>\<open>struct event\<close>: 12 bytes, 4 of padding, 8, 16, 127 and 1.\<close>

abbreviation (input) sizeof_event :: nat where "sizeof_event \<equiv> 168"

definition event_layout :: "event \<Rightarrow> bool" where
  "event_layout e \<longleftrightarrow> length (e_comm e) = TASK_COMM_LEN \<and> length (e_filename e) = MAX_FILENAME_LEN"

record ('m, 'r) bootstrap_bpf =
  exec_start :: 'm
  rb :: 'r

text \<open>
  What the kernel presents to one invocation: the results of the helpers the handlers call, and
  the tracepoint context.
\<close>

record tp_ctx =
  x_pid_tgid :: u64
  x_ktime_ns :: u64
  x_ppid :: u32
  x_exit_code :: u32
  x_comm :: comm_helper
  x_addr :: u64
  x_data_loc_filename :: u32
  x_probe_read_str :: read_str_helper

section \<open>The handlers\<close>

definition handle_exec ::
  "('m, u32, u64) map_ops \<Rightarrow> ('r, event) ringbuf_ops \<Rightarrow> u64 \<Rightarrow> tp_ctx \<Rightarrow>
   ('m, 'r) bootstrap_bpf \<Rightarrow> int \<times> ('m, 'r) bootstrap_bpf" where
  "handle_exec mops rops min_duration_ns ctx s =
     (let pid = tgid_of (x_pid_tgid ctx);
          ts = x_ktime_ns ctx;
          s = s\<lparr>exec_start := snd (map_update_elem mops (exec_start s) pid ts BPF_ANY)\<rparr>
      in if min_duration_ns \<noteq> 0 then (0, s)
         else case ringbuf_reserve rops (rb s) sizeof_event of
           (None, r) \<Rightarrow> (0, s\<lparr>rb := r\<rparr>)
         | (Some e, r) \<Rightarrow>
           let e = e\<lparr>e_exit_event := False\<rparr>;
               e = e\<lparr>e_pid := pid\<rparr>;
               e = e\<lparr>e_ppid := x_ppid ctx\<rparr>;
               e = e\<lparr>e_comm := snd (x_comm ctx TASK_COMM_LEN)\<rparr>;
               fname_off = x_data_loc_filename ctx AND 0xFFFF;
               e = e\<lparr>e_filename := snd (x_probe_read_str ctx (x_addr ctx + ucast fname_off)
                                         MAX_FILENAME_LEN (e_filename e))\<rparr>
           in (0, s\<lparr>rb := ringbuf_submit rops r e\<rparr>))"

definition handle_exit ::
  "('m, u32, u64) map_ops \<Rightarrow> ('r, event) ringbuf_ops \<Rightarrow> u64 \<Rightarrow> tp_ctx \<Rightarrow>
   ('m, 'r) bootstrap_bpf \<Rightarrow> int \<times> ('m, 'r) bootstrap_bpf" where
  "handle_exit mops rops min_duration_ns ctx s =
     (let pid = tgid_of (x_pid_tgid ctx);
          tid = tid_of (x_pid_tgid ctx);
          start_ts = map_lookup_elem mops (exec_start s) pid
      in if pid \<noteq> tid then (0, s)
         else if start_ts = None \<and> min_duration_ns \<noteq> 0 then (0, s)
         else
           let duration_ns = (case start_ts of Some t \<Rightarrow> x_ktime_ns ctx - t | None \<Rightarrow> 0);
               s = s\<lparr>exec_start := snd (map_delete_elem mops (exec_start s) pid)\<rparr>
           in if min_duration_ns \<noteq> 0 \<and> duration_ns < min_duration_ns then (0, s)
              else case ringbuf_reserve rops (rb s) sizeof_event of
                (None, r) \<Rightarrow> (0, s\<lparr>rb := r\<rparr>)
              | (Some e, r) \<Rightarrow>
                let e = e\<lparr>e_exit_event := True\<rparr>;
                    e = e\<lparr>e_duration_ns := duration_ns\<rparr>;
                    e = e\<lparr>e_pid := pid\<rparr>;
                    e = e\<lparr>e_ppid := x_ppid ctx\<rparr>;
                    e = e\<lparr>e_exit_code := signed_drop_bit 8 (x_exit_code ctx) AND 0xff\<rparr>;
                    e = e\<lparr>e_comm := snd (x_comm ctx TASK_COMM_LEN)\<rparr>
                in (0, s\<lparr>rb := ringbuf_submit rops r e\<rparr>))"

text \<open>The tracepoints fire in some order; each hit runs one handler.\<close>

datatype tp_hit = Exec tp_ctx | Exit tp_ctx

fun tp_step where
  "tp_step mops rops d (Exec ctx) s = snd (handle_exec mops rops d ctx s)"
| "tp_step mops rops d (Exit ctx) s = snd (handle_exit mops rops d ctx s)"

fun tp_run where
  "tp_run mops rops d [] s = s"
| "tp_run mops rops d (h # hs) s = tp_run mops rops d hs (tp_step mops rops d h s)"

section \<open>Abstract specification\<close>

text \<open>
  A report is what a reader can see of an event: the fields that its kind defines. The other
  fields hold whatever the reserved memory held before.
\<close>

datatype report =
    Exec_report (r_pid: u32) (r_ppid: u32) (r_comm: bytes) (r_filename: "string option")
  | Exit_report (r_pid: u32) (r_ppid: u32) (r_exit_code: u32) (r_duration: u64) (r_comm: bytes)

definition report_of :: "event \<Rightarrow> report" where
  "report_of e = (if e_exit_event e
     then Exit_report (e_pid e) (e_ppid e) (e_exit_code e) (e_duration_ns e) (e_comm e)
     else Exec_report (e_pid e) (e_ppid e) (e_comm e) (c_str (e_filename e)))"

text \<open>
  The history is kept latest hit first. The start time of a process is the time of its last exec
  unless its thread group leader has exited since; the exits of other threads do not matter.
\<close>

fun start_of :: "u32 \<Rightarrow> tp_hit list \<Rightarrow> u64 option" where
  "start_of p [] = None"
| "start_of p (Exec ctx # h) =
     (if tgid_of (x_pid_tgid ctx) = p then Some (x_ktime_ns ctx) else start_of p h)"
| "start_of p (Exit ctx # h) =
     (if tgid_of (x_pid_tgid ctx) = p \<and> tid_of (x_pid_tgid ctx) = p then None else start_of p h)"

definition filename_at :: "tp_ctx \<Rightarrow> string option \<Rightarrow> bool" where
  "filename_at ctx f \<longleftrightarrow> (\<forall>dst. length dst = MAX_FILENAME_LEN \<longrightarrow>
     c_str (snd (x_probe_read_str ctx (x_addr ctx + ucast (x_data_loc_filename ctx AND 0xFFFF))
                   MAX_FILENAME_LEN dst)) = f)"

text \<open>The lifetime of an exiting process, and whether the configured minimum lets it through.\<close>

fun lifetime :: "tp_hit list \<Rightarrow> tp_ctx \<Rightarrow> u64" where
  "lifetime h ctx = (case start_of (tgid_of (x_pid_tgid ctx)) h of Some t \<Rightarrow> x_ktime_ns ctx - t | None \<Rightarrow> 0)"

fun exit_visible :: "u64 \<Rightarrow> tp_hit list \<Rightarrow> tp_ctx \<Rightarrow> bool" where
  "exit_visible d h ctx \<longleftrightarrow> tgid_of (x_pid_tgid ctx) = tid_of (x_pid_tgid ctx) \<and>
     (d = 0 \<or> (start_of (tgid_of (x_pid_tgid ctx)) h \<noteq> None \<and> d \<le> lifetime h ctx))"

fun expected :: "(tp_ctx \<Rightarrow> string option) \<Rightarrow> u64 \<Rightarrow> tp_hit list \<Rightarrow> tp_hit \<Rightarrow> report list" where
  "expected fname d h (Exec ctx) =
     (if d = 0 then [Exec_report (tgid_of (x_pid_tgid ctx)) (x_ppid ctx)
                       (snd (x_comm ctx TASK_COMM_LEN)) (fname ctx)] else [])"
| "expected fname d h (Exit ctx) =
     (if exit_visible d h ctx then [Exit_report (tgid_of (x_pid_tgid ctx)) (x_ppid ctx)
        (signed_drop_bit 8 (x_exit_code ctx) AND 0xff) (lifetime h ctx) (snd (x_comm ctx TASK_COMM_LEN))]
      else [])"

fun expected_run where
  "expected_run fname d h [] = []"
| "expected_run fname d h (x # xs) = expected fname d h x @ expected_run fname d (x # h) xs"

section \<open>The handlers against the interfaces\<close>

text \<open>What the two handlers write into a reserved record.\<close>

definition exec_fill :: "tp_ctx \<Rightarrow> event \<Rightarrow> event" where
  "exec_fill ctx e = e\<lparr>e_exit_event := False, e_pid := tgid_of (x_pid_tgid ctx), e_ppid := x_ppid ctx,
     e_comm := snd (x_comm ctx TASK_COMM_LEN),
     e_filename := snd (x_probe_read_str ctx (x_addr ctx + ucast (x_data_loc_filename ctx AND 0xFFFF))
                          MAX_FILENAME_LEN (e_filename e))\<rparr>"

definition exit_fill :: "u64 \<Rightarrow> tp_ctx \<Rightarrow> event \<Rightarrow> event" where
  "exit_fill dur ctx e = e\<lparr>e_exit_event := True, e_duration_ns := dur, e_pid := tgid_of (x_pid_tgid ctx),
     e_ppid := x_ppid ctx, e_exit_code := signed_drop_bit 8 (x_exit_code ctx) AND 0xff,
     e_comm := snd (x_comm ctx TASK_COMM_LEN)\<rparr>"

text \<open>The state as the specification sees it.\<close>

definition start_times :: "('m, u32, u64) map_ops \<Rightarrow> ('m, 'r) bootstrap_bpf \<Rightarrow> u32 \<rightharpoonup> u64" where
  "start_times mops s = map_lookup_elem mops (exec_start s)"

definition visible :: "('r, event) ringbuf_ops \<Rightarrow> ('m, 'r) bootstrap_bpf \<Rightarrow> event list" where
  "visible rops s = ringbuf_records rops (rb s)"

definition reserved :: "('r, event) ringbuf_ops \<Rightarrow> ('m, 'r) bootstrap_bpf \<Rightarrow> event list" where
  "reserved rops s = (case fst (ringbuf_reserve rops (rb s) sizeof_event) of None \<Rightarrow> [] | Some e \<Rightarrow> [e])"

definition starts_known :: "(u32 \<rightharpoonup> u64) \<Rightarrow> tp_hit list \<Rightarrow> bool" where
  "starts_known m h \<longleftrightarrow> (\<forall>p t. m p = Some t \<longrightarrow>
     (\<exists>ctx. Exec ctx \<in> set h \<and> tgid_of (x_pid_tgid ctx) = p \<and> x_ktime_ns ctx = t))"

text \<open>The duration of an exit event is unknown or the time between an exec and an exit of that process.\<close>

definition duration_explained :: "tp_hit list \<Rightarrow> event \<Rightarrow> bool" where
  "duration_explained h e \<longleftrightarrow> \<not> e_exit_event e \<or> e_duration_ns e = 0 \<or>
     (\<exists>c c'. Exec c \<in> set h \<and> Exit c' \<in> set h \<and> tgid_of (x_pid_tgid c) = e_pid e \<and>
        tgid_of (x_pid_tgid c') = e_pid e \<and> e_duration_ns e = x_ktime_ns c' - x_ktime_ns c)"

text \<open>
  An exit event of at least the duration \<^term>\<open>d\<close>: the leader of the process exited, and the reported
  duration is the time since an exec of the process that happened before (histories have the newest
  hit first).
\<close>

definition measured :: "u64 \<Rightarrow> tp_hit list \<Rightarrow> event \<Rightarrow> bool" where
  "measured d h e \<longleftrightarrow> e_exit_event e \<and> d \<le> e_duration_ns e \<and>
     (\<exists>after c' before c. h = after @ Exit c' # before \<and> Exec c \<in> set before \<and>
        tgid_of (x_pid_tgid c) = e_pid e \<and> tgid_of (x_pid_tgid c') = e_pid e \<and> tid_of (x_pid_tgid c') = e_pid e \<and>
        e_duration_ns e = x_ktime_ns c' - x_ktime_ns c)"

definition names_read :: "(tp_ctx \<Rightarrow> string option) \<Rightarrow> tp_hit list \<Rightarrow> bool" where
  "names_read fname hs \<longleftrightarrow> (\<forall>ctx. Exec ctx \<in> set hs \<longrightarrow> filename_at ctx (fname ctx))"

locale bootstrap_kernel =
  bpf_map mops + bpf_ringbuf rops event_layout sizeof_event
  for mops :: "('m, u32, u64) map_ops" and rops :: "('r, event) ringbuf_ops"
begin

lemma exec_start_times:
  "start_times mops (snd (handle_exec mops rops d ctx s)) =
     (if fst (map_update_elem mops (exec_start s) (tgid_of (x_pid_tgid ctx)) (x_ktime_ns ctx) BPF_ANY) = 0
      then (start_times mops s)(tgid_of (x_pid_tgid ctx) \<mapsto> x_ktime_ns ctx) else start_times mops s)"
  by (auto simp: start_times_def handle_exec_def Let_def lookup_after_update split: prod.splits option.splits)

lemma exec_visible:
  "visible rops (snd (handle_exec mops rops d ctx s)) =
     visible rops s @ (if d = 0 then map (exec_fill ctx) (reserved rops s) else [])"
  by (auto simp: visible_def reserved_def handle_exec_def exec_fill_def Let_def
      dest: reserve_none submit split: prod.splits option.splits)

lemma exit_start_times:
  "start_times mops (snd (handle_exit mops rops d ctx s)) =
     (if tgid_of (x_pid_tgid ctx) = tid_of (x_pid_tgid ctx)
      then (start_times mops s)(tgid_of (x_pid_tgid ctx) := None) else start_times mops s)"
  by (auto simp: start_times_def handle_exit_def Let_def delete fun_eq_iff split: prod.splits option.splits)

lemma exit_visible_records:
  "visible rops (snd (handle_exit mops rops d ctx s)) = visible rops s @
     (if tgid_of (x_pid_tgid ctx) = tid_of (x_pid_tgid ctx) \<and>
         (d = 0 \<or> (\<exists>t. start_times mops s (tgid_of (x_pid_tgid ctx)) = Some t \<and> d \<le> x_ktime_ns ctx - t))
      then map (exit_fill (case start_times mops s (tgid_of (x_pid_tgid ctx)) of
              Some t \<Rightarrow> x_ktime_ns ctx - t | None \<Rightarrow> 0) ctx) (reserved rops s) else [])"
  by (auto simp: visible_def reserved_def start_times_def handle_exit_def exit_fill_def Let_def not_less
      dest: reserve_none submit split: prod.splits option.splits)

lemma reserved_layout: "e \<in> set (reserved rops s) \<Longrightarrow> event_layout e"
  by (cases "ringbuf_reserve rops (rb s) sizeof_event")
     (auto simp: reserved_def dest: reserve_layout split: option.splits)

text \<open>
  With the map laws alone (updates may fail) every recorded start time is the time of an exec of
  that process in the history.
\<close>

lemma step_provenance:
  assumes "starts_known (start_times mops s) h"
  shows "starts_known (start_times mops (tp_step mops rops d x s)) (x # h)"
proof (cases x)
  case (Exec ctx)
  with assms show ?thesis
    by (auto simp: starts_known_def exec_start_times)
next
  case (Exit ctx)
  with assms show ?thesis
    by (auto simp: starts_known_def exit_start_times split: if_splits)
qed

lemma run_provenance:
  assumes "starts_known (start_times mops s) h"
  shows "starts_known (start_times mops (tp_run mops rops d hs s)) (rev hs @ h)"
  using assms
proof (induction hs arbitrary: s h)
  case (Cons x hs)
  from Cons.IH [OF step_provenance [OF Cons.prems]] show ?case by simp
qed simp

lemma explained_mono: "duration_explained h e \<Longrightarrow> duration_explained (x # h) e"
  unfolding duration_explained_def by auto

lemma step_explained:
  assumes known: "starts_known (start_times mops s) h"
    and all: "list_all (duration_explained h) (visible rops s)"
  shows "list_all (duration_explained (x # h)) (visible rops (tp_step mops rops d x s))"
proof -
  have old: "list_all (duration_explained (x # h)) (visible rops s)"
    using all by (auto simp: list_all_iff explained_mono)
  show ?thesis
  proof (cases x)
    case (Exec ctx)
    have "duration_explained (Exec ctx # h) (exec_fill ctx e)" for e
      by (simp add: duration_explained_def exec_fill_def)
    with old Exec show ?thesis by (auto simp: exec_visible list_all_iff)
  next
    case (Exit ctx)
    have "duration_explained (Exit ctx # h) (exit_fill (case start_times mops s (tgid_of (x_pid_tgid ctx)) of
        Some t \<Rightarrow> x_ktime_ns ctx - t | None \<Rightarrow> 0) ctx e)" for e
      using known by (auto simp: duration_explained_def exit_fill_def starts_known_def split: option.splits)
    with old Exit show ?thesis by (auto simp: exit_visible_records list_all_iff)
  qed
qed

lemma run_explained:
  assumes "starts_known (start_times mops s) h"
    and "list_all (duration_explained h) (visible rops s)"
  shows "list_all (duration_explained (rev hs @ h)) (visible rops (tp_run mops rops d hs s))"
  using assms
proof (induction hs arbitrary: s h)
  case (Cons x hs)
  from Cons.IH [OF step_provenance [OF Cons.prems(1)] step_explained [OF Cons.prems]] show ?case by simp
qed simp

text \<open>With a minimum duration only measured lifetimes of at least that length get through.\<close>

lemma measured_mono: "measured d h e \<Longrightarrow> measured d (x # h) e"
  unfolding measured_def by (metis append_Cons)

lemma step_measured:
  assumes "d \<noteq> 0" and known: "starts_known (start_times mops s) h"
    and all: "list_all (measured d h) (visible rops s)"
  shows "list_all (measured d (x # h)) (visible rops (tp_step mops rops d x s))"
proof -
  have old: "list_all (measured d (x # h)) (visible rops s)"
    using all by (auto simp: list_all_iff measured_mono)
  show ?thesis
  proof (cases x)
    case (Exec ctx)
    with old assms(1) show ?thesis by (simp add: exec_visible)
  next
    case (Exit ctx)
    have "measured d (Exit ctx # h) (exit_fill (x_ktime_ns ctx - t) ctx e)"
      if "tgid_of (x_pid_tgid ctx) = tid_of (x_pid_tgid ctx)"
        "start_times mops s (tgid_of (x_pid_tgid ctx)) = Some t" "d \<le> x_ktime_ns ctx - t" for t e
    proof -
      from known that(2) obtain c where
        "Exec c \<in> set h" "tgid_of (x_pid_tgid c) = tgid_of (x_pid_tgid ctx)" "x_ktime_ns c = t"
        unfolding starts_known_def by blast
      moreover have "Exit ctx # h = [] @ Exit ctx # h" by simp
      ultimately show ?thesis unfolding measured_def using that
        by (intro conjI exI [where x = "[]"] exI [where x = ctx] exI [where x = h] exI [where x = c])
           (simp_all add: exit_fill_def)
    qed
    with old Exit assms(1) show ?thesis by (auto simp: exit_visible_records list_all_iff)
  qed
qed

lemma run_measured:
  assumes "d \<noteq> 0" and "starts_known (start_times mops s) h" and "list_all (measured d h) (visible rops s)"
  shows "list_all (measured d (rev hs @ h)) (visible rops (tp_run mops rops d hs s))"
  using assms
proof (induction hs arbitrary: s h)
  case (Cons x hs)
  from Cons.IH [OF assms(1) step_provenance [OF Cons.prems(2)] step_measured [OF Cons.prems]] show ?case by simp
qed simp

end

text \<open>
  While the map has free entries and the ring buffer free space, nothing is lost and the handlers
  compute the specification exactly.
\<close>

locale bootstrap_kernel_room =
  bootstrap_kernel mops rops + bpf_hash_map mops max_entries +
  bpf_ringbuf_cap rops event_layout sizeof_event capacity
  for mops :: "('m, u32, u64) map_ops" and rops :: "('r, event) ringbuf_ops"
    and max_entries capacity :: nat
begin

lemma step_tracks:
  assumes "start_times mops s = (\<lambda>p. start_of p h)"
    and "card (dom (start_times mops s)) < max_entries"
  shows "start_times mops (tp_step mops rops d x s) = (\<lambda>p. start_of p (x # h))"
proof (cases x)
  case (Exec ctx)
  have "fst (map_update_elem mops (exec_start s) k v BPF_ANY) = 0" for k v
    using assms(2) by (simp add: map_room start_times_def)
  with Exec assms(1) show ?thesis by (auto simp: exec_start_times fun_eq_iff)
next
  case (Exit ctx)
  with assms show ?thesis by (auto simp: exit_start_times fun_eq_iff)
qed

lemma step_card: "card (dom (start_times mops (tp_step mops rops d x s))) \<le> Suc (card (dom (start_times mops s)))"
proof -
  have fin: "finite (dom (start_times mops s))"
    by (simp add: start_times_def finite_keys)
  have "dom (start_times mops (tp_step mops rops d x s)) \<subseteq>
      insert (case x of Exec ctx \<Rightarrow> tgid_of (x_pid_tgid ctx) | Exit ctx \<Rightarrow> 0) (dom (start_times mops s))
      \<or> dom (start_times mops (tp_step mops rops d x s)) \<subseteq> dom (start_times mops s)"
    by (cases x) (auto simp: exec_start_times exit_start_times)
  with fin show ?thesis
    by (metis card_insert_le_m1 card_insert_if card_mono finite_insert le_SucI le_refl)
qed

lemma step_length: "length (visible rops (tp_step mops rops d x s)) \<le> Suc (length (visible rops s))"
  by (cases x) (auto simp: exec_visible exit_visible_records reserved_def split: option.splits)

lemma reserved_room:
  assumes "length (visible rops s) < capacity"
  obtains e where "reserved rops s = [e]" and "event_layout e"
  using assms ring_room [of "rb s"] reserved_layout [of _ s]
  by (auto simp: reserved_def visible_def split: option.splits)

lemma step_reports:
  assumes tr: "start_times mops s = (\<lambda>p. start_of p h)"
    and room: "length (visible rops s) < capacity"
    and nr: "names_read fname [x]"
  shows "map report_of (visible rops (tp_step mops rops d x s)) =
         map report_of (visible rops s) @ expected fname d h x"
proof -
  obtain e where res: "reserved rops s = [e]" and lay: "event_layout e"
    using reserved_room [OF room] by blast
  show ?thesis
  proof (cases x)
    case (Exec ctx)
    with nr lay have "c_str (e_filename (exec_fill ctx e)) = fname ctx"
      by (simp add: names_read_def filename_at_def exec_fill_def event_layout_def)
    with Exec res show ?thesis
      by (simp add: exec_visible report_of_def) (simp add: exec_fill_def)
  next
    case (Exit ctx)
    with res tr show ?thesis
      by (auto simp: exit_visible_records report_of_def exit_fill_def split: option.splits)
  qed
qed

lemma run_tracks:
  assumes "start_times mops s = (\<lambda>p. start_of p h)"
    and "card (dom (start_times mops s)) + length hs \<le> max_entries"
  shows "start_times mops (tp_run mops rops d hs s) = (\<lambda>p. start_of p (rev hs @ h))"
  using assms
proof (induction hs arbitrary: s h)
  case (Cons x hs)
  let ?s = "tp_step mops rops d x s"
  have "start_times mops ?s = (\<lambda>p. start_of p (x # h))"
    using Cons.prems by (intro step_tracks) auto
  moreover have "card (dom (start_times mops ?s)) + length hs \<le> max_entries"
    using Cons.prems(2) step_card [of d x s] by simp
  ultimately show ?case using Cons.IH by simp
qed simp

lemma run_reports:
  assumes "start_times mops s = (\<lambda>p. start_of p h)"
    and "card (dom (start_times mops s)) + length hs \<le> max_entries"
    and "length (visible rops s) + length hs \<le> capacity"
    and "names_read fname hs"
  shows "map report_of (visible rops (tp_run mops rops d hs s)) =
         map report_of (visible rops s) @ expected_run fname d h hs"
  using assms
proof (induction hs arbitrary: s h)
  case (Cons x hs)
  let ?s = "tp_step mops rops d x s"
  have "start_times mops ?s = (\<lambda>p. start_of p (x # h))"
    using Cons.prems by (intro step_tracks) auto
  moreover have "card (dom (start_times mops ?s)) + length hs \<le> max_entries"
    using Cons.prems(2) step_card [of d x s] by simp
  moreover have "length (visible rops ?s) + length hs \<le> capacity"
    using Cons.prems(3) step_length [of d x s] by simp
  moreover have "names_read fname hs" and nx: "names_read fname [x]"
    using Cons.prems(4) by (auto simp: names_read_def)
  ultimately have "map report_of (visible rops (tp_run mops rops d hs ?s)) =
      map report_of (visible rops ?s) @ expected_run fname d (x # h) hs"
    by (intro Cons.IH)
  then show ?case
    using step_reports [OF Cons.prems(1) _ nx] Cons.prems(3) by simp
qed simp

end

section \<open>Runs on the reference kernel\<close>

definition exec_start_max_entries :: nat where
  "exec_start_max_entries = 8192"

definition blank_event :: event where
  "blank_event = \<lparr>e_pid = 0, e_ppid = 0, e_exit_code = 0, e_duration_ns = 0,
     e_comm = replicate TASK_COMM_LEN 0xAA, e_filename = replicate MAX_FILENAME_LEN 0xAA, e_exit_event = False\<rparr>"

lemma blank_event_layout: "event_layout blank_event"
  by (simp add: event_layout_def blank_event_def)

lemma kernel_event_ringbuf: "bpf_ringbuf_cap (kernel_ringbuf cap blank_event) event_layout sz cap"
  by (rule kernel_ringbuf_law [where layout = event_layout]) (rule blank_event_layout)

interpretation kernel_bootstrap: bootstrap_kernel_room
  "kernel_hash max_entries" "kernel_ringbuf capacity blank_event" max_entries capacity
  for max_entries capacity
  by (intro bootstrap_kernel_room.intro bootstrap_kernel.intro)
     (simp_all add: kernel_hash.bpf_hash_map_axioms kernel_hash.bpf_map_axioms
        kernel_event_ringbuf bpf_ringbuf_cap.axioms(1) [OF kernel_event_ringbuf])

definition sample_ctx :: "u32 \<Rightarrow> u32 \<Rightarrow> u64 \<Rightarrow> tp_ctx" where
  "sample_ctx tgid tid ts = \<lparr>x_pid_tgid = pid_tgid tgid tid, x_ktime_ns = ts, x_ppid = 1,
     x_exit_code = 256, x_comm = (\<lambda>n. (0, str_copy n ''ls'' (replicate n 0))), x_addr = 4096,
     x_data_loc_filename = 0x00080008, x_probe_read_str = (\<lambda>a n dst. (0, str_copy n ''/bin/ls'' dst))\<rparr>"

abbreviation sample_run :: "tp_hit list" where
  "sample_run \<equiv> [Exec (sample_ctx 100 100 5), Exit (sample_ctx 100 101 9), Exit (sample_ctx 100 100 12)]"

abbreviation sample_start :: "((u32 \<times> u64) list, event list) bootstrap_bpf" where
  "sample_start \<equiv> \<lparr>exec_start = [], rb = []\<rparr>"

lemma sample_filename_at: "filename_at (sample_ctx g p t) (Some ''/bin/ls'')"
  by (simp add: filename_at_def sample_ctx_def c_str_str_copy no_nul_def)

lemma sample_start_empty:
  "start_times (kernel_hash n) sample_start = Map.empty" "visible (kernel_ringbuf c e) sample_start = []"
  by (simp_all add: start_times_def visible_def kernel_hash_def kernel_ringbuf_def)

section \<open>Properties\<close>

text \<open>
  C1. Starting from an empty map and an empty ring buffer, as long as no more hits occur than the
  map and the ring buffer have room for, the records user space can read are, in order, exactly
  those the specification demands: one exec report per exec when no minimum duration is set, and
  for every exit of a thread group leader an exit report with the time since the last exec of that
  process (0 when it was never seen), dropped when a minimum is set and the lifetime is unknown or
  shorter. Stale memory in a reserved record never shows.
\<close>

theorem tp_run_reports:
  assumes "bpf_hash_map mops exec_start_max_entries"
    and "bpf_ringbuf_cap rops event_layout sizeof_event capacity"
    and "start_times mops s = Map.empty" and "visible rops s = []"
    and "length hs \<le> exec_start_max_entries" and "length hs \<le> capacity"
    and "names_read fname hs"
  shows "map report_of (visible rops (tp_run mops rops d hs s)) = expected_run fname d [] hs"
proof -
  have k: "bootstrap_kernel_room mops rops exec_start_max_entries capacity"
    using assms(1,2) by (intro bootstrap_kernel_room.intro bootstrap_kernel.intro)
      (simp_all add: bpf_hash_map.axioms(1) bpf_ringbuf_cap.axioms(1))
  show ?thesis
    using bootstrap_kernel_room.run_reports [OF k, of s "[]" hs fname d] assms(3-7) by simp
qed

theorem tp_run_reports_witness:
  "map report_of (visible (kernel_ringbuf 8 blank_event)
       (tp_run (kernel_hash 8192) (kernel_ringbuf 8 blank_event) 0 sample_run sample_start)) =
   [Exec_report 100 1 (snd (x_comm (sample_ctx 100 100 5) 16)) (Some ''/bin/ls''),
    Exit_report 100 1 1 7 (snd (x_comm (sample_ctx 100 100 12) 16))]"
proof -
  have "names_read (\<lambda>_. Some ''/bin/ls'') sample_run"
    by (auto simp: names_read_def sample_filename_at)
  then have "map report_of (visible (kernel_ringbuf 8 blank_event)
       (tp_run (kernel_hash 8192) (kernel_ringbuf 8 blank_event) 0 sample_run sample_start)) =
      expected_run (\<lambda>_. Some ''/bin/ls'') 0 [] sample_run"
    by (intro tp_run_reports [where capacity = 8])
       (simp_all add: sample_start_empty exec_start_max_entries_def kernel_hash.bpf_hash_map_axioms
          kernel_event_ringbuf)
  then show ?thesis
    by (simp add: sample_ctx_def)
qed

text \<open>
  C12. Also when map updates and reservations fail, every exit event that user space can ever read
  has the duration 0 (unknown) or the time between an exec and an exit under that very process id.
\<close>

theorem tp_run_durations:
  assumes "bpf_map mops" and "bpf_ringbuf rops event_layout sizeof_event"
    and "start_times mops s = Map.empty" and "visible rops s = []"
  shows "list_all (duration_explained hs) (visible rops (tp_run mops rops d hs s))"
proof -
  have "list_all (duration_explained (rev hs)) (visible rops (tp_run mops rops d hs s))"
    using bootstrap_kernel.run_explained [OF bootstrap_kernel.intro [OF assms(1,2)], of s "[]" hs d] assms(3,4)
    by (simp add: starts_known_def)
  then show ?thesis by (simp add: duration_explained_def [abs_def])
qed

theorem tp_run_durations_witness:
  "list_all (duration_explained sample_run) (visible (kernel_ringbuf 1 blank_event)
     (tp_run (kernel_hash 0) (kernel_ringbuf 1 blank_event) 0 sample_run sample_start))"
  by (rule tp_run_durations)
     (simp_all add: sample_start_empty kernel_hash.bpf_map_axioms bpf_ringbuf_cap.axioms(1) [OF kernel_event_ringbuf])

text \<open>
  C15. When a minimum duration is set, whether or not map updates and reservations fail, every event
  user space can ever read is an exit event of a process whose leader exited, its duration is the
  time between an earlier exec of that process and that exit, and it is at least the minimum; no
  exec event appears.
\<close>

theorem tp_run_minimum:
  assumes "bpf_map mops" and "bpf_ringbuf rops event_layout sizeof_event"
    and "start_times mops s = Map.empty" and "visible rops s = []" and "d \<noteq> 0"
  shows "list_all (measured d (rev hs)) (visible rops (tp_run mops rops d hs s))"
  using bootstrap_kernel.run_measured [OF bootstrap_kernel.intro [OF assms(1,2)], of d s "[]" hs] assms(3-5)
  by (simp add: starts_known_def)

theorem tp_run_minimum_witness:
  "list_all (measured 5 (rev sample_run)) (visible (kernel_ringbuf 4 blank_event)
      (tp_run (kernel_hash 4) (kernel_ringbuf 4 blank_event) 5 sample_run sample_start)) \<and>
   map e_duration_ns (visible (kernel_ringbuf 4 blank_event)
      (tp_run (kernel_hash 4) (kernel_ringbuf 4 blank_event) 5 sample_run sample_start)) = [7]"
proof
  show "list_all (measured 5 (rev sample_run)) (visible (kernel_ringbuf 4 blank_event)
      (tp_run (kernel_hash 4) (kernel_ringbuf 4 blank_event) 5 sample_run sample_start))"
    by (rule tp_run_minimum)
       (simp_all add: sample_start_empty kernel_hash.bpf_map_axioms bpf_ringbuf_cap.axioms(1) [OF kernel_event_ringbuf])
  show "map e_duration_ns (visible (kernel_ringbuf 4 blank_event)
      (tp_run (kernel_hash 4) (kernel_ringbuf 4 blank_event) 5 sample_run sample_start)) = [7]"
    by (simp add: handle_exec_def handle_exit_def visible_def kernel_hash_def kernel_ringbuf_def
        sample_ctx_def Let_def)
qed

text \<open>
  C16. The map holds an entry for exactly the processes that have called exec and whose leader has
  not exited since, with the time of the last exec, while there is room: entries of dead processes
  do not pile up, and exits of other threads leave them alone.
\<close>

theorem tp_run_live_processes:
  assumes "bpf_hash_map mops exec_start_max_entries"
    and "bpf_ringbuf_cap rops event_layout sizeof_event capacity"
    and "start_times mops s = Map.empty" and "length hs \<le> exec_start_max_entries"
  shows "start_times mops (tp_run mops rops d hs s) p = start_of p (rev hs)"
proof -
  have k: "bootstrap_kernel_room mops rops exec_start_max_entries capacity"
    using assms(1,2) by (intro bootstrap_kernel_room.intro bootstrap_kernel.intro)
      (simp_all add: bpf_hash_map.axioms(1) bpf_ringbuf_cap.axioms(1))
  show ?thesis
    using bootstrap_kernel_room.run_tracks [OF k, of s "[]" hs d] assms(3,4) by (simp add: fun_eq_iff)
qed

theorem tp_run_live_processes_witness:
  "start_times (kernel_hash 8192) (tp_run (kernel_hash 8192) (kernel_ringbuf 0 blank_event) 0
     [Exec (sample_ctx 100 100 5), Exec (sample_ctx 200 200 6), Exit (sample_ctx 100 101 9), Exit (sample_ctx 200 200 12)]
     sample_start) 100 = Some 5"
proof -
  have "start_times (kernel_hash 8192) (tp_run (kernel_hash 8192) (kernel_ringbuf 0 blank_event) 0
     [Exec (sample_ctx 100 100 5), Exec (sample_ctx 200 200 6), Exit (sample_ctx 100 101 9), Exit (sample_ctx 200 200 12)]
     sample_start) 100 = start_of 100 (rev [Exec (sample_ctx 100 100 5), Exec (sample_ctx 200 200 6),
       Exit (sample_ctx 100 101 9), Exit (sample_ctx 200 200 12)])"
    by (rule tp_run_live_processes [where capacity = 0])
       (simp_all add: sample_start_empty exec_start_max_entries_def kernel_hash.bpf_hash_map_axioms kernel_event_ringbuf)
  then show ?thesis by (simp add: sample_ctx_def)
qed

end
