(* ===== verification/User_World.thy ===== *)
theory User_World
  imports C_Prelude
begin

text \<open>
  User space. A program talks to libbpf, to the kernel and to its terminal through calls; what
  they answer is decided by an environment, an argument of every definition, which may depend on
  the whole history. The history of a run (calls with their answers) is its observable
  behaviour. The ledger reads a history as ownership of resources: every handle is acquired by the
  call that returns it, may be used only while it is held, and is given back once.
\<close>

section \<open>Calls and answers\<close>

datatype stream = Stdout | Stderr

text \<open>
  Pointers and file descriptors are integers, \<^verbatim>\<open>NULL\<close> is 0. The first pointer argument of a
  skeleton call is the skeleton. \<open>Poke\<close> is a store into a data section of the skeleton.
  \<open>Symbolize\<close> stands for a successful symbolization, whose result is to be freed. Destroying a
  traffic control hook is a use of it: for a hook on one side only it \<^verbatim>\<open>does NOT really remove the
  qdisc\<close> (\<^verbatim>\<open>tc.c\<close>), so nothing is given back.
\<close>

datatype acq_call =
    Skel_open | Skel_open_and_load | Ring_new int | Iter_create int | Socket_raw
  | Perf_event_open bool int int | Attach_perf_event int int | Symbolizer_new
  | Malloc nat | Calloc nat nat | Parse_cpu_mask string | Tc_hook_create | Tc_attach int
  | Symbolize

datatype rel_call =
    Skel_destroy int | Ring_free int | Close_fd int | Symbolizer_free int | Free_mem int
  | Link_destroy int | Tc_detach | Syms_free

datatype use_call =
    Skel_load int | Skel_attach int | Poke int string int | Map_update int int int
  | Ring_poll int int | Attach_uprobe int string int string bool | Attach_usdt int string int
  | Read_fd int nat | Bind_iface int string | Attach_socket int int | Tc_hook_destroy

datatype call =
    Acq acq_call | Rel rel_call | Op use_call
  | Set_print | Signal int | Printf stream string | Sleep nat | Time_now | Getpid
  | Stat_ns string | Num_possible_cpus | Setjmp_probe | Call_probe string int int

text \<open>
  An answer: the return value, \<^verbatim>\<open>errno\<close>, whether a handled SIGINT or SIGTERM arrived during
  the call, the value stored through an output pointer, and the data that came with it.
\<close>

record 'd resp =
  rv :: int
  rerrno :: int
  rsig :: bool
  rptr :: int
  rdata :: 'd

type_synonym 'd history = "(call \<times> 'd resp) list"
type_synonym 'd environment = "'d history \<Rightarrow> call \<Rightarrow> 'd resp"

record 'd world =
  hist :: "'d history"
  exiting :: bool

text \<open>The signal handlers of all programs do the same: they set the flag.\<close>

definition sig_handler :: "'d world \<Rightarrow> 'd world" where
  "sig_handler w = w\<lparr>exiting := True\<rparr>"

definition sys :: "'d environment \<Rightarrow> call \<Rightarrow> 'd world \<Rightarrow> 'd resp \<times> 'd world" where
  "sys env c w =
     (let r = env (hist w) c; w = w\<lparr>hist := hist w @ [(c, r)]\<rparr>
      in (r, if rsig r then sig_handler w else w))"

definition start_world :: "'d world" where
  "start_world = \<lparr>hist = [], exiting = False\<rparr>"

abbreviation (input) EINTR :: int where "EINTR \<equiv> 4"
abbreviation (input) EAGAIN :: int where "EAGAIN \<equiv> 11"
abbreviation (input) EEXIST :: int where "EEXIST \<equiv> 17"
abbreviation (input) ENOENT :: int where "ENOENT \<equiv> 2"
abbreviation (input) SIGINT :: int where "SIGINT \<equiv> 2"
abbreviation (input) SIGTERM :: int where "SIGTERM \<equiv> 15"
abbreviation (input) SIG_ERR :: int where "SIG_ERR \<equiv> - 1"

text \<open>Undefined behaviour ends a run; otherwise it ends with an exit status.\<close>

datatype ub = Overread | Uninitialised | Null_pointer | Signed_overflow | Null_string

type_synonym outcome = "ub + int"

lemma sys_hist: "hist (snd (sys env c w)) = hist w @ [(c, env (hist w) c)]"
  by (simp add: sys_def Let_def sig_handler_def)

lemma sys_answer: "fst (sys env c w) = env (hist w) c"
  by (simp add: sys_def Let_def)

lemma sys_exiting: "exiting (snd (sys env c w)) \<longleftrightarrow> exiting w \<or> rsig (env (hist w) c)"
  by (simp add: sys_def Let_def sig_handler_def)

section \<open>Output\<close>

definition output_of :: "stream \<Rightarrow> call \<Rightarrow> string" where
  "output_of f c = (case c of Printf g s \<Rightarrow> if f = g then s else [] | _ \<Rightarrow> [])"

definition printed :: "stream \<Rightarrow> 'd history \<Rightarrow> string" where
  "printed f h = concat (map (\<lambda>(c, r). output_of f c) h)"

lemma printed_append [simp]: "printed f (h @ h') = printed f h @ printed f h'"
  by (simp add: printed_def)

lemma output_of_simps [simp]:
  "output_of f (Printf g s) = (if f = g then s else [])"
  "output_of f (Acq a) = []" "output_of f (Rel b) = []" "output_of f (Op u) = []" "output_of f Set_print = []"
  "output_of f (Signal n) = []" "output_of f (Sleep k) = []" "output_of f Time_now = []" "output_of f Getpid = []"
  "output_of f (Stat_ns p) = []" "output_of f Num_possible_cpus = []" "output_of f Setjmp_probe = []"
  "output_of f (Call_probe p x y) = []"
  by (simp_all add: output_of_def)

lemma printed_sys [simp]:
  "printed f (hist (snd (sys env c w))) = printed f (hist w) @ output_of f c"
  by (simp add: sys_hist printed_def)

lemma printed_start [simp]: "printed f (hist start_world) = []"
  by (simp add: printed_def start_world_def)

section \<open>The ledger\<close>

datatype handle = H_skel int | H_ring int | H_fd int | H_sym int | H_mem int | H_link int | H_hook | H_filter | H_syms

definition non_null :: "(int \<Rightarrow> handle) \<Rightarrow> int \<Rightarrow> handle option" where
  "non_null f p = (if p = 0 then None else Some (f p))"

definition valid_fd :: "int \<Rightarrow> handle option" where
  "valid_fd n = (if n < 0 then None else Some (H_fd n))"

fun acq_handle :: "acq_call \<Rightarrow> 'd resp \<Rightarrow> handle option" where
  "acq_handle Skel_open r = non_null H_skel (rv r)"
| "acq_handle Skel_open_and_load r = non_null H_skel (rv r)"
| "acq_handle (Ring_new p) r = non_null H_ring (rv r)"
| "acq_handle (Iter_create p) r = valid_fd (rv r)"
| "acq_handle Socket_raw r = valid_fd (rv r)"
| "acq_handle (Perf_event_open sw freq cpu) r = valid_fd (rv r)"
| "acq_handle (Attach_perf_event p fd) r = non_null H_link (rv r)"
| "acq_handle Symbolizer_new r = non_null H_sym (rv r)"
| "acq_handle (Malloc n) r = non_null H_mem (rv r)"
| "acq_handle (Calloc n k) r = non_null H_mem (rv r)"
| "acq_handle (Parse_cpu_mask f) r = (if rv r = 0 then non_null H_mem (rptr r) else None)"
| "acq_handle Tc_hook_create r = (if rv r = 0 then Some H_hook else None)"
| "acq_handle (Tc_attach p) r = (if rv r = 0 then Some H_filter else None)"
| "acq_handle Symbolize r = Some H_syms"

fun acq_uses :: "acq_call \<Rightarrow> handle set" where
  "acq_uses (Ring_new p) = {H_skel p}"
| "acq_uses (Iter_create p) = {H_skel p}"
| "acq_uses (Attach_perf_event p n) = {H_skel p, H_fd n}"
| "acq_uses (Tc_attach p) = {H_skel p}"
| "acq_uses _ = {}"

fun rel_handle :: "rel_call \<Rightarrow> 'd resp \<Rightarrow> handle option" where
  "rel_handle (Skel_destroy p) r = non_null H_skel p"
| "rel_handle (Ring_free p) r = non_null H_ring p"
| "rel_handle (Close_fd n) r = valid_fd n"
| "rel_handle (Symbolizer_free p) r = non_null H_sym p"
| "rel_handle (Free_mem p) r = non_null H_mem p"
| "rel_handle (Link_destroy p) r = non_null H_link p"
| "rel_handle Tc_detach r = (if rv r = 0 then Some H_filter else None)"
| "rel_handle Syms_free r = Some H_syms"

fun op_uses :: "use_call \<Rightarrow> handle set" where
  "op_uses (Skel_load p) = {H_skel p}"
| "op_uses (Skel_attach p) = {H_skel p}"
| "op_uses (Poke p f v) = {H_skel p}"
| "op_uses (Map_update p k v) = {H_skel p}"
| "op_uses (Ring_poll p t) = {H_ring p}"
| "op_uses (Attach_uprobe p f n g b) = {H_skel p}"
| "op_uses (Attach_usdt p f n) = {H_skel p}"
| "op_uses (Read_fd n k) = {H_fd n}"
| "op_uses (Bind_iface n i) = {H_fd n}"
| "op_uses (Attach_socket n p) = {H_fd n, H_skel p}"
| "op_uses Tc_hook_destroy = {H_hook}"

definition give_back :: "handle option \<Rightarrow> handle list \<Rightarrow> handle list option" where
  "give_back x h = (case x of None \<Rightarrow> Some h | Some a \<Rightarrow> if a \<in> set h then Some (remove1 a h) else None)"

definition take_in :: "handle option \<Rightarrow> handle list \<Rightarrow> handle list" where
  "take_in x h = (case x of None \<Rightarrow> h | Some a \<Rightarrow> a # h)"

text \<open>One call: what it uses must be held; what it gives back leaves, what it returns enters.\<close>

definition ledger_step :: "call \<Rightarrow> 'd resp \<Rightarrow> handle list \<Rightarrow> handle list option" where
  "ledger_step c r h = (case c of
       Acq a \<Rightarrow> if acq_uses a \<subseteq> set h then Some (take_in (acq_handle a r) h) else None
     | Rel a \<Rightarrow> give_back (rel_handle a r) h
     | Op u \<Rightarrow> if op_uses u \<subseteq> set h then Some h else None
     | _ \<Rightarrow> Some h)"

fun ledger :: "'d history \<Rightarrow> handle list \<Rightarrow> handle list option" where
  "ledger [] h = Some h"
| "ledger ((c, r) # t) h = Option.bind (ledger_step c r h) (ledger t)"

definition holds :: "'d world \<Rightarrow> handle list option" where
  "holds w = ledger (hist w) []"

lemma ledger_append: "ledger (t @ u) h = Option.bind (ledger t h) (ledger u)"
  by (induction t h rule: ledger.induct) (auto split: Option.bind_splits)

lemma holds_start [simp]: "holds start_world = Some []"
  by (simp add: holds_def start_world_def)

lemma holds_sys: "holds (snd (sys env c w)) = Option.bind (holds w) (ledger_step c (fst (sys env c w)))"
  by (simp add: holds_def sys_hist sys_answer ledger_append cong: Option.bind_cong)

text \<open>
  The rules that carry the ownership proofs: each rewrites what is held after a call to what was
  held before it. The answer stays opaque, so a proof only splits on the tests the program makes.
\<close>

named_theorems owned

lemma holds_neutral [owned]:
  "holds (snd (sys env Set_print w)) = holds w"
  "holds (snd (sys env (Signal n) w)) = holds w"
  "holds (snd (sys env (Printf f s) w)) = holds w"
  "holds (snd (sys env (Sleep k) w)) = holds w"
  "holds (snd (sys env Time_now w)) = holds w"
  "holds (snd (sys env Getpid w)) = holds w"
  "holds (snd (sys env (Stat_ns s) w)) = holds w"
  "holds (snd (sys env Num_possible_cpus w)) = holds w"
  "holds (snd (sys env Setjmp_probe w)) = holds w"
  "holds (snd (sys env (Call_probe s a b) w)) = holds w"
  by (simp_all add: holds_sys ledger_step_def split: Option.bind_splits)

lemma holds_op [owned]:
  "holds w = Some h \<Longrightarrow> op_uses u \<subseteq> set h \<Longrightarrow> holds (snd (sys env (Op u) w)) = Some h"
  by (simp add: holds_sys ledger_step_def)

lemma holds_acq [owned]:
  "holds w = Some h \<Longrightarrow> acq_uses a \<subseteq> set h \<Longrightarrow>
   holds (snd (sys env (Acq a) w)) = Some (take_in (acq_handle a (fst (sys env (Acq a) w))) h)"
  by (simp add: holds_sys ledger_step_def)

lemma holds_rel [owned]:
  "holds w = Some h \<Longrightarrow>
   holds (snd (sys env (Rel a) w)) = give_back (rel_handle a (fst (sys env (Rel a) w))) h"
  by (simp add: holds_sys ledger_step_def)

lemmas [owned] = take_in_def give_back_def non_null_def valid_fd_def

section \<open>Programs that own nothing when they end\<close>

lemma ledger_prefix: "ledger t h = Some h' \<Longrightarrow> \<exists>k. ledger (take n t) h = Some k"
  using ledger_append [of "take n t" "drop n t" h] by (cases "ledger (take n t) h") auto

definition acquired :: "call \<times> 'd resp \<Rightarrow> handle option" where
  "acquired x = (case fst x of Acq a \<Rightarrow> acq_handle a (snd x) | _ \<Rightarrow> None)"

definition released :: "call \<times> 'd resp \<Rightarrow> handle option" where
  "released x = (case fst x of Rel a \<Rightarrow> rel_handle a (snd x) | _ \<Rightarrow> None)"

lemma count_list_remove1: "a \<in> set h \<Longrightarrow> count_list h x = count_list (remove1 a h) x + of_bool (a = x)"
  by (induction h) auto

lemma ledger_step_count:
  assumes "ledger_step c r h = Some h'"
  shows "count_list h' x + of_bool (released (c, r) = Some x) = count_list h x + of_bool (acquired (c, r) = Some x)"
  using assms
  by (auto simp: ledger_step_def acquired_def released_def take_in_def give_back_def
      dest: count_list_remove1 [of _ h x] split: call.splits if_splits option.splits)

lemma ledger_count:
  assumes "ledger t h = Some h'"
  shows "count_list h' x + length (filter (\<lambda>y. released y = Some x) t) =
         count_list h x + length (filter (\<lambda>y. acquired y = Some x) t)"
  using assms
proof (induction t arbitrary: h)
  case (Cons y t)
  obtain c r where y: "y = (c, r)" by (cases y)
  with Cons.prems obtain k where k: "ledger_step c r h = Some k" "ledger t k = Some h'"
    by (auto simp: Option.bind_eq_Some_conv)
  from ledger_step_count [OF k(1), of x] Cons.IH [OF k(2)] y show ?case
    by (cases "released (c, r) = Some x"; cases "acquired (c, r) = Some x") simp_all
qed simp

text \<open>
  The contracts of programs. Whenever an accountable program ends with an exit status, what it
  still holds is of a stated form. Using a handle that is not held (or \<^verbatim>\<open>NULL\<close>) would make
  the ledger undefined, so the contract also excludes use after release at every earlier point. A
  tidy program is one that holds nothing: every handle it was given has been given back.
\<close>

locale accountable_program =
  fixes prog :: "'d environment \<Rightarrow> (outcome \<times> 'd world) option" and allowed :: "handle list \<Rightarrow> bool"
  assumes held_allowed: "prog env = Some (Inr status, w) \<Longrightarrow> \<exists>h. holds w = Some h \<and> allowed h"
begin

lemma never_misused: "prog env = Some (Inr status, w) \<Longrightarrow> \<exists>k. ledger (take n (hist w)) [] = Some k"
  using ledger_prefix [of "hist w" "[]"] held_allowed by (fastforce simp: holds_def)

lemma left_over:
  assumes "prog env = Some (Inr status, w)"
  obtains h where "allowed h" and "\<And>x. count_list h x + length (filter (\<lambda>y. released y = Some x) (hist w)) =
    length (filter (\<lambda>y. acquired y = Some x) (hist w))"
  using held_allowed [OF assms] ledger_count [of "hist w" "[]"] by (fastforce simp: holds_def)

end

locale tidy_program =
  fixes prog :: "'d environment \<Rightarrow> (outcome \<times> 'd world) option"
  assumes nothing_held: "prog env = Some (Inr status, w) \<Longrightarrow> holds w = Some []"

sublocale tidy_program \<subseteq> accountable_program prog "\<lambda>h. h = []"
  by unfold_locales (simp add: nothing_held)

context tidy_program
begin

lemma released_as_often_as_acquired:
  "prog env = Some (Inr status, w) \<Longrightarrow>
   length (filter (\<lambda>y. released y = Some x) (hist w)) = length (filter (\<lambda>y. acquired y = Some x) (hist w))"
  using left_over [of env status w] by (metis count_list.simps(1) add_0)

end

section \<open>Progress\<close>

text \<open>
  A world extends another when the other is an earlier moment of the same run. An environment is
  signalled from the n-th call on when the user keeps pressing Ctrl-C from there.
\<close>

definition extends :: "'d world \<Rightarrow> 'd world \<Rightarrow> bool" where
  "extends w w' \<longleftrightarrow> (\<exists>t. hist w' = hist w @ t) \<and> (exiting w \<longrightarrow> exiting w')"

definition signalled_from :: "nat \<Rightarrow> 'd environment \<Rightarrow> bool" where
  "signalled_from n env \<longleftrightarrow> (\<forall>h c. n \<le> length h \<longrightarrow> rsig (env h c))"

lemma extends_refl [simp, intro]: "extends w w"
  by (simp add: extends_def)

lemma extends_trans: "extends u v \<Longrightarrow> extends v w \<Longrightarrow> extends u w"
  by (auto simp: extends_def)

lemma extends_sys: "extends w (snd (sys env c w))"
  by (simp add: extends_def sys_hist sys_exiting)

lemma extends_sysI [intro!]: "extends u w \<Longrightarrow> extends u (snd (sys env c w))"
  by (rule extends_trans [OF _ extends_sys])

lemma extends_length: "extends w w' \<Longrightarrow> length (hist w) \<le> length (hist w')"
  by (auto simp: extends_def)

lemma signalled_sys:
  "signalled_from n env \<Longrightarrow> n \<le> length (hist w) \<Longrightarrow> exiting (snd (sys env c w))"
  by (simp add: signalled_from_def sys_exiting)

text \<open>
  The loop rules. A loop that makes a call each time round and returns once the run is long enough
  returns. A loop that returns at once when the flag is set, and otherwise makes a call and either
  returns or goes round again, returns in a signalled environment.
\<close>

lemma progress_loop:
  assumes late: "\<And>x w. n \<le> length (hist w) \<Longrightarrow> loop x w \<noteq> None"
    and round: "\<And>x w. loop x w \<noteq> None \<or>
      (\<exists>c x' w'. extends (snd (sys env c w)) w' \<and> loop x w = loop x' w')"
  shows "loop x w \<noteq> None"
proof (induction "n - length (hist w)" arbitrary: x w rule: less_induct)
  case less
  show ?case
  proof (cases "n \<le> length (hist w)")
    case False
    from round [of x w] consider "loop x w \<noteq> None" |
      c x' w' where "extends (snd (sys env c w)) w'" "loop x w = loop x' w'" by blast
    then show ?thesis
    proof cases
      case 2
      have "length (hist w) < length (hist w')"
        using extends_length [OF 2(1)] by (simp add: sys_hist)
      with False show ?thesis using less [of w' x'] 2(2) by simp
    qed simp
  qed (rule late)
qed

lemma signalled_loop:
  fixes loop :: "'b \<Rightarrow> 'a world \<Rightarrow> 'c option"
  assumes sig: "signalled_from n env"
    and stop: "\<And>x w. exiting w \<Longrightarrow> loop x w \<noteq> None"
    and round: "\<And>x w. \<not> exiting w \<Longrightarrow> loop x w \<noteq> None \<or>
      (\<exists>c x' w'. extends (snd (sys env c w)) w' \<and> loop x w = loop x' w')"
  shows "loop x w \<noteq> None"
proof (rule progress_loop [where loop = loop and n = n and env = env])
  fix x and w :: "'a world" assume n: "n \<le> length (hist w)"
  show "loop x w \<noteq> None"
  proof (cases "exiting w")
    case False
    from round [OF this, of x] show ?thesis
    proof
      assume "\<exists>c x' w'. extends (snd (sys env c w)) w' \<and> loop x w = loop x' w'"
      then obtain c x' w' where "extends (snd (sys env c w)) w'" and l: "loop x w = loop x' w'" by blast
      with signalled_sys [OF sig n] have "exiting w'" by (auto simp: extends_def)
      with l show ?thesis using stop by simp
    qed
  qed (rule stop)
qed (use stop round in blast)

section \<open>Shared pieces of the C library and of libbpf's calling conventions\<close>

text \<open>The ring buffer manager hands the records of one poll to the callback, one by one.\<close>

fun deliver :: "('e \<Rightarrow> 'd world \<Rightarrow> outcome \<times> 'd world) \<Rightarrow> 'e list \<Rightarrow> 'd world \<Rightarrow> outcome \<times> 'd world" where
  "deliver cb [] w = (Inr 0, w)"
| "deliver cb (e # es) w = (case cb e w of (Inl u, w) \<Rightarrow> (Inl u, w) | (Inr _, w) \<Rightarrow> deliver cb es w)"

lemma deliver_keeps:
  assumes "\<And>e w. f (snd (cb e w)) = f w"
  shows "f (snd (deliver cb es w)) = f w"
proof (induction es arbitrary: w)
  case (Cons e es)
  obtain d w' where "cb e w = (d, w')" by (cases "cb e w")
  moreover with assms [of e w] have "f w' = f w" by simp
  ultimately show ?case using Cons.IH by (cases d) auto
qed simp

lemmas holds_deliver = deliver_keeps [where f = holds]

lemma extends_deliver:
  assumes "\<And>e w. extends w (snd (cb e w))"
  shows "extends w (snd (deliver cb es w))"
proof (induction es arbitrary: w)
  case (Cons e es)
  obtain d w' where "cb e w = (d, w')" by (cases "cb e w")
  moreover with assms [of w e] have "extends w w'" by simp
  ultimately show ?case using Cons.IH [of w'] by (cases d) (auto intro: extends_trans)
qed simp

lemma deliver_prints:
  assumes "\<And>e w. e \<in> set es \<Longrightarrow> fst (cb e w) = Inr 0 \<and>
      printed Stdout (hist (snd (cb e w))) = printed Stdout (hist w) @ line e"
  shows "fst (deliver cb es w) = Inr 0 \<and>
    printed Stdout (hist (snd (deliver cb es w))) = printed Stdout (hist w) @ concat (map line es)"
  using assms
proof (induction es arbitrary: w)
  case (Cons e es)
  obtain d w' where cb: "cb e w = (d, w')" by (cases "cb e w")
  with Cons.prems [of e w] have "d = Inr 0" "printed Stdout (hist w') = printed Stdout (hist w) @ line e" by auto
  with Cons.IH [of w'] Cons.prems show ?case by (simp add: cb)
qed simp

lemma deliver_safe:
  assumes "\<And>e w. e \<in> set es \<Longrightarrow> \<exists>n. fst (cb e w) = Inr n"
  shows "fst (deliver cb es w) = Inr 0"
  using assms
proof (induction es arbitrary: w)
  case (Cons e es)
  obtain d w' where "cb e w = (d, w')" by (cases "cb e w")
  with Cons.prems [of e w] Cons show ?case by auto
qed simp

text \<open>
  Delivery to a callback that prints a text for each record or, for some records, has undefined
  behaviour before it prints anything: everything before the first such record is printed.
\<close>

lemma deliver_outputs:
  assumes "\<And>e w. e \<in> set es \<Longrightarrow> (case out e of
      None \<Rightarrow> fst (cb e w) = Inl u \<and> printed Stdout (hist (snd (cb e w))) = printed Stdout (hist w)
    | Some s \<Rightarrow> fst (cb e w) = Inr 0 \<and> printed Stdout (hist (snd (cb e w))) = printed Stdout (hist w) @ s)"
  shows "fst (deliver cb es w) = (if None \<in> set (map out es) then Inl u else Inr 0) \<and>
    printed Stdout (hist (snd (deliver cb es w))) =
    printed Stdout (hist w) @ concat (map the (takeWhile (\<lambda>x. x \<noteq> None) (map out es)))"
  using assms
proof (induction es arbitrary: w)
  case (Cons e es)
  obtain d w' where cb: "cb e w = (d, w')" by (cases "cb e w")
  show ?case
  proof (cases "out e")
    case None
    with Cons.prems [of e w] cb show ?thesis by simp
  next
    case (Some s)
    with Cons.prems [of e w] cb have "d = Inr 0" "printed Stdout (hist w') = printed Stdout (hist w) @ s" by simp_all
    with Cons.IH [of w'] Cons.prems Some show ?thesis by (simp add: cb)
  qed
qed simp

text \<open>
  A parser callback of \<^verbatim>\<open>argp\<close> returns an error code or calls \<^verbatim>\<open>argp_usage\<close>, which prints a
  usage message and ends the process. Which keys \<^verbatim>\<open>argp_parse\<close> finds in the arguments is its own
  business: the list of keys is an argument here. It stops at the first error other than
  \<^verbatim>\<open>ARGP_ERR_UNKNOWN\<close>.
\<close>

datatype 'c parse_result = Parsed int 'c | Usage_exit string

abbreviation (input) ARGP_KEY_ARG :: int where "ARGP_KEY_ARG \<equiv> 0"
abbreviation (input) ARGP_ERR_UNKNOWN :: int where "ARGP_ERR_UNKNOWN \<equiv> 7"

fun argp_parse :: "(int \<Rightarrow> string \<Rightarrow> 'c \<Rightarrow> 'c parse_result) \<Rightarrow> (int \<times> string) list \<Rightarrow> 'c \<Rightarrow> 'c parse_result" where
  "argp_parse p [] e = Parsed 0 e"
| "argp_parse p ((k, a) # ks) e =
     (case p k a e of
        Usage_exit m \<Rightarrow> Usage_exit m
      | Parsed c e' \<Rightarrow> if c = 0 \<or> c = ARGP_ERR_UNKNOWN then argp_parse p ks e' else Parsed c e')"

text \<open>An environment that answers by a table, for concrete runs.\<close>

definition scripted :: "(call \<Rightarrow> int) \<Rightarrow> 'd \<Rightarrow> 'd environment" where
  "scripted f d = (\<lambda>h c. \<lparr>rv = f c, rerrno = 0, rsig = False, rptr = 9, rdata = d\<rparr>)"

definition scripted_signal :: "(call \<Rightarrow> int) \<Rightarrow> (call \<Rightarrow> bool) \<Rightarrow> 'd \<Rightarrow> 'd environment" where
  "scripted_signal f sg d = (\<lambda>h c. \<lparr>rv = f c, rerrno = 0, rsig = sg c, rptr = 9, rdata = d\<rparr>)"

definition ctrl_c :: "(call \<Rightarrow> int) \<Rightarrow> 'd \<Rightarrow> nat \<Rightarrow> 'd environment" where
  "ctrl_c f d n = (\<lambda>h c. \<lparr>rv = f c, rerrno = 0, rsig = n \<le> length h, rptr = 9, rdata = d\<rparr>)"

lemma signalled_ctrl_c: "signalled_from n (ctrl_c f d n)"
  by (simp add: signalled_from_def ctrl_c_def)

datatype libbpf_print_level = LIBBPF_WARN | LIBBPF_INFO | LIBBPF_DEBUG

section \<open>Loops that trigger and wait\<close>

text \<open>
  Most programs end in a loop that makes the same calls over and over: until a signal arrives (not
  returning is the value \<^term>\<open>None\<close>), or for ever.
\<close>

definition do_calls :: "'d environment \<Rightarrow> call list \<Rightarrow> 'd world \<Rightarrow> 'd world" where
  "do_calls env cs w = fold (\<lambda>c w. snd (sys env c w)) cs w"

partial_function (option) wait_loop :: "'d environment \<Rightarrow> call list \<Rightarrow> 'd world \<Rightarrow> 'd world option" where
  "wait_loop env cs w = (if exiting w then Some w else wait_loop env cs (do_calls env cs w))"

text \<open>
  A program with an endless loop either ends before the loop, or it runs: then its meaning is the
  sequence of the worlds after 0, 1, 2, ... rounds of the loop.
\<close>

primrec rounds :: "'d environment \<Rightarrow> call list \<Rightarrow> nat \<Rightarrow> 'd world \<Rightarrow> 'd world" where
  "rounds env cs 0 w = w"
| "rounds env cs (Suc n) w = do_calls env cs (rounds env cs n w)"

datatype 'd life = Ended "outcome \<times> 'd world" | Running "nat \<Rightarrow> 'd world"

definition forever_loop :: "'d environment \<Rightarrow> call list \<Rightarrow> 'd world \<Rightarrow> 'd life" where
  "forever_loop env cs w = Running (\<lambda>n. rounds env cs n w)"

definition result :: "'d life \<Rightarrow> (outcome \<times> 'd world) option" where
  "result l = (case l of Ended r \<Rightarrow> Some r | Running f \<Rightarrow> None)"

lemma result_simps [simp]: "result (Ended r) = Some r" "result (Running f) = None" "result (forever_loop env cs w) = None"
  by (simp_all add: result_def forever_loop_def)

definition neutral :: "call \<Rightarrow> bool" where
  "neutral c = (case c of Acq a \<Rightarrow> False | Rel r \<Rightarrow> False | Op u \<Rightarrow> False | _ \<Rightarrow> True)"

lemma neutral_simps [simp]:
  "neutral (Printf f s)" "neutral (Sleep k)" "neutral Setjmp_probe" "neutral (Call_probe p a b)"
  by (simp_all add: neutral_def)

lemma holds_neutral_call: "neutral c \<Longrightarrow> holds (snd (sys env c w)) = holds w"
  by (cases c) (simp_all add: neutral_def owned)

lemma holds_do_calls: "list_all neutral cs \<Longrightarrow> holds (do_calls env cs w) = holds w"
  by (induction cs arbitrary: w) (simp_all add: do_calls_def holds_neutral_call)

lemma extends_do_calls: "extends w (do_calls env cs w)"
proof (induction cs arbitrary: w)
  case (Cons c cs)
  then show ?case using extends_trans [OF extends_sys [of w env c]] by (simp add: do_calls_def)
qed (simp add: do_calls_def)

lemma extends_do_calls_Cons: "extends (snd (sys env c w)) (do_calls env (c # cs) w)"
  using extends_do_calls [of "snd (sys env c w)" env cs] by (simp add: do_calls_def)

lemma wait_loop_holds:
  assumes "wait_loop env cs w = Some w'" and "list_all neutral cs"
  shows "holds w' = holds w"
proof -
  have "list_all neutral cs \<longrightarrow> holds w' = holds w"
  proof (rule wait_loop.raw_induct [where P = "\<lambda>env cs w w'. list_all neutral cs \<longrightarrow> holds w' = holds w",
      OF _ assms(1)], goal_cases)
    case (1 f env cs w w')
    then show ?case by (auto simp: holds_do_calls split: if_splits)
  qed
  with assms(2) show ?thesis by simp
qed

lemma wait_loop_returns:
  fixes env :: "'a environment"
  assumes "signalled_from n env" and "cs \<noteq> []"
  shows "wait_loop env cs w \<noteq> None"
proof (rule signalled_loop [where loop = "\<lambda>_ :: unit. wait_loop env cs", OF assms(1)])
  show "wait_loop env cs w \<noteq> None" if "exiting w" for w
    using that by (subst wait_loop.simps) simp
next
  fix w :: "'a world" assume "\<not> exiting w"
  then have "wait_loop env cs w = wait_loop env cs (do_calls env cs w)"
    by (subst wait_loop.simps) simp
  moreover obtain c cs' where "cs = c # cs'" using assms(2) by (cases cs) auto
  ultimately show "wait_loop env cs w \<noteq> None \<or>
      (\<exists>c (x' :: unit) w'. extends (snd (sys env c w)) w' \<and> wait_loop env cs w = wait_loop env cs w')"
    using extends_do_calls_Cons by blast
qed

lemma printed_do_calls: "printed f (hist (do_calls env cs w)) = printed f (hist w) @ concat (map (output_of f) cs)"
  by (induction cs arbitrary: w) (simp_all add: do_calls_def)

lemma printed_rounds:
  "printed f (hist (rounds env cs n w)) = printed f (hist w) @ concat (replicate n (concat (map (output_of f) cs)))"
  by (induction n) (simp_all add: printed_do_calls flip: replicate_append_same)

lemma holds_rounds: "list_all neutral cs \<Longrightarrow> holds (rounds env cs n w) = holds w"
  by (induction n) (simp_all add: holds_do_calls)

end
