(* ===== verification/Bootstrap.thy ===== *)
theory Bootstrap
  imports Bootstrap_Bpf User_World
begin

text \<open>
  The user-space half of \<^verbatim>\<open>bootstrap\<close>, \<^verbatim>\<open>bootstrap.c\<close>: option parsing, the
  callback that prints events, and \<^verbatim>\<open>main\<close>.
\<close>

section \<open>Options\<close>

record env_bootstrap =
  verbose :: bool
  min_duration_ms :: int

definition parse_arg_bootstrap :: "int \<Rightarrow> string \<Rightarrow> env_bootstrap \<Rightarrow> env_bootstrap parse_result" where
  "parse_arg_bootstrap key arg e =
     (if key = of_char (CHR ''v'') then Parsed 0 (e\<lparr>verbose := True\<rparr>)
      else if key = of_char (CHR ''d'') then
        (let (n, erange) = strtol10 arg; e = e\<lparr>min_duration_ms := n\<rparr>
         in if erange \<or> n \<le> 0 then Usage_exit (''Invalid duration: '' @ arg @ [CHR 0x0A]) else Parsed 0 e)
      else if key = ARGP_KEY_ARG then Usage_exit []
      else Parsed ARGP_ERR_UNKNOWN e)"

section \<open>Logging\<close>

definition libbpf_print_fn_bootstrap ::
  "'d environment \<Rightarrow> env_bootstrap \<Rightarrow> libbpf_print_level \<Rightarrow> string \<Rightarrow> 'd world \<Rightarrow> int \<times> 'd world" where
  "libbpf_print_fn_bootstrap env e level msg w =
     (if level = LIBBPF_DEBUG \<and> \<not> verbose e then (0, w)
      else let (r, w) = sys env (Printf Stderr msg) w in (rv r, w))"

section \<open>Printing events\<close>

record tm =
  tm_hour :: nat
  tm_min :: nat
  tm_sec :: nat

definition strftime_hms :: "tm \<Rightarrow> string" where
  "strftime_hms t = zero_pad 2 (dec (tm_hour t)) @ '':'' @ zero_pad 2 (dec (tm_min t)) @ '':'' @ zero_pad 2 (dec (tm_sec t))"

definition event_columns :: "string \<Rightarrow> string \<Rightarrow> string \<Rightarrow> string \<Rightarrow> string \<Rightarrow> string" where
  "event_columns ts kind comm pid ppid =
     pad_right 8 ts @ '' '' @ pad_right 5 kind @ '' '' @ pad_right 16 comm @ '' '' @
     pad_right 7 pid @ '' '' @ pad_right 7 ppid @ '' ''"

definition handle_event_bootstrap ::
  "'d environment \<Rightarrow> (int \<Rightarrow> tm) \<Rightarrow> event \<Rightarrow> 'd world \<Rightarrow> outcome \<times> 'd world" where
  "handle_event_bootstrap env localtime e w =
     (let (t, w) = sys env Time_now w;
          ts = strftime_hms (localtime (rv t));
          cols = (\<lambda>kind comm. event_columns ts kind comm (dec_int (sint (e_pid e))) (dec_int (sint (e_ppid e))))
      in if e_exit_event e then
           (case c_str (e_comm e) of
              None \<Rightarrow> (Inl Overread, w)
            | Some comm \<Rightarrow>
              let (_, w) = sys env (Printf Stdout (cols ''EXIT'' comm @ ''['' @ dec (unat (e_exit_code e)) @ '']'')) w;
                  w = (if e_duration_ns e \<noteq> 0
                       then snd (sys env (Printf Stdout ('' ('' @ dec (unat (e_duration_ns e div 1000000)) @ ''ms)'')) w)
                       else w);
                  (_, w) = sys env (Printf Stdout [CHR 0x0A]) w
              in (Inr 0, w))
         else
           (case (c_str (e_comm e), c_str (e_filename e)) of
              (Some comm, Some filename) \<Rightarrow>
                let (_, w) = sys env (Printf Stdout (cols ''EXEC'' comm @ filename @ [CHR 0x0A])) w in (Inr 0, w)
            | _ \<Rightarrow> (Inl Overread, w)))"

section \<open>main\<close>

partial_function (option) poll_bootstrap ::
  "event list environment \<Rightarrow> (int \<Rightarrow> tm) \<Rightarrow> int \<Rightarrow> int \<Rightarrow> event list world \<Rightarrow> (outcome \<times> event list world) option" where
  "poll_bootstrap env localtime ring err w =
     (if exiting w then Some (Inr err, w)
      else
        let (r, w) = sys env (Op (Ring_poll ring 100)) w;
            (d, w) = deliver (handle_event_bootstrap env localtime) (rdata r) w;
            err = rv r
        in case d of
             Inl u \<Rightarrow> Some (Inl u, w)
           | Inr _ \<Rightarrow>
             if err = - EINTR then Some (Inr 0, w)
             else if err < 0 then
               (let (_, w) = sys env (Printf Stdout (''Error polling perf buffer: '' @ dec_int err @ [CHR 0x0A])) w
                in Some (Inr err, w))
             else poll_bootstrap env localtime ring err w)"

definition cleanup_bootstrap ::
  "'d environment \<Rightarrow> int \<Rightarrow> int \<Rightarrow> int \<Rightarrow> 'd world \<Rightarrow> outcome \<times> 'd world" where
  "cleanup_bootstrap env ring skel err w =
     (let (_, w) = sys env (Rel (Ring_free ring)) w;
          (_, w) = sys env (Rel (Skel_destroy skel)) w
      in (Inr (if err < 0 then - err else 0), w))"

definition run_bootstrap ::
  "event list environment \<Rightarrow> (int \<Rightarrow> tm) \<Rightarrow> int \<Rightarrow> int \<Rightarrow> int \<Rightarrow> event list world \<Rightarrow>
   (outcome \<times> event list world) option" where
  "run_bootstrap env localtime ring skel err w =
     Option.bind (poll_bootstrap env localtime ring err w) (\<lambda>(d, w).
       case d of Inl u \<Rightarrow> Some (Inl u, w) | Inr err \<Rightarrow> Some (cleanup_bootstrap env ring skel err w))"

definition min_duration_ns_of :: "env_bootstrap \<Rightarrow> u64" where
  "min_duration_ns_of e = word_of_int (min_duration_ms e) * 1000000"

definition main_bootstrap ::
  "event list environment \<Rightarrow> (int \<Rightarrow> tm) \<Rightarrow> (int \<times> string) list \<Rightarrow> (outcome \<times> event list world) option" where
  "main_bootstrap env localtime argv =
     (let w = start_world in
      case argp_parse parse_arg_bootstrap argv \<lparr>verbose = False, min_duration_ms = 0\<rparr> of
        Usage_exit m \<Rightarrow> Some (Inr 64, snd (sys env (Printf Stderr m) w))
      | Parsed err e \<Rightarrow>
        if err \<noteq> 0 then Some (Inr err, w)
        else
          let (_, w) = sys env Set_print w;
              (_, w) = sys env (Signal SIGINT) w;
              (_, w) = sys env (Signal SIGTERM) w;
              (r, w) = sys env (Acq Skel_open) w;
              skel = rv r
          in if skel = 0 then
               (let (_, w) = sys env (Printf Stderr (''Failed to open and load BPF skeleton'' @ [CHR 0x0A])) w
                in Some (Inr 1, w))
             else
               let (_, w) = sys env (Op (Poke skel ''min_duration_ns'' (uint (min_duration_ns_of e)))) w;
                   (r, w) = sys env (Op (Skel_load skel)) w;
                   err = rv r
               in if err \<noteq> 0 then
                    (let (_, w) = sys env (Printf Stderr (''Failed to load and verify BPF skeleton'' @ [CHR 0x0A])) w
                     in Some (cleanup_bootstrap env 0 skel err w))
                  else
                    let (r, w) = sys env (Op (Skel_attach skel)) w;
                        err = rv r
                    in if err \<noteq> 0 then
                         (let (_, w) = sys env (Printf Stderr (''Failed to attach BPF skeleton'' @ [CHR 0x0A])) w
                          in Some (cleanup_bootstrap env 0 skel err w))
                       else
                         let (r, w) = sys env (Acq (Ring_new skel)) w;
                             ring = rv r
                         in if ring = 0 then
                              (let (_, w) = sys env (Printf Stderr (''Failed to create ring buffer'' @ [CHR 0x0A])) w
                               in Some (cleanup_bootstrap env ring skel (- 1) w))
                            else
                              let (_, w) = sys env (Printf Stdout
                                    (event_columns ''TIME'' ''EVENT'' ''COMM'' ''PID'' ''PPID'' @ ''FILENAME/EXIT CODE'' @ [CHR 0x0A])) w
                              in run_bootstrap env localtime ring skel err w)"

section \<open>What the callback prints\<close>

text \<open>The line for a report; \<^term>\<open>None\<close> where a string in it is not terminated.\<close>

fun report_line :: "string \<Rightarrow> report \<Rightarrow> string option" where
  "report_line ts (Exec_report pid ppid comm fname) =
     (case (c_str comm, fname) of
        (Some c, Some f) \<Rightarrow>
          Some (event_columns ts ''EXEC'' c (dec_int (sint pid)) (dec_int (sint ppid)) @ f @ [CHR 0x0A])
      | _ \<Rightarrow> None)"
| "report_line ts (Exit_report pid ppid code dur comm) =
     (case c_str comm of
        Some c \<Rightarrow>
          Some (event_columns ts ''EXIT'' c (dec_int (sint pid)) (dec_int (sint ppid)) @
            ''['' @ dec (unat code) @ '']'' @
            (if dur = 0 then [] else '' ('' @ dec (unat dur div 1000000) @ ''ms)'') @ [CHR 0x0A])
      | None \<Rightarrow> None)"

lemma handle_event_report:
  "case report_line (strftime_hms (lt (rv (env (hist w) Time_now)))) (report_of e) of
     None \<Rightarrow> fst (handle_event_bootstrap env lt e w) = Inl Overread
   | Some line \<Rightarrow> fst (handle_event_bootstrap env lt e w) = Inr 0 \<and>
       printed Stdout (hist (snd (handle_event_bootstrap env lt e w))) = printed Stdout (hist w) @ line"
  by (auto simp: handle_event_bootstrap_def report_of_def Let_def case_prod_beta sys_answer unat_div
      split: option.splits)

lemma holds_handle_event_bootstrap [owned]:
  "holds (snd (handle_event_bootstrap env lt e w)) = holds w"
  by (auto simp: handle_event_bootstrap_def Let_def case_prod_beta owned split: option.splits)

lemma extends_handle_event_bootstrap: "extends w (snd (handle_event_bootstrap env lt e w))"
  by (auto simp: handle_event_bootstrap_def Let_def case_prod_beta split: option.splits)

section \<open>Resources and termination of main\<close>

lemma poll_bootstrap_holds:
  assumes "poll_bootstrap env lt ring err w = Some (d, w')"
    and "holds w = Some h" and "H_ring ring \<in> set h"
  shows "holds w' = Some h"
proof -
  have "holds w = Some h \<longrightarrow> H_ring ring \<in> set h \<longrightarrow> holds (snd (d, w')) = Some h"
  proof (rule poll_bootstrap.raw_induct [where P = "\<lambda>env lt ring err w r. holds w = Some h \<longrightarrow>
      H_ring ring \<in> set h \<longrightarrow> holds (snd r) = Some h", OF _ assms(1)], goal_cases)
    case (1 f env lt ring err w r)
    then show ?case
      by (auto simp: Let_def case_prod_beta holds_deliver owned split: if_splits sum.splits)
  qed
  with assms show ?thesis by simp
qed

lemma run_bootstrap_tidy:
  assumes "run_bootstrap env lt ring skel err w = Some (Inr status, w')"
    and "holds w = Some [H_ring ring, H_skel skel]" and "ring \<noteq> 0" and "skel \<noteq> 0"
  shows "holds w' = Some []"
proof -
  from assms(1) obtain d v where p: "poll_bootstrap env lt ring err w = Some (d, v)"
    and w': "(case d of Inl u \<Rightarrow> Some (Inl u, v) | Inr err \<Rightarrow> Some (cleanup_bootstrap env ring skel err v)) = Some (Inr status, w')"
    by (auto simp: run_bootstrap_def Option.bind_eq_Some_conv)
  have "holds v = Some [H_ring ring, H_skel skel]"
    using p assms(2) by (rule poll_bootstrap_holds) simp
  with w' assms(3,4) show ?thesis
    by (auto simp: cleanup_bootstrap_def Let_def case_prod_beta owned split: sum.splits)
qed

interpretation bootstrap: tidy_program "\<lambda>env. main_bootstrap env localtime argv" for localtime argv
proof unfold_locales
  fix env status w
  assume "main_bootstrap env localtime argv = Some (Inr status, w)"
  then show "holds w = Some []"
    by (auto simp: main_bootstrap_def cleanup_bootstrap_def Let_def case_prod_beta owned
        elim!: run_bootstrap_tidy split: if_splits parse_result.splits)
qed

lemma poll_bootstrap_returns:
  assumes "signalled_from n env"
  shows "poll_bootstrap env lt ring err w \<noteq> None"
proof (rule signalled_loop [OF assms, where loop = "poll_bootstrap env lt ring"])
  show "poll_bootstrap env lt ring x w \<noteq> None" if "exiting w" for x w
    using that by (subst poll_bootstrap.simps) simp
next
  fix x and w :: "event list world" assume ne: "\<not> exiting w"
  let ?w = "snd (sys env (Op (Ring_poll ring 100)) w)"
  let ?r = "fst (sys env (Op (Ring_poll ring 100)) w)"
  let ?d = "deliver (handle_event_bootstrap env lt) (rdata ?r) ?w"
  have "extends ?w (snd ?d)"
    by (rule extends_deliver) (rule extends_handle_event_bootstrap)
  moreover have "poll_bootstrap env lt ring x w \<noteq> None \<or>
      poll_bootstrap env lt ring x w = poll_bootstrap env lt ring (rv ?r) (snd ?d)"
    using ne poll_bootstrap.simps [of env lt ring x w]
    by (auto simp: Let_def case_prod_beta split: sum.splits)
  ultimately show "poll_bootstrap env lt ring x w \<noteq> None \<or>
      (\<exists>c x' w'. extends (snd (sys env c w)) w' \<and> poll_bootstrap env lt ring x w = poll_bootstrap env lt ring x' w')"
    by blast
qed

text \<open>
  The callback reads past the end of an array only when a string in a record is not terminated.
\<close>

definition event_terminated :: "event \<Rightarrow> bool" where
  "event_terminated e \<longleftrightarrow> c_str (e_comm e) \<noteq> None \<and> (e_exit_event e \<or> c_str (e_filename e) \<noteq> None)"

definition terminated_polls :: "event list environment \<Rightarrow> bool" where
  "terminated_polls env \<longleftrightarrow> (\<forall>h c. list_all event_terminated (rdata (env h c)))"

lemma handle_event_terminated:
  "event_terminated e \<Longrightarrow> fst (handle_event_bootstrap env lt e w) = Inr 0"
  by (auto simp: event_terminated_def handle_event_bootstrap_def Let_def case_prod_beta)

lemma poll_bootstrap_normal:
  assumes "poll_bootstrap env lt ring err w = Some (d, w')" and "terminated_polls env"
  shows "\<exists>n. d = Inr n"
proof -
  have "terminated_polls env \<longrightarrow> (\<exists>n. fst (d, w') = Inr n)"
  proof (rule poll_bootstrap.raw_induct [where P = "\<lambda>env lt ring err w r. terminated_polls env \<longrightarrow> (\<exists>n. fst r = Inr n)",
      OF _ assms(1)], goal_cases)
    case (1 f env lt ring err w r)
    have "fst (deliver (handle_event_bootstrap env lt) (rdata (fst (sys env c v))) u) = Inr 0"
      if "terminated_polls env" for c v u
      using that by (intro deliver_safe) (auto simp: terminated_polls_def sys_answer list_all_iff handle_event_terminated)
    with 1 show ?case by (cases r) (auto simp: Let_def case_prod_beta split: if_splits)
  qed
  with assms(2) show ?thesis by simp
qed

lemma cleanup_bootstrap_normal [simp]: "\<exists>s w'. cleanup_bootstrap env ring skel err w = (Inr s, w')"
  by (simp add: cleanup_bootstrap_def Let_def case_prod_beta)

lemma run_bootstrap_ends:
  assumes "signalled_from n env" and "terminated_polls env"
  shows "\<exists>s w'. run_bootstrap env lt ring skel err w = Some (Inr s, w')"
proof -
  obtain d v where "poll_bootstrap env lt ring err w = Some (d, v)"
    using poll_bootstrap_returns [OF assms(1), of lt ring err w] by auto
  with poll_bootstrap_normal [OF this assms(2)] show ?thesis by (auto simp: run_bootstrap_def)
qed

section \<open>Properties\<close>

text \<open>
  C10. For every environment and every command line, when \<^verbatim>\<open>main\<close> returns it has destroyed the
  skeleton and freed the ring buffer manager exactly as often as it created them, on the error
  paths as well as on the normal one, and at no point before did it use a handle that it did not
  hold (a \<^verbatim>\<open>NULL\<close> skeleton, a freed manager).
\<close>

theorem main_bootstrap_tidy:
  assumes "main_bootstrap env localtime argv = Some (Inr status, w)"
  shows "holds w = Some [] \<and> (\<forall>n. ledger (take n (hist w)) [] \<noteq> None)"
  using bootstrap.nothing_held [OF assms] bootstrap.never_misused [OF assms] by auto

definition demo_answer :: "call \<Rightarrow> int" where
  "demo_answer c = (case c of Acq Skel_open \<Rightarrow> 1 | Acq (Ring_new p) \<Rightarrow> 2 | Op (Ring_poll p t) \<Rightarrow> - EINTR | _ \<Rightarrow> 0)"

lemma main_bootstrap_demo:
  "case main_bootstrap (scripted demo_answer []) (\<lambda>_. \<lparr>tm_hour = 1, tm_min = 2, tm_sec = 3\<rparr>) [] of
     Some (Inr s, w) \<Rightarrow> s = 0 | _ \<Rightarrow> False"
  by (simp add: main_bootstrap_def run_bootstrap_def cleanup_bootstrap_def Let_def case_prod_beta
      sys_def scripted_def demo_answer_def poll_bootstrap.simps start_world_def sig_handler_def)

theorem main_bootstrap_tidy_witness:
  "\<exists>w. main_bootstrap (scripted demo_answer []) (\<lambda>_. \<lparr>tm_hour = 1, tm_min = 2, tm_sec = 3\<rparr>) [] = Some (Inr 0, w)
     \<and> holds w = Some [] \<and> (\<forall>n. ledger (take n (hist w)) [] \<noteq> None)"
  using main_bootstrap_demo
    main_bootstrap_tidy [of "scripted demo_answer []" "\<lambda>_. \<lparr>tm_hour = 1, tm_min = 2, tm_sec = 3\<rparr>" "[]" 0]
  by (auto split: option.splits sum.splits)

text \<open>
  C25. If Ctrl-C is pressed from some point on and the strings in the records that arrive are
  terminated (as those of the kernel half are), \<^verbatim>\<open>main\<close> returns an exit status, and then holds neither
  skeleton nor ring buffer manager; everything else libbpf and the kernel answer is arbitrary.
\<close>

theorem main_bootstrap_returns:
  assumes "signalled_from n env" and "terminated_polls env"
  shows "\<exists>status w. main_bootstrap env localtime argv = Some (Inr status, w) \<and> holds w = Some []"
proof -
  have "\<exists>status w. main_bootstrap env localtime argv = Some (Inr status, w)"
    by (simp add: main_bootstrap_def Let_def case_prod_beta run_bootstrap_ends [OF assms] split: parse_result.split)
  then show ?thesis using bootstrap.nothing_held by blast
qed

theorem main_bootstrap_returns_witness:
  "\<exists>status w. main_bootstrap (ctrl_c (\<lambda>_. 1) [] 20) (\<lambda>_. \<lparr>tm_hour = 1, tm_min = 2, tm_sec = 3\<rparr>) [] =
     Some (Inr status, w) \<and> holds w = Some []"
  by (rule main_bootstrap_returns [OF signalled_ctrl_c]) (simp add: terminated_polls_def ctrl_c_def)

text \<open>
  C26. The option \<^verbatim>\<open>-d N\<close> with a decimal N between 1 and the largest \<^verbatim>\<open>long\<close> is accepted and
  sets the minimum to N milliseconds; as long as N milliseconds fit 64 bits of nanoseconds (about
  584 years) the value handed to the BPF program is exactly N times a million.
\<close>

theorem duration_option_roundtrip:
  assumes "1 \<le> n" and "int n * 1000000 < 2 ^ 64"
  shows "\<exists>e'. parse_arg_bootstrap (of_char (CHR ''d'')) (dec n) e = Parsed 0 e' \<and>
     verbose e' = verbose e \<and> min_duration_ms e' = int n \<and> uint (min_duration_ns_of e') = int n * 1000000"
proof -
  have "int n \<le> LONG_MAX" using assms(2) by simp
  then have st: "strtol10 (dec n) = (int n, False)" by (rule strtol10_dec)
  have "uint (word_of_int (int n * 1000000) :: u64) = int n * 1000000"
    using assms(2) by (simp add: unsigned_of_int take_bit_int_eq_self_iff del: of_int_mult)
  then have "uint (word_of_int (int n) * 1000000 :: u64) = int n * 1000000" by simp
  then show ?thesis
    using assms(1) by (simp add: parse_arg_bootstrap_def st min_duration_ns_of_def)
qed

theorem duration_option_roundtrip_witness:
  "\<exists>e'. parse_arg_bootstrap (of_char (CHR ''d'')) ''50'' \<lparr>verbose = True, min_duration_ms = 0\<rparr> = Parsed 0 e' \<and>
     verbose e' = True \<and> min_duration_ms e' = 50 \<and> uint (min_duration_ns_of e') = 50000000"
proof -
  have d: "dec 50 = ''50''" by code_simp
  show ?thesis
    using duration_option_roundtrip [of 50 "\<lparr>verbose = True, min_duration_ms = 0\<rparr>"] by (simp add: d)
qed

text \<open>
  C27. For every accepted N the value handed to the BPF program is N times a million modulo two to
  the 64. Beyond the bound above it wraps: it is 0, which switches the filter off and turns exec
  events back on, exactly for the multiples of two to the 58.
\<close>

theorem duration_option_wraps:
  assumes "1 \<le> n" and "int n \<le> LONG_MAX"
  shows "\<exists>e'. parse_arg_bootstrap (of_char (CHR ''d'')) (dec n) e = Parsed 0 e' \<and>
     uint (min_duration_ns_of e') = int n * 1000000 mod 2 ^ 64 \<and>
     (min_duration_ns_of e' = 0 \<longleftrightarrow> 2 ^ 58 dvd n)"
proof -
  have st: "strtol10 (dec n) = (int n, False)" using assms(2) by (rule strtol10_dec)
  have "uint (word_of_int (int n * 1000000) :: u64) = int n * 1000000 mod 2 ^ 64"
    by (simp add: unsigned_of_int take_bit_eq_mod del: of_int_mult)
  then have u: "uint (word_of_int (int n) * 1000000 :: u64) = int n * 1000000 mod 2 ^ 64" by simp
  have cp: "coprime (2 ^ 58) (15625 :: int)" unfolding coprime_power_left_iff by simp
  have "(word_of_int (int n) * 1000000 :: u64) = 0 \<longleftrightarrow> int n * 1000000 mod 2 ^ 64 = 0"
    by (metis u uint_0_iff)
  also have "\<dots> \<longleftrightarrow> (2 ^ 6 * 2 ^ 58 :: int) dvd 2 ^ 6 * (int n * 15625)"
    by (simp add: dvd_eq_mod_eq_0 mult.commute)
  also have "\<dots> \<longleftrightarrow> (2 ^ 58 :: int) dvd int n * 15625" by (subst dvd_mult_cancel_left) simp
  also have "\<dots> \<longleftrightarrow> (2 ^ 58 :: int) dvd int n" by (rule coprime_dvd_mult_left_iff [OF cp])
  also have "\<dots> \<longleftrightarrow> 2 ^ 58 dvd n" by (metis int_dvd_int_iff of_nat_numeral of_nat_power)
  finally show ?thesis
    using assms(1) u by (simp add: parse_arg_bootstrap_def st min_duration_ns_of_def)
qed

theorem duration_option_wraps_witness:
  "\<exists>e'. parse_arg_bootstrap (of_char (CHR ''d'')) (dec (2 ^ 58)) \<lparr>verbose = True, min_duration_ms = 0\<rparr> = Parsed 0 e' \<and>
     min_duration_ns_of e' = 0"
  using duration_option_wraps [of "2 ^ 58" "\<lparr>verbose = True, min_duration_ms = 0\<rparr>"] by auto

end
