(* ===== verification/Sockfilter_Bpf.thy ===== *)
theory Sockfilter_Bpf
  imports Bpf_Kernel
begin

text \<open>
  The kernel half of \<^verbatim>\<open>sockfilter\<close>: \<^verbatim>\<open>sockfilter.h\<close> and \<^verbatim>\<open>sockfilter.bpf.c\<close>. The
  socket filter looks at each packet through \<^verbatim>\<open>bpf_skb_load_bytes\<close> and reports unfragmented
  IPv4 packets. The byte order of the host is an argument: the struct is written partly by bytes
  copied from the packet.
\<close>

section \<open>Data\<close>

text \<open>
  Fields that the program fills with packet bytes are kept as raw memory; \<open>so_ip_proto\<close> is the
  memory of a \<^verbatim>\<open>__u32\<close> of which only the first byte is written.
\<close>

record so_event =
  so_src_addr :: bytes
  so_dst_addr :: bytes
  so_ports :: bytes
  so_ip_proto :: bytes
  so_pkt_type :: u32
  so_ifindex :: u32

definition so_layout :: "so_event \<Rightarrow> bool" where
  "so_layout e \<longleftrightarrow> length (so_src_addr e) = 4 \<and> length (so_dst_addr e) = 4 \<and>
     length (so_ports e) = 4 \<and> length (so_ip_proto e) = 4"

abbreviation (input) sizeof_so_event :: nat where "sizeof_so_event \<equiv> 24"

definition ip_proto_of :: "endian \<Rightarrow> so_event \<Rightarrow> nat" where
  "ip_proto_of en e = host_num en (so_ip_proto e)"

text \<open>What the program reads of \<^verbatim>\<open>struct __sk_buff\<close>, and the helper that reads the packet.\<close>

type_synonym load_bytes = "nat \<Rightarrow> nat \<Rightarrow> int \<times> bytes"

record sk_buff =
  skb_load_bytes :: load_bytes
  skb_pkt_type :: u32
  skb_ifindex :: u32
  skb_len :: u32

abbreviation (input) ETH_HLEN :: nat where "ETH_HLEN \<equiv> 14"
abbreviation (input) IPPROTO_GRE :: nat where "IPPROTO_GRE \<equiv> 47"

text \<open>Offsets of the fields of \<^verbatim>\<open>struct iphdr\<close>.\<close>

abbreviation (input) off_frag_off :: nat where "off_frag_off \<equiv> 6"
abbreviation (input) off_protocol :: nat where "off_protocol \<equiv> 9"
abbreviation (input) off_saddr :: nat where "off_saddr \<equiv> 12"
abbreviation (input) off_daddr :: nat where "off_daddr \<equiv> 16"

section \<open>The program\<close>

definition load_u16 :: "endian \<Rightarrow> sk_buff \<Rightarrow> nat \<Rightarrow> u16" where
  "load_u16 en skb off = of_nat (host_num en (snd (skb_load_bytes skb off 2)))"

definition ip_is_fragment :: "endian \<Rightarrow> sk_buff \<Rightarrow> nat \<Rightarrow> u16" where
  "ip_is_fragment en skb nhoff =
     (let frag_off = load_u16 en skb (nhoff + off_frag_off);
          frag_off = ntohs en frag_off
      in frag_off AND (0x2000 OR 0x1FFF))"

text \<open>Storing the n loaded bytes at the start of a field leaves the rest of the field.\<close>

definition store :: "bytes \<Rightarrow> bytes \<Rightarrow> bytes" where
  "store new old = new @ drop (length new) old"

definition socket_handler ::
  "endian \<Rightarrow> ('r, so_event) ringbuf_ops \<Rightarrow> sk_buff \<Rightarrow> 'r \<Rightarrow> int \<times> 'r" where
  "socket_handler en rops skb r =
     (let nhoff = ETH_HLEN;
          load = (\<lambda>off n. snd (skb_load_bytes skb off n));
          proto = load_u16 en skb 12;
          proto = ntohs en proto
      in if proto \<noteq> 0x0800 then (0, r)
         else if ip_is_fragment en skb nhoff \<noteq> 0 then (0, r)
         else case ringbuf_reserve rops r sizeof_so_event of
           (None, r) \<Rightarrow> (0, r)
         | (Some e, r) \<Rightarrow>
           let e = e\<lparr>so_ip_proto := store (load (nhoff + off_protocol) 1) (so_ip_proto e)\<rparr>;
               e = (if ip_proto_of en e \<noteq> IPPROTO_GRE
                    then e\<lparr>so_src_addr := store (load (nhoff + off_saddr) 4) (so_src_addr e),
                           so_dst_addr := store (load (nhoff + off_daddr) 4) (so_dst_addr e)\<rparr>
                    else e);
               verlen = (of_nat (host_num en (load (nhoff + 0) 1)) :: u8);
               e = e\<lparr>so_ports := store (load (nhoff + unat (push_bit 2 (ucast (verlen AND 0xF) :: u32))) 4) (so_ports e)\<rparr>;
               e = e\<lparr>so_pkt_type := skb_pkt_type skb\<rparr>;
               e = e\<lparr>so_ifindex := skb_ifindex skb\<rparr>
           in (sint (skb_len skb), ringbuf_submit rops r e))"

section \<open>Reference view of a packet\<close>

definition be16_at :: "bytes \<Rightarrow> nat \<Rightarrow> nat" where
  "be16_at p off = 256 * unat (p ! off) + unat (p ! Suc off)"

definition is_ipv4_frame :: "bytes \<Rightarrow> bool" where
  "is_ipv4_frame p \<longleftrightarrow> be16_at p 12 = 0x0800"

text \<open>More fragments, or an offset that is not 0: the low 14 bits of the fragment word.\<close>

definition is_fragmented :: "bytes \<Rightarrow> bool" where
  "is_fragmented p \<longleftrightarrow> be16_at p (ETH_HLEN + off_frag_off) mod 2 ^ 14 \<noteq> 0"

definition header_length :: "bytes \<Rightarrow> nat" where
  "header_length p = 4 * (unat (p ! ETH_HLEN) mod 16)"

definition slice :: "bytes \<Rightarrow> nat \<Rightarrow> nat \<Rightarrow> bytes" where
  "slice p off n = take n (drop off p)"

text \<open>
  The documented behaviour of the helper: it copies the requested bytes when they are inside the
  packet. It always writes the whole target.
\<close>

locale skb_access =
  fixes skb :: sk_buff and pkt :: bytes
  assumes load_inside: "off + n \<le> length pkt \<Longrightarrow> skb_load_bytes skb off n = (0, slice pkt off n)"
    and load_length: "length (snd (skb_load_bytes skb off n)) = n"
begin

lemma load_be16:
  assumes "Suc (Suc off) \<le> length pkt"
  shows "unat (ntohs en (load_u16 en skb off)) = be16_at pkt off"
proof -
  have "slice pkt off 2 = [pkt ! off, pkt ! Suc off]"
    using assms by (simp add: slice_def take_Suc_conv_app_nth numeral_2_eq_2 Cons_nth_drop_Suc [symmetric])
  then have ld: "snd (skb_load_bytes skb off 2) = [pkt ! off, pkt ! Suc off]"
    using load_inside [of off 2] assms by simp
  have "ntohs en (load_u16 en skb off) = of_nat (of_be [pkt ! off, pkt ! Suc off])"
    unfolding load_u16_def ld by (rule ntohs_host) simp
  then show ?thesis using unat_of_be_16 [of "[pkt ! off, pkt ! Suc off]"] by (simp add: be16_at_def)
qed

lemma load_byte: "off < length pkt \<Longrightarrow> snd (skb_load_bytes skb off 1) = [pkt ! off]"
  using load_inside [of off 1]
  by (simp add: slice_def take_Suc_conv_app_nth Cons_nth_drop_Suc [symmetric])

lemma fragment_iff:
  assumes "ETH_HLEN + off_frag_off + 2 \<le> length pkt"
  shows "ip_is_fragment en skb ETH_HLEN \<noteq> 0 \<longleftrightarrow> is_fragmented pkt"
proof -
  let ?f = "ntohs en (load_u16 en skb (ETH_HLEN + off_frag_off))"
  have f: "unat ?f = be16_at pkt (ETH_HLEN + off_frag_off)"
    by (rule load_be16) (use assms in simp)
  have "ip_is_fragment en skb ETH_HLEN = ?f AND mask 14"
    by (simp add: ip_is_fragment_def Let_def mask_numeral)
  then have "unat (ip_is_fragment en skb ETH_HLEN) = unat ?f mod 2 ^ 14"
    by (simp add: take_bit_eq_mask [symmetric] unsigned_take_bit_eq take_bit_nat_def)
  then show ?thesis using f by (simp add: is_fragmented_def flip: unat_eq_zero)
qed

end

section \<open>What the program writes into a reserved record\<close>

definition so_fill :: "endian \<Rightarrow> sk_buff \<Rightarrow> so_event \<Rightarrow> so_event" where
  "so_fill en skb e =
     (let load = (\<lambda>off n. snd (skb_load_bytes skb off n));
          proto = store (load 23 1) (so_ip_proto e);
          gre = host_num en proto = IPPROTO_GRE;
          verlen = (of_nat (host_num en (load 14 1)) :: u8)
      in \<lparr>so_src_addr = (if gre then so_src_addr e else store (load 26 4) (so_src_addr e)),
          so_dst_addr = (if gre then so_dst_addr e else store (load 30 4) (so_dst_addr e)),
          so_ports = store (load (14 + unat (push_bit 2 (ucast (verlen AND 0xF) :: u32))) 4) (so_ports e),
          so_ip_proto = proto, so_pkt_type = skb_pkt_type skb, so_ifindex = skb_ifindex skb\<rparr>)"

definition accepts :: "endian \<Rightarrow> sk_buff \<Rightarrow> bool" where
  "accepts en skb \<longleftrightarrow> ntohs en (load_u16 en skb 12) = 0x0800 \<and> ip_is_fragment en skb ETH_HLEN = 0"

lemma socket_handler_fill:
  "socket_handler en rops skb r =
     (if \<not> accepts en skb then (0, r)
      else case ringbuf_reserve rops r sizeof_so_event of
        (None, r) \<Rightarrow> (0, r) | (Some e, r) \<Rightarrow> (sint (skb_len skb), ringbuf_submit rops r (so_fill en skb e)))"
  by (auto simp: socket_handler_def accepts_def so_fill_def ip_proto_of_def Let_def
      intro!: arg_cong [where f = "ringbuf_submit rops _"] so_event.equality
      split: prod.splits option.splits)

lemma store_all: "length new = length old \<Longrightarrow> store new old = new"
  by (simp add: store_def)

lemma ihl_offset:
  "unat (push_bit 2 (ucast (of_nat (unat b) AND 0xF :: u8) :: u32)) = 4 * (unat (b :: u8) mod 16)"
proof -
  have "b AND 0xF = take_bit 4 b" by (simp add: take_bit_eq_mask mask_numeral)
  then have "unat (b AND 0xF) = unat b mod 16" by (simp add: unsigned_take_bit_eq take_bit_nat_def)
  moreover have "unat b mod 16 < 16" by simp
  ultimately show ?thesis
    by (simp add: push_bit_eq_mult unat_word_ariths unsigned_ucast_eq take_bit_nat_def)
qed

section \<open>Abstract view of events\<close>

datatype flow = Flow (fl_src: bytes) (fl_dst: bytes) (fl_sport: nat) (fl_dport: nat) (fl_proto: nat)
  (fl_type: u32) (fl_ifindex: u32)

definition flow_of :: "endian \<Rightarrow> so_event \<Rightarrow> flow" where
  "flow_of en e = Flow (so_src_addr e) (so_dst_addr e) (of_be (take 2 (so_ports e)))
     (of_be (drop 2 (so_ports e))) (ip_proto_of en e) (so_pkt_type e) (so_ifindex e)"

text \<open>
  The same with the one byte of \<^verbatim>\<open>ip_proto\<close> that the program writes as protocol: the other three
  are whatever the slot held before.
\<close>

definition wire_flow :: "so_event \<Rightarrow> flow" where
  "wire_flow e = Flow (so_src_addr e) (so_dst_addr e) (of_be (take 2 (so_ports e)))
     (of_be (drop 2 (so_ports e))) (unat (hd (so_ip_proto e))) (so_pkt_type e) (so_ifindex e)"

fun with_proto :: "flow \<Rightarrow> nat \<Rightarrow> flow" where
  "with_proto (Flow src dst sport dport p ty i) u = Flow src dst sport dport u ty i"

lemma flow_of_wire: "flow_of en e = with_proto (wire_flow e) (ip_proto_of en e)"
  by (simp add: flow_of_def wire_flow_def)

text \<open>The byte that was written, out of the 32 bit number that user space reads.\<close>

fun first_byte :: "endian \<Rightarrow> nat \<Rightarrow> nat" where
  "first_byte LE v = v mod 256"
| "first_byte BE v = v div 2 ^ 24"

text \<open>The protocol byte for which the number may compare equal to \<^verbatim>\<open>IPPROTO_GRE\<close>.\<close>

fun gre_byte :: "endian \<Rightarrow> nat" where
  "gre_byte LE = IPPROTO_GRE"
| "gre_byte BE = 0"

definition packet_flow :: "u32 \<Rightarrow> u32 \<Rightarrow> bytes \<Rightarrow> flow" where
  "packet_flow ptype ifindex p = Flow (slice p 26 4) (slice p 30 4) (be16_at p (14 + header_length p))
     (be16_at p (16 + header_length p)) (unat (p ! 23)) ptype ifindex"

text \<open>A packet with its whole IPv4 header and the first four bytes of what follows.\<close>

definition complete :: "bytes \<Rightarrow> bool" where
  "complete p \<longleftrightarrow> 34 \<le> length p \<and> 14 + header_length p + 4 \<le> length p"

lemma so_layoutD:
  assumes "so_layout e"
  shows "length (so_src_addr e) = 4" "length (so_dst_addr e) = 4" "length (so_ports e) = 4" "length (so_ip_proto e) = 4"
  using assms by (simp_all add: so_layout_def)

lemma four_bytes:
  assumes "length rest = 3"
  shows "host_num LE (b # rest) = unat b + 256 * of_le rest"
    and "host_num BE (b # rest) = of_be rest + 2 ^ 24 * unat b"
    and "of_be rest < 2 ^ 24" and "of_le rest = 0 \<longleftrightarrow> rest = [0, 0, 0]" and "of_be rest = 0 \<longleftrightarrow> rest = [0, 0, 0]"
proof -
  obtain x y z where r: "rest = [x, y, z]" using assms by (auto simp: numeral_eq_Suc length_Suc_conv)
  show "host_num LE (b # rest) = unat b + 256 * of_le rest" by simp
  show "host_num BE (b # rest) = of_be rest + 2 ^ 24 * unat b" by (simp add: r of_be_def)
  show "of_be rest < 2 ^ 24" using of_le_bound [of "rev rest"] assms by (simp add: of_be_def)
  show "of_le rest = 0 \<longleftrightarrow> rest = [0, 0, 0]" "of_be rest = 0 \<longleftrightarrow> rest = [0, 0, 0]"
    by (auto simp: r of_be_def unat_eq_zero)
qed

lemma unat_byte: "unat (b :: u8) < 256"
  using unsigned_less [of b, where ?'a = nat] by simp

lemma first_byte_host:
  assumes "length rest = 3"
  shows "first_byte en (host_num en (b # rest)) = unat b"
  using four_bytes [OF assms] unat_byte [of b] by (cases en) simp_all

lemma first_byte_layout:
  assumes "so_layout e"
  shows "first_byte en (ip_proto_of en e) = unat (hd (so_ip_proto e))"
proof -
  obtain b rest where "so_ip_proto e = b # rest" and "length rest = 3"
    using assms by (auto simp: so_layout_def numeral_eq_Suc length_Suc_conv)
  then show ?thesis using first_byte_host [of rest en b] by (simp add: ip_proto_of_def)
qed

lemma proto_faithful:
  assumes "length rest = 3"
  shows "host_num en (b # rest) = unat b \<longleftrightarrow> rest = [0, 0, 0] \<and> (en = LE \<or> b = 0)"
  using four_bytes [OF assms] by (cases en) (auto simp: unat_eq_zero simp del: of_le.simps)

lemma gre_read:
  assumes "length rest = 3" and "host_num en (b # rest) = IPPROTO_GRE"
  shows "unat b = gre_byte en"
  using first_byte_host [OF assms(1), of en b] unfolding assms(2) by (cases en) simp_all

lemma gre_seen:
  assumes "length rest = 3" and "unat b = IPPROTO_GRE"
  shows "host_num en (b # rest) = IPPROTO_GRE \<longleftrightarrow> en = LE \<and> rest = [0, 0, 0]"
  using proto_faithful [OF assms(1), of en b] assms(2) by auto

lemma be16_slice: "off + 4 \<le> length p \<Longrightarrow>
  of_be (take 2 (slice p off 4)) = be16_at p off \<and> of_be (drop 2 (slice p off 4)) = be16_at p (off + 2)"
  by (simp add: slice_def be16_at_def take_Suc_conv_app_nth numeral_eq_Suc Cons_nth_drop_Suc [symmetric])

context skb_access
begin

lemma accepts_iff:
  assumes "14 \<le> length pkt" and "is_ipv4_frame pkt \<longrightarrow> 34 \<le> length pkt"
  shows "accepts en skb \<longleftrightarrow> is_ipv4_frame pkt \<and> \<not> is_fragmented pkt"
proof -
  have "unat (ntohs en (load_u16 en skb 12)) = be16_at pkt 12"
    by (rule load_be16) (use assms in simp)
  moreover have "ntohs en (load_u16 en skb 12) = 0x0800 \<longleftrightarrow> unat (ntohs en (load_u16 en skb 12)) = 2048"
    by (simp add: word_unat_eq_iff)
  ultimately show ?thesis
    using fragment_iff [of en] assms by (auto simp: accepts_def is_ipv4_frame_def)
qed

lemma load_verlen:
  assumes "34 \<le> length pkt"
  shows "of_nat (host_num en (snd (skb_load_bytes skb 14 1))) = pkt ! 14"
  using load_byte [of 14] assms by (cases en) (simp_all add: of_be_def)

text \<open>On a complete packet every field is read from inside the packet.\<close>

lemma fill_fields:
  assumes "complete pkt" and "so_layout e"
  shows "so_ports (so_fill en skb e) = slice pkt (14 + header_length pkt) 4"
    and "so_ip_proto (so_fill en skb e) = pkt ! 23 # drop 1 (so_ip_proto e)"
    and "ip_proto_of en (so_fill en skb e) \<noteq> IPPROTO_GRE \<Longrightarrow>
      so_src_addr (so_fill en skb e) = slice pkt 26 4 \<and> so_dst_addr (so_fill en skb e) = slice pkt 30 4"
    and "ip_proto_of en (so_fill en skb e) = IPPROTO_GRE \<Longrightarrow>
      so_src_addr (so_fill en skb e) = so_src_addr e \<and> so_dst_addr (so_fill en skb e) = so_dst_addr e"
proof -
  have len: "34 \<le> length pkt" and hl: "14 + header_length pkt + 4 \<le> length pkt"
    using assms(1) by (simp_all add: complete_def)
  have off: "14 + unat (push_bit 2 (ucast (of_nat (host_num en (snd (skb_load_bytes skb 14 1))) AND 0xF :: u8) :: u32))
      = 14 + header_length pkt"
    using ihl_offset [of "pkt ! 14"] by (simp add: load_verlen [OF len, simplified] header_length_def)
  show "so_ports (so_fill en skb e) = slice pkt (14 + header_length pkt) 4"
    using load_inside [OF hl] load_length [of "14 + header_length pkt" 4] off so_layoutD [OF assms(2)]
    by (simp add: so_fill_def Let_def store_all)
  show pr: "so_ip_proto (so_fill en skb e) = pkt ! 23 # drop 1 (so_ip_proto e)"
    using load_byte [of 23] len by (simp add: so_fill_def Let_def store_def)
  show "so_src_addr (so_fill en skb e) = slice pkt 26 4 \<and> so_dst_addr (so_fill en skb e) = slice pkt 30 4"
    if "ip_proto_of en (so_fill en skb e) \<noteq> IPPROTO_GRE"
    using that load_inside [of 26 4] load_inside [of 30 4] load_length [of 26 4] load_length [of 30 4] len
      so_layoutD [OF assms(2)]
    by (simp add: so_fill_def ip_proto_of_def Let_def store_all)
  show "so_src_addr (so_fill en skb e) = so_src_addr e \<and> so_dst_addr (so_fill en skb e) = so_dst_addr e"
    if "ip_proto_of en (so_fill en skb e) = IPPROTO_GRE"
    using that by (simp add: so_fill_def ip_proto_of_def Let_def)
qed

lemma fill_layout:
  assumes "complete pkt" and "so_layout e"
  shows "so_layout (so_fill en skb e)"
proof -
  have "length (slice pkt k 4) = 4" if "k + 4 \<le> length pkt" for k
    using that by (simp add: slice_def)
  then show ?thesis
    using fill_fields [OF assms, where en = en] assms(1) so_layoutD [OF assms(2)]
    by (cases "ip_proto_of en (so_fill en skb e) = IPPROTO_GRE") (auto simp: so_layout_def complete_def)
qed

lemma fill_flow:
  assumes "complete pkt" and "so_layout e" and "unat (pkt ! 23) \<noteq> gre_byte en"
  shows "wire_flow (so_fill en skb e) = packet_flow (skb_pkt_type skb) (skb_ifindex skb) pkt"
proof -
  note f = fill_fields [OF assms(1,2), where en = en]
  have "ip_proto_of en (so_fill en skb e) \<noteq> IPPROTO_GRE"
    using gre_read [of "drop 1 (so_ip_proto e)" en "pkt ! 23"] so_layoutD(4) [OF assms(2)] assms(3)
    by (auto simp: ip_proto_of_def f(2))
  moreover have "so_pkt_type (so_fill en skb e) = skb_pkt_type skb" "so_ifindex (so_fill en skb e) = skb_ifindex skb"
    by (simp_all add: so_fill_def Let_def)
  ultimately show ?thesis
    using f be16_slice [of "14 + header_length pkt" pkt] assms(1)
    by (simp add: wire_flow_def packet_flow_def complete_def)
qed

end

section \<open>Runs over a sequence of packets\<close>

fun filter_run where
  "filter_run en rops [] r = r"
| "filter_run en rops (skb # skbs) r = filter_run en rops skbs (snd (socket_handler en rops skb r))"

text \<open>
  Frames that carry an Ethernet header and, if they are IPv4, their whole header and the four bytes
  of ports, unless fragmented; and whose protocol byte cannot be mistaken for GRE.
\<close>

definition readable :: "endian \<Rightarrow> bytes \<Rightarrow> bool" where
  "readable en p \<longleftrightarrow> 14 \<le> length p \<and>
     (is_ipv4_frame p \<longrightarrow> 34 \<le> length p \<and> (is_fragmented p \<or> (complete p \<and> unat (p ! 23) \<noteq> gre_byte en)))"

fun flows :: "sk_buff \<Rightarrow> bytes \<Rightarrow> flow list" where
  "flows skb p = (if is_ipv4_frame p \<and> \<not> is_fragmented p
     then [packet_flow (skb_pkt_type skb) (skb_ifindex skb) p] else [])"

locale socket_filter = bpf_ringbuf_cap rops so_layout sizeof_so_event capacity
  for rops :: "('r, so_event) ringbuf_ops" and capacity :: nat
begin

lemma handler_flows:
  assumes acc: "skb_access skb pkt" and pkt: "readable en pkt"
    and room: "length (ringbuf_records rops r) < capacity"
  shows "map wire_flow (ringbuf_records rops (snd (socket_handler en rops skb r))) =
         map wire_flow (ringbuf_records rops r) @ flows skb pkt"
proof (cases "accepts en skb")
  case True
  then have ip: "is_ipv4_frame pkt" "\<not> is_fragmented pkt"
    using skb_access.accepts_iff [OF acc, of en] pkt by (auto simp: readable_def)
  obtain e r' where res: "ringbuf_reserve rops r sizeof_so_event = (Some e, r')"
    using ring_room [OF room] by (cases "ringbuf_reserve rops r sizeof_so_event") auto
  have "wire_flow (so_fill en skb e) = packet_flow (skb_pkt_type skb) (skb_ifindex skb) pkt"
    using pkt ip reserve_layout [OF res] by (intro skb_access.fill_flow [OF acc]) (auto simp: readable_def)
  with True ip show ?thesis by (simp add: socket_handler_fill res submit [OF res])
next
  case False
  then have "\<not> (is_ipv4_frame pkt \<and> \<not> is_fragmented pkt)"
    using skb_access.accepts_iff [OF acc, of en] pkt by (auto simp: readable_def)
  with False show ?thesis by (auto simp: socket_handler_fill)
qed

lemma flows_length: "length (flows skb p) \<le> 1"
  by simp

lemma run_flows:
  assumes "list_all2 skb_access skbs pkts" and "list_all (readable en) pkts"
    and "length (ringbuf_records rops r) + length skbs \<le> capacity"
  shows "map wire_flow (ringbuf_records rops (filter_run en rops skbs r)) =
         map wire_flow (ringbuf_records rops r) @ concat (map2 flows skbs pkts)"
  using assms
proof (induction skbs pkts arbitrary: r rule: list_all2_induct)
  case (Cons skb skbs pkt pkts)
  let ?r = "snd (socket_handler en rops skb r)"
  have h: "map wire_flow (ringbuf_records rops ?r) = map wire_flow (ringbuf_records rops r) @ flows skb pkt"
    using Cons.prems by (intro handler_flows [OF Cons.hyps(1)]) auto
  have "length (ringbuf_records rops ?r) = length (ringbuf_records rops r) + length (flows skb pkt)"
    using arg_cong [OF h, of length] unfolding length_map length_append .
  then have "length (ringbuf_records rops ?r) \<le> Suc (length (ringbuf_records rops r))"
    using flows_length [of skb pkt] by linarith
  with Cons.IH [of ?r] Cons.prems h show ?case by simp
qed simp

text \<open>Every record that reaches user space has the layout of the struct.\<close>

lemma handler_layout:
  assumes acc: "skb_access skb pkt" and pkt: "readable en pkt" and "list_all so_layout (ringbuf_records rops r)"
  shows "list_all so_layout (ringbuf_records rops (snd (socket_handler en rops skb r)))"
proof (cases "accepts en skb")
  case True
  then have "is_ipv4_frame pkt" "\<not> is_fragmented pkt"
    using skb_access.accepts_iff [OF acc, of en] pkt by (auto simp: readable_def)
  with pkt have c: "complete pkt" by (simp add: readable_def)
  obtain s r' where res: "ringbuf_reserve rops r sizeof_so_event = (s, r')" by fastforce
  show ?thesis
  proof (cases s)
    case None
    with True res assms(3) show ?thesis using reserve_none by (simp add: socket_handler_fill)
  next
    case (Some e)
    have "so_layout (so_fill en skb e)"
      using skb_access.fill_layout [OF acc c] reserve_layout res Some by blast
    with True Some res assms(3) show ?thesis by (simp add: socket_handler_fill submit)
  qed
qed (simp add: socket_handler_fill assms(3))

lemma run_layout:
  assumes "list_all2 skb_access skbs pkts" and "list_all (readable en) pkts" and "list_all so_layout (ringbuf_records rops r)"
  shows "list_all so_layout (ringbuf_records rops (filter_run en rops skbs r))"
  using assms by (induction skbs pkts arbitrary: r rule: list_all2_induct) (simp_all add: handler_layout)

end

section \<open>Runs on the reference kernel\<close>

definition packet_skb :: "u32 \<Rightarrow> u32 \<Rightarrow> bytes \<Rightarrow> sk_buff" where
  "packet_skb ptype ifindex p = \<lparr>
     skb_load_bytes = (\<lambda>off n. if off + n \<le> length p then (0, slice p off n) else (- 14, replicate n 0)),
     skb_pkt_type = ptype, skb_ifindex = ifindex, skb_len = of_nat (length p)\<rparr>"

interpretation packet: skb_access "packet_skb ptype ifindex p" p for ptype ifindex p
  by unfold_locales (simp_all add: packet_skb_def slice_def)

definition zero_slot :: so_event where
  "zero_slot = \<lparr>so_src_addr = [0, 0, 0, 0], so_dst_addr = [0, 0, 0, 0], so_ports = [0, 0, 0, 0],
     so_ip_proto = [0, 0, 0, 0], so_pkt_type = 0, so_ifindex = 0\<rparr>"

text \<open>A slot with remains of an earlier record in it.\<close>

definition used_slot :: so_event where
  "used_slot = \<lparr>so_src_addr = [9, 9, 9, 9], so_dst_addr = [8, 8, 8, 8], so_ports = [7, 7, 7, 7],
     so_ip_proto = [6, 0, 5, 0], so_pkt_type = 4, so_ifindex = 3\<rparr>"

lemma kernel_so_ringbuf:
  "so_layout e \<Longrightarrow> bpf_ringbuf_cap (kernel_ringbuf cap e) so_layout sz cap"
  by (rule kernel_ringbuf_law [where layout = so_layout])

lemma slot_layouts: "so_layout zero_slot" "so_layout used_slot"
  by (simp_all add: so_layout_def zero_slot_def used_slot_def)

interpretation kernel_filter: socket_filter "kernel_ringbuf capacity zero_slot" capacity for capacity
  by (rule socket_filter.intro) (rule kernel_so_ringbuf [OF slot_layouts(1)])

text \<open>A TCP segment from 127.0.0.1 port 80 to 10.0.0.2 port 443, and its first two variations.\<close>

definition sample_packet :: "byte \<Rightarrow> byte \<Rightarrow> bytes" where
  "sample_packet frag proto = [1, 1, 1, 1, 1, 1, 2, 2, 2, 2, 2, 2, 0x08, 0x00] @
     [0x45, 0, 0, 40, 0, 0, frag, 0, 64, proto, 0, 0, 127, 0, 0, 1, 10, 0, 0, 2] @ [0, 80, 1, 187]"

lemmas sample_packet_simps = sample_packet_def is_ipv4_frame_def is_fragmented_def be16_at_def
  complete_def header_length_def readable_def slice_def

section \<open>Properties\<close>

lemma handler_publishes:
  assumes "bpf_ringbuf rops so_layout sizeof_so_event"
    and "skb_access skb pkt" and "complete pkt" and "is_ipv4_frame pkt" and "\<not> is_fragmented pkt"
    and "ringbuf_reserve rops r sizeof_so_event = (Some e, r')"
  shows "ringbuf_records rops (snd (socket_handler en rops skb r)) = ringbuf_records rops r @ [so_fill en skb e]"
    and "so_layout e"
proof -
  show "so_layout e" by (rule bpf_ringbuf.reserve_layout [OF assms(1,6)])
  have "accepts en skb"
    using skb_access.accepts_iff [OF assms(2), of en] assms(3-5) by (simp add: complete_def)
  then show "ringbuf_records rops (snd (socket_handler en rops skb r)) = ringbuf_records rops r @ [so_fill en skb e]"
    by (simp add: socket_handler_fill assms(6) bpf_ringbuf.submit [OF assms(1,6)])
qed

text \<open>
  C3. In either byte order and whatever reserved slots contain, over any sequence of frames that
  carry their headers whole and whose protocol byte is not the one that can be taken for GRE (47 on
  a little-endian machine, 0 on a big-endian one), and while the ring buffer has room, user space
  receives exactly one event for each unfragmented IPv4 packet, in order: the addresses, the two
  ports, the protocol byte (as first byte of its four byte field), the packet type and the
  interface of that packet. Nothing is reported for other frames.
\<close>

theorem filter_run_flows:
  assumes "bpf_ringbuf_cap rops so_layout sizeof_so_event capacity"
    and "list_all2 skb_access skbs pkts" and "list_all (readable en) pkts"
    and "ringbuf_records rops r = []" and "length skbs \<le> capacity"
  shows "map wire_flow (ringbuf_records rops (filter_run en rops skbs r)) = concat (map2 flows skbs pkts)"
  using socket_filter.run_flows [OF socket_filter.intro [OF assms(1)] assms(2,3), of r] assms(4,5) by simp

theorem filter_run_flows_witness:
  "map wire_flow (ringbuf_records (kernel_ringbuf 4 used_slot) (filter_run LE (kernel_ringbuf 4 used_slot)
     [packet_skb 0 1 (sample_packet 0 6), packet_skb 0 1 (sample_packet 0x20 17)] [])) =
   [Flow [127, 0, 0, 1] [10, 0, 0, 2] 80 443 6 0 1]"
proof -
  have "map wire_flow (ringbuf_records (kernel_ringbuf 4 used_slot) (filter_run LE (kernel_ringbuf 4 used_slot)
     [packet_skb 0 1 (sample_packet 0 6), packet_skb 0 1 (sample_packet 0x20 17)] [])) =
     concat (map2 flows [packet_skb 0 1 (sample_packet 0 6), packet_skb 0 1 (sample_packet 0x20 17)]
       [sample_packet 0 6, sample_packet 0x20 17])"
    by (rule filter_run_flows [where capacity = 4])
       (simp_all add: kernel_so_ringbuf slot_layouts packet.skb_access_axioms sample_packet_simps)
  then show ?thesis
    by (simp add: packet_flow_def packet_skb_def sample_packet_simps)
qed

text \<open>
  C28. Packets that are not IPv4, and fragments (more fragments to come, or an offset that is not
  0), leave the ring buffer untouched and are not passed on, in either byte order.
\<close>

theorem socket_handler_drops:
  assumes "skb_access skb pkt" and "34 \<le> length pkt"
    and "\<not> is_ipv4_frame pkt \<or> is_fragmented pkt"
  shows "socket_handler en rops skb r = (0, r)"
  using skb_access.accepts_iff [OF assms(1), of en] assms(2,3) by (auto simp: socket_handler_fill)

theorem socket_handler_drops_witness:
  "socket_handler BE (kernel_ringbuf 4 zero_slot) (packet_skb 0 1 (sample_packet 0x20 6)) [] = (0, [])"
  by (rule socket_handler_drops [OF packet.skb_access_axioms])
     (simp_all add: sample_packet_simps)

text \<open>
  C29. For a GRE packet an event is published as well. Its addresses are those of the packet, except
  on a little-endian machine when the three bytes of \<^verbatim>\<open>ip_proto\<close> that the program does not write
  happen to be zero: the addresses are then whatever the reserved slot held before.
\<close>

theorem socket_handler_gre:
  assumes "bpf_ringbuf rops so_layout sizeof_so_event"
    and "skb_access skb pkt" and "complete pkt" and "is_ipv4_frame pkt" and "\<not> is_fragmented pkt"
    and "unat (pkt ! 23) = IPPROTO_GRE" and "ringbuf_reserve rops r sizeof_so_event = (Some e, r')"
  shows "\<exists>x. ringbuf_records rops (snd (socket_handler en rops skb r)) = ringbuf_records rops r @ [x] \<and>
     (so_src_addr x, so_dst_addr x) = (if en = LE \<and> drop 1 (so_ip_proto e) = [0, 0, 0]
        then (so_src_addr e, so_dst_addr e) else (slice pkt 26 4, slice pkt 30 4))"
proof -
  note pub = handler_publishes [OF assms(1-5,7)]
  note f = skb_access.fill_fields [OF assms(2,3) pub(2), of en]
  have "ip_proto_of en (so_fill en skb e) = IPPROTO_GRE \<longleftrightarrow> en = LE \<and> drop 1 (so_ip_proto e) = [0, 0, 0]"
    using gre_seen [of "drop 1 (so_ip_proto e)" "pkt ! 23" en] so_layoutD(4) [OF pub(2)] assms(6)
    by (simp add: ip_proto_of_def f(2))
  with f(3,4) pub(1) show ?thesis by (intro exI [where x = "so_fill en skb e"]) auto
qed

theorem socket_handler_gre_witness:
  "\<exists>x. ringbuf_records (kernel_ringbuf 4 (used_slot\<lparr>so_ip_proto := [6, 0, 0, 0]\<rparr>)) (snd (socket_handler LE
       (kernel_ringbuf 4 (used_slot\<lparr>so_ip_proto := [6, 0, 0, 0]\<rparr>)) (packet_skb 0 1 (sample_packet 0 47)) [])) = [] @ [x] \<and>
     so_src_addr x = [9, 9, 9, 9] \<and> so_dst_addr x = [8, 8, 8, 8]"
proof -
  let ?e = "used_slot\<lparr>so_ip_proto := [6, 0, 0, 0]\<rparr>"
  have "so_layout ?e" by (simp add: so_layout_def used_slot_def)
  from bpf_ringbuf_cap.axioms(1) [OF kernel_so_ringbuf [OF this]]
  have ring: "bpf_ringbuf (kernel_ringbuf 4 ?e) so_layout 24" .
  show ?thesis
    using socket_handler_gre [OF ring packet.skb_access_axioms, of "sample_packet 0 47" "[]" ?e "[]" LE 0 1]
    by (simp add: sample_packet_simps used_slot_def)
qed

text \<open>
  C30. The protocol number is written as one byte into a 32 bit field. User space reads the number
  of the packet's protocol exactly when the reserved slot held zeros in the three other bytes and
  the machine is little-endian (or the number is 0).
\<close>

theorem ip_proto_faithful_iff:
  assumes "bpf_ringbuf rops so_layout sizeof_so_event"
    and "skb_access skb pkt" and "complete pkt" and "is_ipv4_frame pkt" and "\<not> is_fragmented pkt"
    and "ringbuf_reserve rops r sizeof_so_event = (Some e, r')"
  shows "\<exists>x. ringbuf_records rops (snd (socket_handler en rops skb r)) = ringbuf_records rops r @ [x] \<and>
     (ip_proto_of en x = unat (pkt ! 23) \<longleftrightarrow> drop 1 (so_ip_proto e) = [0, 0, 0] \<and> (en = LE \<or> pkt ! 23 = 0))"
proof -
  note pub = handler_publishes [OF assms]
  have "ip_proto_of en (so_fill en skb e) = unat (pkt ! 23) \<longleftrightarrow>
      drop 1 (so_ip_proto e) = [0, 0, 0] \<and> (en = LE \<or> pkt ! 23 = 0)"
    using skb_access.fill_fields(2) [OF assms(2,3) pub(2), of en] so_layoutD(4) [OF pub(2)]
      proto_faithful [of "drop 1 (so_ip_proto e)" en "pkt ! 23"] by (simp add: ip_proto_of_def)
  with pub(1) show ?thesis by (intro exI [where x = "so_fill en skb e"]) simp
qed

theorem ip_proto_faithful_iff_witness:
  "\<exists>x. ringbuf_records (kernel_ringbuf 4 used_slot) (snd (socket_handler LE (kernel_ringbuf 4 used_slot)
       (packet_skb 0 1 (sample_packet 0 6)) [])) = [] @ [x] \<and> ip_proto_of LE x \<noteq> 6"
  using ip_proto_faithful_iff [OF bpf_ringbuf_cap.axioms(1) [OF kernel_so_ringbuf [OF slot_layouts(2)]]
      packet.skb_access_axioms, of "sample_packet 0 6" 4 "[]" used_slot "[]" LE 0 1]
  by (simp add: sample_packet_simps used_slot_def)

end
