(* ===== verification/Sockfilter.thy ===== *)
theory Sockfilter
  imports Sockfilter_Bpf User_World
begin

text \<open>
  The user-space half of \<^verbatim>\<open>sockfilter\<close>, \<^verbatim>\<open>sockfilter.c\<close>: the raw socket, the
  printing of addresses and events, and \<^verbatim>\<open>main\<close>. \<^verbatim>\<open>IPPROTO_MAX\<close> comes from a kernel
  header and is an argument, as are the interface table (\<^verbatim>\<open>if_indextoname\<close>) and the messages
  of \<^verbatim>\<open>strerror\<close>.
\<close>

section \<open>Options and logging\<close>

record env_sockfilter =
  interface :: string

definition parse_arg_sockfilter :: "int \<Rightarrow> string \<Rightarrow> env_sockfilter \<Rightarrow> env_sockfilter parse_result" where
  "parse_arg_sockfilter key arg e =
     (if key = of_char (CHR ''i'') then Parsed 0 (e\<lparr>interface := arg\<rparr>)
      else if key = ARGP_KEY_ARG then Usage_exit []
      else Parsed ARGP_ERR_UNKNOWN e)"

definition libbpf_print_fn_sockfilter ::
  "'d environment \<Rightarrow> libbpf_print_level \<Rightarrow> string \<Rightarrow> 'd world \<Rightarrow> int \<times> 'd world" where
  "libbpf_print_fn_sockfilter env level msg w =
     (let (r, w) = sys env (Printf Stderr msg) w in (rv r, w))"

section \<open>Protocol names\<close>

definition ipproto_mapping :: "nat \<Rightarrow> string option" where
  "ipproto_mapping = map_of
     [(0, ''IP''), (1, ''ICMP''), (2, ''IGMP''), (4, ''IPIP''), (6, ''TCP''), (8, ''EGP''), (12, ''PUP''),
      (17, ''UDP''), (22, ''IDP''), (29, ''TP''), (33, ''DCCP''), (41, ''IPV6''), (46, ''RSVP''), (47, ''GRE''),
      (50, ''ESP''), (51, ''AH''), (92, ''MTP''), (94, ''BEETPH''), (98, ''ENCAP''), (103, ''PIM''),
      (108, ''COMP''), (132, ''SCTP''), (136, ''UDPLITE''), (137, ''MPLS''), (255, ''RAW'')]"

section \<open>The raw socket\<close>

text \<open>\<open>Bind_iface\<close> is the \<^verbatim>\<open>bind\<close> to the interface of that name.\<close>

definition open_raw_sock :: "'d environment \<Rightarrow> (int \<Rightarrow> string) \<Rightarrow> string \<Rightarrow> 'd world \<Rightarrow> int \<times> 'd world" where
  "open_raw_sock env strerror name w =
     (let (r, w) = sys env (Acq Socket_raw) w;
          sock = rv r
      in if sock < 0 then
           (let (_, w) = sys env (Printf Stderr (''Failed to create raw socket'' @ [CHR 0x0A])) w in (- 1, w))
         else
           let (r, w) = sys env (Op (Bind_iface sock name)) w
           in if rv r < 0 then
                (let (_, w) = sys env (Printf Stderr (''Failed to bind to '' @ name @ '': '' @ strerror (rerrno r) @ [CHR 0x0A])) w;
                     (_, w) = sys env (Rel (Close_fd sock)) w
                 in (- 1, w))
              else (sock, w))"

section \<open>Printing\<close>

definition ltoa :: "u32 \<Rightarrow> string" where
  "ltoa addr = snprintf 16
     (dec (unat (drop_bit 24 addr AND 0xFF)) @ ''.'' @ dec (unat (drop_bit 16 addr AND 0xFF)) @ ''.'' @
      dec (unat (drop_bit 8 addr AND 0xFF)) @ ''.'' @ dec (unat (addr AND 0xFF)))"

abbreviation (input) PACKET_HOST :: u32 where "PACKET_HOST \<equiv> 0"

definition tab :: string where "tab = [CHR 0x09]"

definition handle_event_sockfilter ::
  "'d environment \<Rightarrow> endian \<Rightarrow> nat \<Rightarrow> (u32 \<Rightarrow> string option) \<Rightarrow> so_event \<Rightarrow> 'd world \<Rightarrow> outcome \<times> 'd world" where
  "handle_event_sockfilter env en IPPROTO_MAX if_indextoname e w =
     (if so_pkt_type e \<noteq> PACKET_HOST then (Inr 0, w)
      else if ip_proto_of en e \<ge> IPPROTO_MAX then (Inr 0, w)
      else case if_indextoname (so_ifindex e) of
        None \<Rightarrow> (Inr 0, w)
      | Some ifname \<Rightarrow>
        let sstr = ltoa (ntohl en (of_nat (host_num en (so_src_addr e))));
            dstr = ltoa (ntohl en (of_nat (host_num en (so_dst_addr e))));
            sport = ntohs en (of_nat (host_num en (take 2 (so_ports e))));
            dport = ntohs en (of_nat (host_num en (drop 2 (so_ports e))))
        in case ipproto_mapping (ip_proto_of en e) of
             None \<Rightarrow> (Inl Null_string, w)
           | Some name \<Rightarrow>
             let (_, w) = sys env (Printf Stdout (''interface: '' @ ifname @ tab @ ''protocol: '' @ name @ tab @
                   sstr @ '':'' @ dec (unat sport) @ ''(src) -> '' @ dstr @ '':'' @ dec (unat dport) @ ''(dst)'' @ [CHR 0x0A])) w
             in (Inr 0, w))"

section \<open>main\<close>

partial_function (option) poll_sockfilter ::
  "so_event list environment \<Rightarrow> endian \<Rightarrow> nat \<Rightarrow> (u32 \<Rightarrow> string option) \<Rightarrow> int \<Rightarrow> int \<Rightarrow>
   so_event list world \<Rightarrow> (outcome \<times> so_event list world) option" where
  "poll_sockfilter env en pmax ifname ring err w =
     (if exiting w then Some (Inr err, w)
      else
        let (r, w) = sys env (Op (Ring_poll ring 100)) w;
            (d, w) = deliver (handle_event_sockfilter env en pmax ifname) (rdata r) w;
            err = rv r
        in case d of
             Inl u \<Rightarrow> Some (Inl u, w)
           | Inr _ \<Rightarrow>
             if err = - EINTR then Some (Inr 0, w)
             else if err < 0 then
               (let (_, w) = sys env (Printf Stderr (''Error polling perf buffer: '' @ dec_int err @ [CHR 0x0A])) w
                in Some (Inr err, w))
             else
               let (_, w) = sys env (Sleep 1) w
               in poll_sockfilter env en pmax ifname ring err w)"

definition cleanup_sockfilter ::
  "'d environment \<Rightarrow> int \<Rightarrow> int \<Rightarrow> int \<Rightarrow> 'd world \<Rightarrow> outcome \<times> 'd world" where
  "cleanup_sockfilter env ring skel err w =
     (let (_, w) = sys env (Rel (Ring_free ring)) w;
          (_, w) = sys env (Rel (Skel_destroy skel)) w
      in (Inr (- err), w))"

definition run_sockfilter ::
  "so_event list environment \<Rightarrow> endian \<Rightarrow> nat \<Rightarrow> (u32 \<Rightarrow> string option) \<Rightarrow> int \<Rightarrow> int \<Rightarrow> int \<Rightarrow>
   so_event list world \<Rightarrow> (outcome \<times> so_event list world) option" where
  "run_sockfilter env en pmax ifname ring skel err w =
     Option.bind (poll_sockfilter env en pmax ifname ring err w) (\<lambda>(d, w).
       case d of Inl u \<Rightarrow> Some (Inl u, w) | Inr err \<Rightarrow> Some (cleanup_sockfilter env ring skel err w))"

definition main_sockfilter ::
  "so_event list environment \<Rightarrow> endian \<Rightarrow> nat \<Rightarrow> (u32 \<Rightarrow> string option) \<Rightarrow> (int \<Rightarrow> string) \<Rightarrow>
   (int \<times> string) list \<Rightarrow> (outcome \<times> so_event list world) option" where
  "main_sockfilter env en pmax ifname strerror argv =
     (let w = start_world in
      case argp_parse parse_arg_sockfilter argv \<lparr>interface = ''lo''\<rparr> of
        Usage_exit m \<Rightarrow> Some (Inr 64, snd (sys env (Printf Stderr m) w))
      | Parsed err e \<Rightarrow>
        if err \<noteq> 0 then Some (Inr (- err), w)
        else
          let (_, w) = sys env Set_print w;
              (_, w) = sys env (Signal SIGINT) w;
              (_, w) = sys env (Signal SIGTERM) w;
              (r, w) = sys env (Acq Skel_open_and_load) w;
              skel = rv r
          in if skel = 0 then
               (let (_, w) = sys env (Printf Stderr (''Failed to open and load BPF skeleton'' @ [CHR 0x0A])) w
                in Some (Inr 1, w))
             else
               let (r, w) = sys env (Acq (Ring_new skel)) w;
                   ring = rv r
               in if ring = 0 then
                    (let (_, w) = sys env (Printf Stderr (''Failed to create ring buffer'' @ [CHR 0x0A])) w
                     in Some (cleanup_sockfilter env ring skel (- 1) w))
                  else
                    let (sock, w) = open_raw_sock env strerror (interface e) w
                    in if sock < 0 then
                         (let (_, w) = sys env (Printf Stderr (''Failed to open raw socket'' @ [CHR 0x0A])) w
                          in Some (cleanup_sockfilter env ring skel (- 2) w))
                       else
                         let (r, w) = sys env (Op (Attach_socket sock skel)) w
                         in if rv r \<noteq> 0 then
                              (let (_, w) = sys env (Printf Stderr (''Failed to attach to raw socket'' @ [CHR 0x0A])) w
                               in Some (cleanup_sockfilter env ring skel (- 3) w))
                            else run_sockfilter env en pmax ifname ring skel err w)"

section \<open>Addresses\<close>

lemma unat_byte_of: "unat (drop_bit k (x :: u32) AND 0xFF) = unat x div 2 ^ k mod 256"
proof -
  have "drop_bit k x AND 0xFF = take_bit 8 (drop_bit k x)" by (simp add: take_bit_eq_mask mask_numeral)
  then have "unat (drop_bit k x AND 0xFF) = take_bit 8 (drop_bit k (unat x))"
    using unsigned_less [of x, where ?'a = nat]
    by (simp add: unsigned_take_bit_eq unsigned_drop_bit_eq take_bit_nat_eq_self)
  then show ?thesis by (simp add: take_bit_nat_def drop_bit_nat_def)
qed

definition dotted :: "nat list \<Rightarrow> string" where
  "dotted bs = dec (bs ! 0) @ ''.'' @ dec (bs ! 1) @ ''.'' @ dec (bs ! 2) @ ''.'' @ dec (bs ! 3)"

lemma length_dec_byte: "n < 256 \<Longrightarrow> length (dec n) \<le> 3"
  using length_dec_le [of 3 n] by simp

lemma length_dotted:
  assumes "a < 256" "b < 256" "c < 256" "d < 256"
  shows "length (dotted [a, b, c, d]) \<le> 15"
  using assms [THEN length_dec_byte] by (simp add: dotted_def)

lemma ltoa_bytes:
  "ltoa x = dotted [unat x div 2 ^ 24 mod 256, unat x div 2 ^ 16 mod 256, unat x div 2 ^ 8 mod 256, unat x mod 256]"
proof -
  have "ltoa x = snprintf 16 (dotted [unat x div 2 ^ 24 mod 256, unat x div 2 ^ 16 mod 256,
      unat x div 2 ^ 8 mod 256, unat x mod 256])"
    using unat_byte_of [of 24 x] unat_byte_of [of 16 x] unat_byte_of [of 8 x] unat_byte_of [of 0 x]
    by (simp add: ltoa_def dotted_def)
  then show ?thesis by (simp add: snprintf_def length_dotted)
qed

lemma bytes_of_sum:
  fixes a b c d :: nat
  assumes "a < 256" "b < 256" "c < 256" "d < 256"
  defines "n \<equiv> 2 ^ 24 * a + 2 ^ 16 * b + 2 ^ 8 * c + d"
  shows "n div 2 ^ 24 mod 256 = a" "n div 2 ^ 16 mod 256 = b" "n div 2 ^ 8 mod 256 = c" "n mod 256 = d"
proof -
  have "n div 2 ^ 24 = a" by (rule div_nat_eqI) (use assms in simp_all)
  then show "n div 2 ^ 24 mod 256 = a" using assms by simp
  have "n div 2 ^ 16 = 256 * a + b" by (rule div_nat_eqI) (use assms in simp_all)
  then show "n div 2 ^ 16 mod 256 = b" using assms by simp
  have n: "n = 256 * (65536 * a + 256 * b + c) + d" by (simp add: n_def)
  have "n div 2 ^ 8 = 256 * (256 * a + b) + c" by (rule div_nat_eqI) (use assms in simp_all)
  then show "n div 2 ^ 8 mod 256 = c" using assms by (simp only: mod_mult_self4 mod_less)
  show "n mod 256 = d" using assms(4) unfolding n by (simp only: mod_mult_self4 mod_less)
qed

lemma ltoa_network:
  assumes "length bs = 4"
  shows "ltoa (ntohl en (of_nat (host_num en bs))) = dotted (map unat bs)"
proof -
  obtain a b c d where bs: "bs = [a, b, c, d]"
    using assms by (auto simp: numeral_eq_Suc length_Suc_conv)
  have v: "unat (of_nat (of_be bs) :: u32) = 2 ^ 24 * unat a + 2 ^ 16 * unat b + 2 ^ 8 * unat c + unat d"
    using unat_of_be_32 [OF assms] by (simp add: bs of_be_def)
  have "unat x < 256" for x :: u8 using unsigned_less [of x, where ?'a = nat] by simp
  then have "unat a < 256" "unat b < 256" "unat c < 256" "unat d < 256" by blast+
  then have "dotted (map unat bs) = ltoa (of_nat (of_be bs))"
    unfolding ltoa_bytes v by (simp only: bs list.map bytes_of_sum)
  then show ?thesis by (simp add: ntohl_host [OF assms])
qed

lemma dec_dot_inj: "dec m @ CHR ''.'' # s = dec n @ CHR ''.'' # t \<Longrightarrow> m = n \<and> s = t"
proof -
  assume eq: "dec m @ CHR ''.'' # s = dec n @ CHR ''.'' # t"
  have "takeWhile is_digit_char (dec k @ CHR ''.'' # u) = dec k" for k u
    using dec_digits [of _ k] by (subst takeWhile_append2) (auto simp: is_digit_char_def)
  with eq have "dec m = dec n" by metis
  with eq show ?thesis by (simp add: dec_inj)
qed

lemma dotted_inj:
  assumes "dotted [a, b, c, d] = dotted [a', b', c', d']"
  shows "a = a' \<and> b = b' \<and> c = c' \<and> d = d'"
  using assms by (auto simp: dotted_def dest!: dec_dot_inj dec_inj)

lemma base_256:
  fixes n :: nat
  assumes "q1 = 256 * q2 + r1" "q2 = 256 * q3 + r2" "n = 256 * q1 + r0"
  shows "n = 2 ^ 24 * q3 + 2 ^ 16 * r2 + 2 ^ 8 * r1 + r0"
  using assms by simp

lemma u32_of_bytes:
  fixes n :: nat
  assumes "n < 2 ^ 32"
  shows "n = 2 ^ 24 * (n div 2 ^ 24 mod 256) + 2 ^ 16 * (n div 2 ^ 16 mod 256) + 2 ^ 8 * (n div 2 ^ 8 mod 256) + n mod 256"
proof -
  have e: "n div 256 div 256 = n div 65536" "n div 65536 div 256 = n div 16777216"
    by (simp_all add: div_mult2_eq [symmetric])
  have "n div 16777216 < 256"
    using assms by (simp add: div_less_iff_less_mult)
  then have m: "n div 2 ^ 24 mod 256 = n div 16777216" by simp
  have "n div 256 = 256 * (n div 65536) + n div 256 mod 256"
    using mult_div_mod_eq [of 256 "n div 256"] by (simp only: e)
  moreover have "n div 65536 = 256 * (n div 16777216) + n div 65536 mod 256"
    using mult_div_mod_eq [of 256 "n div 65536"] by (simp only: e)
  moreover have "n = 256 * (n div 256) + n mod 256" by (rule mult_div_mod_eq [symmetric])
  ultimately have "n = 2 ^ 24 * (n div 16777216) + 2 ^ 16 * (n div 65536 mod 256) + 2 ^ 8 * (n div 256 mod 256) + n mod 256"
    by (rule base_256)
  then show ?thesis unfolding m by simp
qed

section \<open>What the callback prints\<close>

definition flow_line :: "string \<Rightarrow> string \<Rightarrow> flow \<Rightarrow> string" where
  "flow_line ifname proto f = ''interface: '' @ ifname @ tab @ ''protocol: '' @ proto @ tab @
     dotted (map unat (fl_src f)) @ '':'' @ dec (fl_sport f) @ ''(src) -> '' @
     dotted (map unat (fl_dst f)) @ '':'' @ dec (fl_dport f) @ ''(dst)'' @ [CHR 0x0A]"

text \<open>What a flow shows: nothing, a line, or (the outer \<^term>\<open>None\<close>) a \<^verbatim>\<open>NULL\<close> passed to \<^verbatim>\<open>%s\<close>.\<close>

definition flow_output :: "nat \<Rightarrow> (u32 \<Rightarrow> string option) \<Rightarrow> flow \<Rightarrow> string option" where
  "flow_output pmax ifname f =
     (if fl_type f \<noteq> PACKET_HOST \<or> pmax \<le> fl_proto f then Some []
      else case ifname (fl_ifindex f) of
        None \<Rightarrow> Some []
      | Some i \<Rightarrow> map_option (\<lambda>p. flow_line i p f) (ipproto_mapping (fl_proto f)))"

lemma handle_event_flow:
  assumes "so_layout e"
  shows "case flow_output pmax ifname (flow_of en e) of
      None \<Rightarrow> fst (handle_event_sockfilter env en pmax ifname e w) = Inl Null_string \<and>
        printed Stdout (hist (snd (handle_event_sockfilter env en pmax ifname e w))) = printed Stdout (hist w)
    | Some out \<Rightarrow> fst (handle_event_sockfilter env en pmax ifname e w) = Inr 0 \<and>
        printed Stdout (hist (snd (handle_event_sockfilter env en pmax ifname e w))) = printed Stdout (hist w) @ out"
proof -
  note l = so_layoutD [OF assms]
  have p: "unat (ntohs en (of_nat (host_num en (take 2 (so_ports e))))) = of_be (take 2 (so_ports e))"
    "unat (ntohs en (of_nat (host_num en (drop 2 (so_ports e))))) = of_be (drop 2 (so_ports e))"
    using l by (simp_all add: ntohs_host unat_of_be_16)
  show ?thesis
    by (auto simp: flow_output_def handle_event_sockfilter_def flow_of_def flow_line_def Let_def case_prod_beta p
        ltoa_network l split: option.splits)
qed

lemma holds_handle_event_sockfilter [owned]:
  "holds (snd (handle_event_sockfilter env en pmax ifname e w)) = holds w"
  by (auto simp: handle_event_sockfilter_def Let_def case_prod_beta owned split: option.splits)

lemma extends_handle_event_sockfilter: "extends w (snd (handle_event_sockfilter env en pmax ifname e w))"
  by (auto simp: handle_event_sockfilter_def Let_def case_prod_beta split: option.splits)

lemma handle_event_named:
  assumes "flow_output pmax ifname (flow_of en e) \<noteq> None"
  shows "fst (handle_event_sockfilter env en pmax ifname e w) = Inr 0"
  using assms by (auto simp: flow_output_def flow_of_def handle_event_sockfilter_def Let_def case_prod_beta
      split: option.splits if_splits)

section \<open>Resources and termination of main\<close>

text \<open>The sockets the program was asked to be attached to, in the order of the calls.\<close>

fun attach_target :: "call \<Rightarrow> int list" where
  "attach_target (Op (Attach_socket sock prog)) = [sock]"
| "attach_target _ = []"

definition attach_sockets :: "'d history \<Rightarrow> int list" where
  "attach_sockets h = concat (map (\<lambda>(c, r). attach_target c) h)"

lemma attach_sockets_sys [simp]:
  "attach_sockets (hist (snd (sys env c w))) = attach_sockets (hist w) @ attach_target c"
  "attach_sockets (hist start_world) = []"
  by (simp_all add: attach_sockets_def sys_hist start_world_def)

lemma attach_sockets_handle_event [simp]:
  "attach_sockets (hist (snd (handle_event_sockfilter env en pmax ifname e w))) = attach_sockets (hist w)"
  by (auto simp: handle_event_sockfilter_def Let_def case_prod_beta split: option.splits)

lemma attach_sockets_deliver [simp]:
  "attach_sockets (hist (snd (deliver (handle_event_sockfilter env en pmax ifname) es w))) = attach_sockets (hist w)"
  by (rule deliver_keeps [where f = "\<lambda>w. attach_sockets (hist w)"]) simp

lemma attach_sockets_poll:
  assumes "poll_sockfilter env en pmax ifname ring err w = Some (d, w')"
  shows "attach_sockets (hist w') = attach_sockets (hist w)"
proof -
  have "attach_sockets (hist (snd (d, w'))) = attach_sockets (hist w)"
  proof (rule poll_sockfilter.raw_induct [where P = "\<lambda>env en pmax ifname ring err w r.
      attach_sockets (hist (snd r)) = attach_sockets (hist w)", OF _ assms(1)], goal_cases)
    case (1 f env en pmax ifname ring err w r)
    then show ?case by (cases r) (auto simp: Let_def case_prod_beta split: if_splits sum.splits)
  qed
  then show ?thesis by simp
qed

lemma attach_sockets_cleanup [simp]:
  "attach_sockets (hist (snd (cleanup_sockfilter env ring skel err w))) = attach_sockets (hist w)"
  by (simp add: cleanup_sockfilter_def Let_def case_prod_beta)

lemma attach_sockets_open [simp]:
  "attach_sockets (hist (snd (open_raw_sock env strerror name w))) = attach_sockets (hist w)"
  by (simp add: open_raw_sock_def Let_def case_prod_beta)

lemma poll_sockfilter_holds:
  assumes "poll_sockfilter env en pmax ifname ring err w = Some (d, w')"
    and "holds w = Some h" and "H_ring ring \<in> set h"
  shows "holds w' = Some h"
proof -
  have "holds w = Some h \<longrightarrow> H_ring ring \<in> set h \<longrightarrow> holds (snd (d, w')) = Some h"
  proof (rule poll_sockfilter.raw_induct [where P = "\<lambda>env en pmax ifname ring err w r. holds w = Some h \<longrightarrow>
      H_ring ring \<in> set h \<longrightarrow> holds (snd r) = Some h", OF _ assms(1)], goal_cases)
    case (1 f env en pmax ifname ring err w r)
    then show ?case
      by (auto simp: Let_def case_prod_beta holds_deliver owned split: if_splits sum.splits)
  qed
  with assms show ?thesis by simp
qed

lemma run_sockfilter_holds:
  assumes "run_sockfilter env en pmax ifname ring skel err w = Some (Inr status, w')"
    and "holds w = Some [H_fd sock, H_ring ring, H_skel skel]" and "ring \<noteq> 0" and "skel \<noteq> 0"
  shows "holds w' = Some [H_fd sock]"
proof -
  from assms(1) obtain d v where p: "poll_sockfilter env en pmax ifname ring err w = Some (d, v)"
    and w': "(case d of Inl u \<Rightarrow> Some (Inl u, v) | Inr err \<Rightarrow> Some (cleanup_sockfilter env ring skel err v)) = Some (Inr status, w')"
    by (auto simp: run_sockfilter_def Option.bind_eq_Some_conv)
  have "holds v = Some [H_fd sock, H_ring ring, H_skel skel]"
    using p assms(2) by (rule poll_sockfilter_holds) simp
  with w' assms(3,4) show ?thesis
    by (auto simp: cleanup_sockfilter_def Let_def case_prod_beta owned split: sum.splits)
qed

lemma run_sockfilter_leaves:
  assumes "run_sockfilter env en pmax ifname ring skel err w = Some (Inr status, w')"
    and "holds w = Some [H_fd sock, H_ring ring, H_skel skel]" and "ring \<noteq> 0" and "skel \<noteq> 0"
  shows "holds w' = Some [H_fd sock] \<and> attach_sockets (hist w') = attach_sockets (hist w)"
proof -
  from assms(1) obtain err' v where "poll_sockfilter env en pmax ifname ring err w = Some (Inr err', v)"
    and "cleanup_sockfilter env ring skel err' v = (Inr status, w')"
    by (cases "poll_sockfilter env en pmax ifname ring err w") (auto simp: run_sockfilter_def split: sum.splits)
  then have "attach_sockets (hist w') = attach_sockets (hist w)"
    using attach_sockets_poll attach_sockets_cleanup [of env ring skel err' v] by fastforce
  with run_sockfilter_holds [OF assms] show ?thesis by simp
qed

text \<open>The socket that \<^verbatim>\<open>open_raw_sock\<close> returns is held, and nothing is after a failure.\<close>

lemma open_raw_sock_holds:
  assumes "holds w = Some h"
  shows "holds (snd (open_raw_sock env strerror name w)) =
    Some (if fst (open_raw_sock env strerror name w) < 0 then h else H_fd (fst (open_raw_sock env strerror name w)) # h)"
  using assms by (auto simp: open_raw_sock_def Let_def case_prod_beta owned)

text \<open>The sockets a run got from the kernel and bound.\<close>

definition raw_socket_only :: "handle list \<Rightarrow> bool" where
  "raw_socket_only h \<longleftrightarrow> h = [] \<or> (\<exists>sock. h = [H_fd sock])"

interpretation sockfilter: accountable_program "\<lambda>env. main_sockfilter env en pmax ifname strerror argv" raw_socket_only
  for en pmax ifname strerror argv
proof unfold_locales
  fix env status w
  assume "main_sockfilter env en pmax ifname strerror argv = Some (Inr status, w)"
  then show "\<exists>h. holds w = Some h \<and> raw_socket_only h"
    by (auto simp: main_sockfilter_def cleanup_sockfilter_def Let_def case_prod_beta owned open_raw_sock_holds
        raw_socket_only_def dest!: run_sockfilter_holds split: if_splits parse_result.splits)
qed

lemma poll_sockfilter_returns:
  assumes "signalled_from n env"
  shows "poll_sockfilter env en pmax ifname ring err w \<noteq> None"
proof (rule signalled_loop [OF assms, where loop = "poll_sockfilter env en pmax ifname ring"])
  show "poll_sockfilter env en pmax ifname ring x w \<noteq> None" if "exiting w" for x w
    using that by (subst poll_sockfilter.simps) simp
next
  fix x and w :: "so_event list world" assume ne: "\<not> exiting w"
  let ?w = "snd (sys env (Op (Ring_poll ring 100)) w)"
  let ?r = "fst (sys env (Op (Ring_poll ring 100)) w)"
  let ?d = "deliver (handle_event_sockfilter env en pmax ifname) (rdata ?r) ?w"
  let ?v = "snd (sys env (Sleep 1) (snd ?d))"
  have "extends ?w ?v"
    by (rule extends_sysI, rule extends_deliver) (rule extends_handle_event_sockfilter)
  moreover have "poll_sockfilter env en pmax ifname ring x w \<noteq> None \<or>
      poll_sockfilter env en pmax ifname ring x w = poll_sockfilter env en pmax ifname ring (rv ?r) ?v"
    using ne poll_sockfilter.simps [of env en pmax ifname ring x w]
    by (auto simp: Let_def case_prod_beta split: sum.splits)
  ultimately show "poll_sockfilter env en pmax ifname ring x w \<noteq> None \<or>
      (\<exists>c x' w'. extends (snd (sys env c w)) w' \<and>
        poll_sockfilter env en pmax ifname ring x w = poll_sockfilter env en pmax ifname ring x' w')"
    by blast
qed

text \<open>
  The callback passes \<^verbatim>\<open>NULL\<close> to \<^verbatim>\<open>printf\<close> for a protocol without a name; libbpf hands over
  records without that defect when every protocol that occurs is named.
\<close>

definition named_polls :: "endian \<Rightarrow> nat \<Rightarrow> (u32 \<Rightarrow> string option) \<Rightarrow> so_event list environment \<Rightarrow> bool" where
  "named_polls en pmax ifname env \<longleftrightarrow>
     (\<forall>h c. list_all (\<lambda>e. flow_output pmax ifname (flow_of en e) \<noteq> None) (rdata (env h c)))"

lemma poll_sockfilter_normal:
  assumes "poll_sockfilter env en pmax ifname ring err w = Some (d, w')" and "named_polls en pmax ifname env"
  shows "\<exists>n. d = Inr n"
proof -
  have "named_polls en pmax ifname env \<longrightarrow> (\<exists>n. fst (d, w') = Inr n)"
  proof (rule poll_sockfilter.raw_induct [where P = "\<lambda>env en pmax ifname ring err w r.
      named_polls en pmax ifname env \<longrightarrow> (\<exists>n. fst r = Inr n)", OF _ assms(1)], goal_cases)
    case (1 f env en pmax ifname ring err w r)
    have "fst (deliver (handle_event_sockfilter env en pmax ifname) (rdata (fst (sys env c v))) u) = Inr 0"
      if "named_polls en pmax ifname env" for c v u
      using that unfolding named_polls_def list_all_iff sys_answer
      by (intro deliver_safe) (metis handle_event_named)
    with 1 show ?case by (cases r) (auto simp: Let_def case_prod_beta split: if_splits)
  qed
  with assms(2) show ?thesis by simp
qed

lemma cleanup_sockfilter_normal [simp]: "\<exists>s w'. cleanup_sockfilter env ring skel err w = (Inr s, w')"
  by (simp add: cleanup_sockfilter_def Let_def case_prod_beta)

lemma run_sockfilter_ends:
  assumes "signalled_from n env" and "named_polls en pmax ifname env"
  shows "\<exists>s w'. run_sockfilter env en pmax ifname ring skel err w = Some (Inr s, w')"
proof -
  obtain d v where "poll_sockfilter env en pmax ifname ring err w = Some (d, v)"
    using poll_sockfilter_returns [OF assms(1), of en pmax ifname ring err w] by auto
  with poll_sockfilter_normal [OF this assms(2)] show ?thesis by (auto simp: run_sockfilter_def)
qed

section \<open>Properties\<close>

text \<open>
  C31. \<^verbatim>\<open>ltoa\<close> prints an address in full as its four bytes in decimal, the most significant first,
  separated by dots: the 15 characters that fit the buffer beside the terminator are always enough
  and nothing is cut off. Different addresses print differently.
\<close>

theorem ltoa_faithful:
  "ltoa x = dotted [unat x div 2 ^ 24 mod 256, unat x div 2 ^ 16 mod 256, unat x div 2 ^ 8 mod 256, unat x mod 256] \<and>
   length (ltoa x) \<le> 15 \<and> (ltoa x = ltoa y \<longleftrightarrow> x = y)"
proof (intro conjI)
  show "ltoa x = dotted [unat x div 2 ^ 24 mod 256, unat x div 2 ^ 16 mod 256, unat x div 2 ^ 8 mod 256, unat x mod 256]"
    by (rule ltoa_bytes)
  show "length (ltoa x) \<le> 15" by (simp add: ltoa_def snprintf_def)
  have "unat z < 2 ^ 32" for z :: u32 using unsigned_less [of z, where ?'a = nat] by simp
  then have "unat x = unat y" if "ltoa x = ltoa y"
    using that u32_of_bytes [of "unat x"] u32_of_bytes [of "unat y"] unfolding ltoa_bytes
    by (auto dest!: dotted_inj)
  then show "ltoa x = ltoa y \<longleftrightarrow> x = y" by (auto dest: word_unat_eq_iff [THEN iffD2])
qed

text \<open>
  C32. When \<^verbatim>\<open>main\<close> returns it has destroyed the skeleton and freed the ring buffer manager on
  every path and has misused no handle before; the only thing it may still hold is the raw socket.
\<close>

theorem main_sockfilter_accounts:
  assumes "main_sockfilter env en pmax ifname strerror argv = Some (Inr status, w)"
  shows "(\<exists>h. holds w = Some h \<and> raw_socket_only h) \<and> (\<forall>n. ledger (take n (hist w)) [] \<noteq> None)"
  using sockfilter.held_allowed [OF assms] sockfilter.never_misused [OF assms] by simp

definition sockfilter_answer :: "call \<Rightarrow> int" where
  "sockfilter_answer c = (case c of Acq Skel_open_and_load \<Rightarrow> 1 | Acq (Ring_new p) \<Rightarrow> 2 | Acq Socket_raw \<Rightarrow> 3
     | Op (Ring_poll p t) \<Rightarrow> 5 | _ \<Rightarrow> 0)"

abbreviation sockfilter_demo :: "so_event list environment" where
  "sockfilter_demo \<equiv> scripted_signal sockfilter_answer (\<lambda>c. c = Sleep 1) []"

lemma sockfilter_demo_run:
  "\<exists>w. main_sockfilter sockfilter_demo LE 256 (\<lambda>_. None) (\<lambda>_. []) [] = Some (Inr (- 5), w) \<and> holds w = Some [H_fd 3]"
  by (simp add: main_sockfilter_def run_sockfilter_def open_raw_sock_def cleanup_sockfilter_def Let_def case_prod_beta
      sys_def scripted_signal_def sockfilter_answer_def poll_sockfilter.simps start_world_def sig_handler_def
      holds_def ledger_step_def owned)

theorem main_sockfilter_accounts_witness:
  "\<exists>w. main_sockfilter sockfilter_demo LE 256 (\<lambda>_. None) (\<lambda>_. []) [] = Some (Inr (- 5), w) \<and>
     (\<exists>h. holds w = Some h \<and> raw_socket_only h) \<and> (\<forall>n. ledger (take n (hist w)) [] \<noteq> None)"
proof -
  obtain w where w: "main_sockfilter sockfilter_demo LE 256 (\<lambda>_. None) (\<lambda>_. []) [] = Some (Inr (- 5), w)"
    using sockfilter_demo_run by blast
  from main_sockfilter_accounts [OF w] w show ?thesis by blast
qed

text \<open>
  C33. The raw socket is never closed once it is open: in every environment, what \<^verbatim>\<open>main\<close> still
  holds when it returns is exactly the socket it tried to attach the program to, and nothing when
  it did not get that far.
\<close>

theorem main_sockfilter_leaks_socket:
  assumes "main_sockfilter env en pmax ifname strerror argv = Some (Inr status, w)"
  shows "holds w = Some (map H_fd (attach_sockets (hist w)))"
  using assms
  by (auto simp: main_sockfilter_def cleanup_sockfilter_def Let_def case_prod_beta owned open_raw_sock_holds
      dest!: run_sockfilter_leaves split: if_splits parse_result.splits)

theorem main_sockfilter_leaks_socket_witness:
  "\<exists>w. main_sockfilter sockfilter_demo LE 256 (\<lambda>_. None) (\<lambda>_. []) [] = Some (Inr (- 5), w) \<and>
     holds w = Some (map H_fd (attach_sockets (hist w))) \<and> attach_sockets (hist w) = [3]"
proof -
  obtain w where w: "main_sockfilter sockfilter_demo LE 256 (\<lambda>_. None) (\<lambda>_. []) [] = Some (Inr (- 5), w)"
    "holds w = Some [H_fd 3]" using sockfilter_demo_run by blast
  from main_sockfilter_leaks_socket [OF w(1)] w show ?thesis by auto
qed

text \<open>
  C34. If Ctrl-C is pressed from some point on and no record that arrives makes the callback print
  a protocol without a name, \<^verbatim>\<open>main\<close> of \<^verbatim>\<open>sockfilter\<close> returns an exit status, and then holds
  at most the raw socket.
\<close>

theorem main_sockfilter_returns:
  assumes "signalled_from n env" and "named_polls en pmax ifname env"
  shows "\<exists>status w h. main_sockfilter env en pmax ifname strerror argv = Some (Inr status, w) \<and>
     holds w = Some h \<and> raw_socket_only h"
proof -
  have "\<exists>status w. main_sockfilter env en pmax ifname strerror argv = Some (Inr status, w)"
    by (simp add: main_sockfilter_def Let_def case_prod_beta run_sockfilter_ends [OF assms] split: parse_result.split)
  then show ?thesis using sockfilter.held_allowed by blast
qed

theorem main_sockfilter_returns_witness:
  "\<exists>status w h. main_sockfilter (ctrl_c (\<lambda>_. 1) [zero_slot] 20) LE 256 (\<lambda>_. Some ''lo'') (\<lambda>_. []) [] = Some (Inr status, w) \<and>
     holds w = Some h \<and> raw_socket_only h"
  by (rule main_sockfilter_returns [OF signalled_ctrl_c])
     (simp add: named_polls_def ctrl_c_def zero_slot_def flow_output_def flow_of_def ip_proto_of_def ipproto_mapping_def)

end
