(* ===== verification/Profile_Bpf.thy ===== *)
theory Profile_Bpf
  imports Bpf_Kernel
begin

text \<open>
  The kernel half of \<^verbatim>\<open>profile\<close>: \<^verbatim>\<open>profile.h\<close> and \<^verbatim>\<open>profile.bpf.c\<close>. A perf
  event samples the running task; the program sends both stacks to user space.
\<close>

section \<open>Data\<close>

abbreviation (input) MAX_STACK_DEPTH :: nat where "MAX_STACK_DEPTH \<equiv> 128"
abbreviation (input) sizeof_stack_trace :: nat where "sizeof_stack_trace \<equiv> 1024"
abbreviation (input) sizeof_stacktrace_event :: nat where "sizeof_stacktrace_event \<equiv> 2080"

record stacktrace_event =
  st_pid :: u32
  st_cpu_id :: u32
  st_comm :: bytes
  st_kstack_sz :: int
  st_ustack_sz :: int
  st_kstack :: "u64 list"
  st_ustack :: "u64 list"

definition stacktrace_layout :: "stacktrace_event \<Rightarrow> bool" where
  "stacktrace_layout e \<longleftrightarrow> length (st_comm e) = 16 \<and> length (st_kstack e) = MAX_STACK_DEPTH \<and>
     length (st_ustack e) = MAX_STACK_DEPTH"

text \<open>
  One invocation: the helpers' results. \<open>pe_get_stack user size buf\<close> returns the number of bytes
  of the trace (or an error) and the buffer after the call.
\<close>

record perf_ctx =
  pe_pid_tgid :: u64
  pe_cpu :: u32
  pe_comm :: comm_helper
  pe_get_stack :: "bool \<Rightarrow> nat \<Rightarrow> u64 list \<Rightarrow> int \<times> u64 list"

section \<open>The program\<close>

definition profile ::
  "('r, stacktrace_event) ringbuf_ops \<Rightarrow> perf_ctx \<Rightarrow> 'r \<Rightarrow> int \<times> 'r" where
  "profile rops ctx r =
     (let pid = tgid_of (pe_pid_tgid ctx);
          cpu_id = pe_cpu ctx
      in case ringbuf_reserve rops r sizeof_stacktrace_event of
           (None, r) \<Rightarrow> (1, r)
         | (Some event, r) \<Rightarrow>
           let event = event\<lparr>st_pid := pid\<rparr>;
               event = event\<lparr>st_cpu_id := cpu_id\<rparr>;
               (c, comm) = pe_comm ctx 16;
               event = event\<lparr>st_comm := comm\<rparr>;
               event = (if c \<noteq> 0 then event\<lparr>st_comm := (st_comm event)[0 := 0]\<rparr> else event);
               (sz, stack) = pe_get_stack ctx False sizeof_stack_trace (st_kstack event);
               event = event\<lparr>st_kstack := stack, st_kstack_sz := to_int32 sz\<rparr>;
               (sz, stack) = pe_get_stack ctx True sizeof_stack_trace (st_ustack event);
               event = event\<lparr>st_ustack := stack, st_ustack_sz := to_int32 sz\<rparr>
           in (0, ringbuf_submit rops r event))"

section \<open>What user space may rely on\<close>

text \<open>
  \<^verbatim>\<open>bpf_get_stack\<close> fills the buffer it is given and returns at most its size, in bytes;
  \<^verbatim>\<open>bpf_get_current_comm\<close> terminates the name when it succeeds.
\<close>

definition get_stack_doc :: "perf_ctx \<Rightarrow> bool" where
  "get_stack_doc ctx \<longleftrightarrow> (\<forall>user buf n. n = 8 * length buf \<longrightarrow>
     - 4096 < fst (pe_get_stack ctx user n buf) \<and> fst (pe_get_stack ctx user n buf) \<le> int n \<and>
     length (snd (pe_get_stack ctx user n buf)) = length buf)"

definition comm_filled :: "perf_ctx \<Rightarrow> bool" where
  "comm_filled ctx \<longleftrightarrow> length (snd (pe_comm ctx 16)) = 16 \<and>
     (fst (pe_comm ctx 16) = 0 \<longrightarrow> 0 \<in> set (snd (pe_comm ctx 16)))"

definition stacktrace_ok :: "stacktrace_event \<Rightarrow> bool" where
  "stacktrace_ok e \<longleftrightarrow> stacktrace_layout e \<and> 0 \<in> set (st_comm e) \<and>
     st_kstack_sz e \<le> int sizeof_stack_trace \<and> st_ustack_sz e \<le> int sizeof_stack_trace"

fun profile_run where
  "profile_run rops [] r = r"
| "profile_run rops (ctx # ctxs) r = profile_run rops ctxs (snd (profile rops ctx r))"

locale profiler = bpf_ringbuf rops stacktrace_layout sizeof_stacktrace_event
  for rops :: "('r, stacktrace_event) ringbuf_ops"
begin

lemma sample_ok:
  assumes doc: "get_stack_doc ctx" "comm_filled ctx"
    and "list_all stacktrace_ok (ringbuf_records rops r)"
  shows "list_all stacktrace_ok (ringbuf_records rops (snd (profile rops ctx r)))"
proof (cases "ringbuf_reserve rops r sizeof_stacktrace_event")
  case (Pair slot r')
  show ?thesis
  proof (cases slot)
    case None
    with Pair assms(3) reserve_none [of r r'] show ?thesis by (simp add: profile_def Let_def)
  next
    case (Some e)
    let ?k = "pe_get_stack ctx False sizeof_stack_trace (st_kstack e)"
    let ?u = "pe_get_stack ctx True sizeof_stack_trace (st_ustack e)"
    let ?c = "snd (pe_comm ctx 16)"
    let ?comm = "if fst (pe_comm ctx 16) \<noteq> 0 then ?c[0 := 0] else ?c"
    let ?e = "\<lparr>st_pid = tgid_of (pe_pid_tgid ctx), st_cpu_id = pe_cpu ctx, st_comm = ?comm,
      st_kstack_sz = to_int32 (fst ?k), st_ustack_sz = to_int32 (fst ?u), st_kstack = snd ?k, st_ustack = snd ?u\<rparr>"
    have lay: "stacktrace_layout e" using Pair Some reserve_layout by blast
    then have bounds: "- 4096 < fst ?k" "fst ?k \<le> 1024" "length (snd ?k) = 128"
      "- 4096 < fst ?u" "fst ?u \<le> 1024" "length (snd ?u) = 128"
      using doc(1) [unfolded get_stack_doc_def, rule_format, of 1024 "st_kstack e" False]
        doc(1) [unfolded get_stack_doc_def, rule_format, of 1024 "st_ustack e" True]
      by (simp_all add: stacktrace_layout_def)
    then have sz: "to_int32 (fst ?k) = fst ?k" "to_int32 (fst ?u) = fst ?u"
      by (simp_all add: to_int32_id int_in_range_def)
    have "0 \<in> set ?comm \<and> length ?comm = 16"
      using doc(2) by (auto simp: comm_filled_def set_update_memI)
    then have "stacktrace_ok ?e"
      unfolding stacktrace_ok_def stacktrace_layout_def using bounds sz by simp
    moreover have "snd (profile rops ctx r) = ringbuf_submit rops r' ?e"
      using Pair Some by (auto simp: profile_def Let_def case_prod_beta intro!: arg_cong [where f = "ringbuf_submit rops r'"])
    ultimately show ?thesis using assms(3) Pair Some submit [of r e r' ?e] by simp
  qed
qed

lemma run_ok:
  assumes "list_all (\<lambda>ctx. get_stack_doc ctx \<and> comm_filled ctx) ctxs"
    and "list_all stacktrace_ok (ringbuf_records rops r)"
  shows "list_all stacktrace_ok (ringbuf_records rops (profile_run rops ctxs r))"
  using assms by (induction ctxs arbitrary: r) (simp_all add: sample_ok)

end

definition blank_trace :: stacktrace_event where
  "blank_trace = \<lparr>st_pid = 0, st_cpu_id = 0, st_comm = replicate 16 0xAA, st_kstack_sz = 9999, st_ustack_sz = 9999,
     st_kstack = replicate MAX_STACK_DEPTH 0, st_ustack = replicate MAX_STACK_DEPTH 0\<rparr>"

lemma kernel_trace_ringbuf: "bpf_ringbuf_cap (kernel_ringbuf cap blank_trace) stacktrace_layout sz cap"
  by (rule kernel_ringbuf_law [where layout = stacktrace_layout]) (simp add: stacktrace_layout_def blank_trace_def)

interpretation kernel_profiler: profiler "kernel_ringbuf capacity blank_trace" for capacity
  by (rule profiler.intro) (rule bpf_ringbuf_cap.axioms(1) [OF kernel_trace_ringbuf])

end
