(* ===== verification/Profile.thy ===== *)
theory Profile
  imports Profile_Bpf User_World "HOL-Library.Multiset"
begin

text \<open>
  The user-space half of \<^verbatim>\<open>profile\<close>, \<^verbatim>\<open>profile.c\<close>. The symbolizer (blazesym) is a
  record of functions; the list of options that \<^verbatim>\<open>getopt_long\<close> finds is an argument.
\<close>

section \<open>Symbols\<close>

record code_info =
  ci_dir :: "string option"
  ci_file :: "string option"
  ci_line :: u32

record inlined_fn =
  in_name :: string
  in_code :: code_info

record blaze_sym =
  sym_name :: "string option"
  sym_addr :: u64
  sym_offset :: u64
  sym_code :: code_info
  sym_inlined :: "inlined_fn list"

record symbolizer_ops =
  symbolize_process :: "u32 \<Rightarrow> u64 list \<Rightarrow> blaze_sym list option"
  symbolize_kernel :: "u64 list \<Rightarrow> blaze_sym list option"
  symbolize_error :: string

text \<open>The data that answers carry: the records of a poll and the mask of the CPUs that are online.\<close>

record profile_data =
  pd_events :: "stacktrace_event list"
  pd_mask :: "bool list"

type_synonym penv = "profile_data environment"
type_synonym pworld = "profile_data world"

section \<open>Printing\<close>

definition nl :: string where "nl = [CHR 0x0A]"

definition ptr16 :: "u64 \<Rightarrow> string" where "ptr16 a = zero_pad 16 (hex (unat a))"

definition emit :: "'d environment \<Rightarrow> string \<Rightarrow> 'd world \<Rightarrow> 'd world" where
  "emit env s w = snd (sys env (Printf Stdout s) w)"

definition print_frame ::
  "'d environment \<Rightarrow> string \<Rightarrow> u64 \<Rightarrow> u64 \<Rightarrow> u64 \<Rightarrow> code_info \<Rightarrow> 'd world \<Rightarrow> 'd world" where
  "print_frame env name input_addr addr offset code_info w =
     (if input_addr \<noteq> 0 then
        let w = emit env (ptr16 input_addr @ '': '' @ name @ '' @ 0x'' @ hex (unat addr) @ ''+0x'' @ hex (unat offset)) w
        in case (ci_dir code_info, ci_file code_info) of
             (Some dir, Some file) \<Rightarrow> emit env ('' '' @ dir @ ''/'' @ file @ '':'' @ dec (unat (ci_line code_info)) @ nl) w
           | (None, Some file) \<Rightarrow> emit env ('' '' @ file @ '':'' @ dec (unat (ci_line code_info)) @ nl) w
           | _ \<Rightarrow> emit env nl w
      else
        let w = emit env (replicate 16 (CHR '' '') @ ''  '' @ name) w
        in case (ci_dir code_info, ci_file code_info) of
             (Some dir, Some file) \<Rightarrow> emit env (''@ '' @ dir @ ''/'' @ file @ '':'' @ dec (unat (ci_line code_info)) @ '' [inlined]'' @ nl) w
           | (None, Some file) \<Rightarrow> emit env (''@ '' @ file @ '':'' @ dec (unat (ci_line code_info)) @ '' [inlined]'' @ nl) w
           | _ \<Rightarrow> emit env (''[inlined]'' @ nl) w)"

definition show_frame ::
  "'d environment \<Rightarrow> u64 list \<Rightarrow> blaze_sym list \<Rightarrow> nat \<Rightarrow> 'd world \<Rightarrow> outcome \<times> 'd world" where
  "show_frame env stack syms i w =
     (if length stack \<le> i then (Inl Overread, w)
      else if length syms \<le> i then (Inr 0, emit env (ptr16 (stack ! i) @ '': <no-symbol>'' @ nl) w)
      else case sym_name (syms ! i) of
        None \<Rightarrow> (Inr 0, emit env (ptr16 (stack ! i) @ '': <no-symbol>'' @ nl) w)
      | Some name \<Rightarrow>
        let sym = syms ! i;
            w = print_frame env name (stack ! i) (sym_addr sym) (sym_offset sym) (sym_code sym) w
        in (Inr 0, fold (\<lambda>inl w. print_frame env (in_name inl) 0 0 0 (in_code inl) w) (sym_inlined sym) w))"

definition show_stack_trace ::
  "'d environment \<Rightarrow> symbolizer_ops \<Rightarrow> u64 list \<Rightarrow> nat \<Rightarrow> u32 \<Rightarrow> 'd world \<Rightarrow> outcome \<times> 'd world" where
  "show_stack_trace env ops stack stack_sz pid w =
     (if length stack < stack_sz then (Inl Overread, w)
      else
        case (if pid \<noteq> 0 then symbolize_process ops pid (take stack_sz stack)
              else symbolize_kernel ops (take stack_sz stack)) of
          None \<Rightarrow> (Inr 0, emit env (''  failed to symbolize addresses: '' @ symbolize_error ops @ nl) w)
        | Some syms \<Rightarrow>
          let (_, w) = sys env (Acq Symbolize) w;
              (d, w) = deliver (show_frame env stack syms) [0..<stack_sz] w
          in case d of
               Inl u \<Rightarrow> (Inl u, w)
             | Inr n \<Rightarrow> let (_, w) = sys env (Rel Syms_free) w in (Inr n, w))"

definition event_handler ::
  "'d environment \<Rightarrow> symbolizer_ops \<Rightarrow> stacktrace_event \<Rightarrow> 'd world \<Rightarrow> outcome \<times> 'd world" where
  "event_handler env ops e w =
     (if st_kstack_sz e \<le> 0 \<and> st_ustack_sz e \<le> 0 then (Inr 1, w)
      else case c_str (st_comm e) of
        None \<Rightarrow> (Inl Overread, w)
      | Some comm \<Rightarrow>
        let w = emit env (''COMM: '' @ comm @ '' (pid='' @ dec_int (sint (st_pid e)) @ '') @ CPU '' @ dec_int (sint (st_cpu_id e)) @ nl) w;
            (d, w) = (if st_kstack_sz e > 0
                      then show_stack_trace env ops (st_kstack e) (nat (st_kstack_sz e) div 8) 0 (emit env (''Kernel:'' @ nl) w)
                      else (Inr 0, emit env (''No Kernel Stack'' @ nl) w))
        in case d of
             Inl u \<Rightarrow> (Inl u, w)
           | Inr _ \<Rightarrow>
             let (d, w) = (if st_ustack_sz e > 0
                      then show_stack_trace env ops (st_ustack e) (nat (st_ustack_sz e) div 8) (st_pid e) (emit env (''Userspace:'' @ nl) w)
                      else (Inr 0, emit env (''No Userspace Stack'' @ nl) w))
             in case d of Inl u \<Rightarrow> (Inl u, w) | Inr _ \<Rightarrow> (Inr 0, emit env nl w))"

definition show_help :: "'d environment \<Rightarrow> string \<Rightarrow> 'd world \<Rightarrow> 'd world" where
  "show_help env progname w =
     (let w = emit env (''Usage: '' @ progname @ '' [-f <frequency>] [--sw-event] [-h]'' @ nl) w;
          w = emit env (''Options:'' @ nl) w;
          w = emit env (''  -f <frequency>  Sampling frequency [default: 1]'' @ nl) w;
          w = emit env (''  --sw-event      Use software event for triggering stack trace capture'' @ nl) w
      in emit env (''  -h              Print help'' @ nl) w)"

section \<open>main\<close>

text \<open>The options: sampling frequency and kind of event, or \<^term>\<open>None\<close> for the help text.\<close>

fun getopt_profile :: "(int \<times> string) list \<Rightarrow> int \<times> bool \<Rightarrow> (int \<times> bool) option" where
  "getopt_profile [] c = Some c"
| "getopt_profile ((k, optarg) # ks) (freq, sw) =
     (if k = of_char (CHR ''f'') then
        (let freq = atoi optarg in getopt_profile ks (if freq < 1 then 1 else freq, sw))
      else if k = of_char (CHR ''s'') then getopt_profile ks (freq, True)
      else None)"

text \<open>The variables that the cleanup looks at; the two arrays together with their addresses.\<close>

record prof =
  links_p :: int
  links :: "int list"
  pefds_p :: int
  pefds :: "int list"
  ring_buf :: int
  skel :: int
  symbolizer :: int
  online_mask :: int

definition cleanup_profile :: "'d environment \<Rightarrow> prof \<Rightarrow> int \<Rightarrow> 'd world \<Rightarrow> outcome \<times> 'd world" where
  "cleanup_profile env p err w =
     (let w = (if links_p p \<noteq> 0
               then snd (sys env (Rel (Free_mem (links_p p))) (fold (\<lambda>l w. snd (sys env (Rel (Link_destroy l)) w)) (links p) w))
               else w);
          w = (if pefds_p p \<noteq> 0
               then snd (sys env (Rel (Free_mem (pefds_p p)))
                      (fold (\<lambda>n w. if n \<ge> 0 then snd (sys env (Rel (Close_fd n)) w) else w) (pefds p) w))
               else w);
          (_, w) = sys env (Rel (Ring_free (ring_buf p))) w;
          (_, w) = sys env (Rel (Skel_destroy (skel p))) w;
          (_, w) = sys env (Rel (Symbolizer_free (symbolizer p))) w;
          (_, w) = sys env (Rel (Free_mem (online_mask p))) w
      in (Inr (- err), w))"

text \<open>
  The loop that opens and attaches one perf event per CPU that is online: an error status or 0, and
  the arrays as far as they are filled.
\<close>

fun attach_cpus ::
  "'d environment \<Rightarrow> bool \<Rightarrow> int \<Rightarrow> bool list \<Rightarrow> nat list \<Rightarrow> prof \<Rightarrow> 'd world \<Rightarrow> (ub + int) \<times> prof \<times> 'd world" where
  "attach_cpus env sw freq online [] p w = (Inr 0, p, w)"
| "attach_cpus env sw freq online (cpu # cpus) p w =
     (if length online \<le> cpu \<or> \<not> online ! cpu then attach_cpus env sw freq online cpus p w
      else
        let (r, w) = sys env (Acq (Perf_event_open sw freq (int cpu))) w;
            pefd = rv r
        in if pefd < 0 then
             (let w = (if \<not> sw \<and> rerrno r = ENOENT
                       then snd (sys env (Printf Stderr (''Fail to set up performance monitor on a CPU/Core.'' @ nl @
                              ''Try running the profile example with the `--sw-event` option.'' @ nl)) w)
                       else snd (sys env (Printf Stderr (''Fail to set up performance monitor on a CPU/Core.'' @ nl)) w))
              in (Inr (- 1), p, w))
           else
             let p = p\<lparr>pefds := (pefds p)[cpu := pefd]\<rparr>;
                 (r, w) = sys env (Acq (Attach_perf_event (skel p) pefd)) w
             in if links_p p = 0 then (Inl Null_pointer, p, w)
                else
                  let p = p\<lparr>links := (links p)[cpu := rv r]\<rparr>
                  in if rv r = 0 then (Inr (- 1), p, w)
                     else attach_cpus env sw freq online cpus p w)"

partial_function (option) poll_profile ::
  "penv \<Rightarrow> symbolizer_ops \<Rightarrow> int \<Rightarrow> pworld \<Rightarrow> (outcome \<times> pworld) option" where
  "poll_profile env ops ring w =
     (let (r, w) = sys env (Op (Ring_poll ring (- 1))) w;
          (d, w) = deliver (event_handler env ops) (pd_events (rdata r)) w
      in case d of
           Inl u \<Rightarrow> Some (Inl u, w)
         | Inr _ \<Rightarrow> if rv r \<ge> 0 then poll_profile env ops ring w else Some (Inr 0, w))"

definition run_profile ::
  "penv \<Rightarrow> symbolizer_ops \<Rightarrow> bool \<Rightarrow> int \<Rightarrow> bool list \<Rightarrow> int \<Rightarrow> prof \<Rightarrow> pworld \<Rightarrow> (outcome \<times> pworld) option" where
  "run_profile env ops sw freq online num_cpus p w =
     (let (r, w) = sys env (Acq (Malloc (nat (num_cpus * 4)))) w
      in if rv r = 0 then Some (Inl Null_pointer, w)
         else
           let p = p\<lparr>pefds_p := rv r, pefds := replicate (nat num_cpus) (- 1)\<rparr>;
               (r, w) = sys env (Acq (Calloc (nat num_cpus) 8)) w;
               p = p\<lparr>links_p := rv r, links := replicate (nat num_cpus) 0\<rparr>;
               (d, p, w) = attach_cpus env sw freq online [0..<nat num_cpus] p w
           in case d of
                Inl u \<Rightarrow> Some (Inl u, w)
              | Inr err \<Rightarrow>
                if err \<noteq> 0 then Some (cleanup_profile env p err w)
                else Option.bind (poll_profile env ops (ring_buf p) w) (\<lambda>(d, w).
                       case d of Inl u \<Rightarrow> Some (Inl u, w) | Inr _ \<Rightarrow> Some (cleanup_profile env p 0 w)))"

definition main_profile ::
  "penv \<Rightarrow> symbolizer_ops \<Rightarrow> string \<Rightarrow> (int \<times> string) list \<Rightarrow> (outcome \<times> pworld) option" where
  "main_profile env ops progname argv =
     (let w = start_world;
          p = \<lparr>links_p = 0, links = [], pefds_p = 0, pefds = [], ring_buf = 0, skel = 0, symbolizer = 0, online_mask = 0\<rparr>
      in case getopt_profile argv (1, False) of
        None \<Rightarrow> Some (Inr 1, show_help env progname w)
      | Some (freq, sw) \<Rightarrow>
        let (r, w) = sys env (Acq (Parse_cpu_mask ''/sys/devices/system/cpu/online'')) w;
            err = rv r;
            online = pd_mask (rdata r);
            mask_p = rptr r
        in if err \<noteq> 0 then
             (let (_, w) = sys env (Printf Stderr (''Fail to get online CPU numbers: '' @ dec_int err @ nl)) w
              in Some (cleanup_profile env p err w))
           else
             let p = p\<lparr>online_mask := mask_p\<rparr>;
                 (r, w) = sys env Num_possible_cpus w;
                 num_cpus = rv r
             in if num_cpus \<le> 0 then
                  (let (_, w) = sys env (Printf Stderr (''Fail to get the number of processors'' @ nl)) w
                   in Some (cleanup_profile env p (- 1) w))
                else
                  let (r, w) = sys env (Acq Skel_open_and_load) w;
                      p = p\<lparr>skel := rv r\<rparr>
                  in if rv r = 0 then
                       (let (_, w) = sys env (Printf Stderr (''Fail to open and load BPF skeleton'' @ nl)) w
                        in Some (cleanup_profile env p (- 1) w))
                     else
                       let (r, w) = sys env (Acq Symbolizer_new) w;
                           p = p\<lparr>symbolizer := rv r\<rparr>
                       in if rv r = 0 then
                            (let (_, w) = sys env (Printf Stderr (''Fail to create a symbolizer'' @ nl)) w
                             in Some (cleanup_profile env p (- 1) w))
                          else
                            let (r, w) = sys env (Acq (Ring_new (skel p))) w;
                                p = p\<lparr>ring_buf := rv r\<rparr>
                            in if rv r = 0 then Some (cleanup_profile env p (- 1) w)
                               else run_profile env ops sw freq online num_cpus p w)"

section \<open>What the callback prints\<close>

lemma emit_simps [simp]:
  "printed Stdout (hist (emit env s w)) = printed Stdout (hist w) @ s"
  "holds (emit env s w) = holds w"
  by (simp_all add: emit_def owned)

lemma extends_emit [intro!]: "extends u w \<Longrightarrow> extends u (emit env s w)"
  unfolding emit_def by (rule extends_sysI)

definition place :: "code_info \<Rightarrow> string option" where
  "place c = map_option (\<lambda>f. (case ci_dir c of Some d \<Rightarrow> d @ ''/'' | None \<Rightarrow> []) @ f @ '':'' @ dec (unat (ci_line c))) (ci_file c)"

text \<open>
  The lines of one address: the symbol with its position and place in the source, then one line for
  each function inlined there.
\<close>

definition symbol_line :: "u64 \<Rightarrow> string \<Rightarrow> blaze_sym \<Rightarrow> string" where
  "symbol_line a name s = ptr16 a @ '': '' @ name @ '' @ 0x'' @ hex (unat (sym_addr s)) @ ''+0x'' @ hex (unat (sym_offset s)) @
     (case place (sym_code s) of Some p \<Rightarrow> '' '' @ p | None \<Rightarrow> []) @ nl"

definition inlined_line :: "inlined_fn \<Rightarrow> string" where
  "inlined_line f = replicate 18 (CHR '' '') @ in_name f @
     (case place (in_code f) of Some p \<Rightarrow> ''@ '' @ p @ '' '' | None \<Rightarrow> []) @ ''[inlined]'' @ nl"

definition address_lines :: "blaze_sym list \<Rightarrow> nat \<Rightarrow> u64 \<Rightarrow> string" where
  "address_lines syms i a =
     (case (if i < length syms then sym_name (syms ! i) else None) of
        None \<Rightarrow> ptr16 a @ '': <no-symbol>'' @ nl
      | Some name \<Rightarrow> symbol_line a name (syms ! i) @ concat (map inlined_line (sym_inlined (syms ! i))))"

lemma print_frame_symbol:
  "a \<noteq> 0 \<Longrightarrow> printed Stdout (hist (print_frame env name a (sym_addr s) (sym_offset s) (sym_code s) w)) =
     printed Stdout (hist w) @ symbol_line a name s"
  by (simp add: print_frame_def symbol_line_def place_def split: option.split)

lemma spaces_18: "replicate 18 c @ s = replicate 16 c @ c # c # s"
  by (simp add: numeral_eq_Suc)

lemma print_frame_inlined:
  "printed Stdout (hist (print_frame env (in_name f) 0 0 0 (in_code f) w)) = printed Stdout (hist w) @ inlined_line f"
  by (simp add: print_frame_def inlined_line_def place_def spaces_18 split: option.split)

lemma print_inlined:
  "printed Stdout (hist (fold (\<lambda>f w. print_frame env (in_name f) 0 0 0 (in_code f) w) fs w)) =
     printed Stdout (hist w) @ concat (map inlined_line fs)"
  by (induction fs arbitrary: w) (simp_all add: print_frame_inlined)

lemma show_frame_prints:
  assumes "i < length stack" and "stack ! i \<noteq> 0"
  shows "fst (show_frame env stack syms i w) = Inr 0"
    and "printed Stdout (hist (snd (show_frame env stack syms i w))) =
      printed Stdout (hist w) @ address_lines syms i (stack ! i)"
  using assms
  by (auto simp: show_frame_def address_lines_def Let_def print_inlined print_frame_symbol split: option.split)

lemma show_frames_print:
  assumes "\<forall>i \<in> set is. i < length stack \<and> stack ! i \<noteq> 0"
  shows "fst (deliver (show_frame env stack syms) is w) = Inr 0 \<and>
    printed Stdout (hist (snd (deliver (show_frame env stack syms) is w))) =
      printed Stdout (hist w) @ concat (map (\<lambda>i. address_lines syms i (stack ! i)) is)"
  using assms
proof (induction "is" arbitrary: w)
  case (Cons i "is")
  obtain d w' where f: "show_frame env stack syms i w = (d, w')" by (cases "show_frame env stack syms i w")
  with Cons.prems show_frame_prints [of i stack env syms w] have "d = Inr 0"
    and "printed Stdout (hist w') = printed Stdout (hist w) @ address_lines syms i (stack ! i)" by auto
  with Cons f show ?case by simp
qed simp

section \<open>The callback is safe and leaves the resources alone\<close>

lemma holds_print_frame [simp]: "holds (print_frame env n a b c i w) = holds w"
  by (auto simp: print_frame_def Let_def split: option.split)

lemma extends_print_frame [intro!]: "extends u w \<Longrightarrow> extends u (print_frame env n a b c i w)"
  by (auto simp: print_frame_def Let_def split: option.split)

lemma fold_frames:
  "holds (fold (\<lambda>f w. print_frame env (in_name f) 0 0 0 (in_code f) w) fs w) = holds w"
  "extends u w \<Longrightarrow> extends u (fold (\<lambda>f w. print_frame env (in_name f) 0 0 0 (in_code f) w) fs w)"
  by (induction fs arbitrary: w) auto

lemma holds_show_frame: "holds (snd (show_frame env stack syms i w)) = holds w"
  by (auto simp: show_frame_def Let_def fold_frames split: option.split)

lemma extends_show_frame: "extends w (snd (show_frame env stack syms i w))"
  by (auto simp: show_frame_def Let_def intro!: fold_frames(2) split: option.split)

lemma show_frame_inside: "i < length stack \<Longrightarrow> fst (show_frame env stack syms i w) = Inr 0"
  by (auto simp: show_frame_def Let_def split: option.split)

lemma show_frames_inside:
  "n \<le> length stack \<Longrightarrow> fst (deliver (show_frame env stack syms) [0..<n] w) = Inr 0"
  by (rule deliver_safe) (simp add: show_frame_inside)

text \<open>Within the array, the frames are printed between the symbolization and the release of its result.\<close>

lemma show_stack_trace_eq:
  assumes "n \<le> length stack"
  shows "show_stack_trace env ops stack n pid w =
     (case (if pid \<noteq> 0 then symbolize_process ops pid (take n stack) else symbolize_kernel ops (take n stack)) of
        None \<Rightarrow> (Inr 0, emit env (''  failed to symbolize addresses: '' @ symbolize_error ops @ nl) w)
      | Some syms \<Rightarrow> (Inr 0, snd (sys env (Rel Syms_free)
          (snd (deliver (show_frame env stack syms) [0..<n] (snd (sys env (Acq Symbolize) w)))))))"
  using assms by (simp add: show_stack_trace_def show_frames_inside Let_def case_prod_beta split: option.split)

lemma show_stack_trace_inside:
  "n \<le> length stack \<Longrightarrow> fst (show_stack_trace env ops stack n pid w) = Inr 0"
  by (simp add: show_stack_trace_eq split: option.split)

lemma holds_symbolize:
  "holds (snd (sys env (Acq Symbolize) w)) = map_option (Cons H_syms) (holds w)"
  "holds (snd (sys env (Rel Syms_free) w)) = Option.bind (holds w) (give_back (Some H_syms))"
  by (cases "holds w"; simp add: holds_sys ledger_step_def take_in_def)+

lemma holds_show_stack_trace: "holds (snd (show_stack_trace env ops stack n pid w)) = holds w"
proof (cases "n \<le> length stack")
  case True
  have "holds (snd (deliver (show_frame env stack syms) [0..<n] v)) = holds v" for syms v
    by (rule holds_deliver) (rule holds_show_frame)
  then show ?thesis
    by (cases "holds w") (auto simp: show_stack_trace_eq [OF True] holds_symbolize give_back_def split: option.split)
qed (simp add: show_stack_trace_def)

lemma extends_show_stack_trace: "extends w (snd (show_stack_trace env ops stack n pid w))"
proof (cases "n \<le> length stack")
  case True
  have "extends w (snd (deliver (show_frame env stack syms) [0..<n] (snd (sys env (Acq Symbolize) w))))" for syms
    by (rule extends_trans [OF extends_sys]) (rule extends_deliver, rule extends_show_frame)
  then show ?thesis by (auto simp: show_stack_trace_eq [OF True] split: option.split)
qed (simp add: show_stack_trace_def)

lemma event_handler_inside:
  assumes "stacktrace_ok e"
  shows "\<exists>n. fst (event_handler env ops e w) = Inr n"
proof -
  have "nat (st_kstack_sz e) div 8 \<le> length (st_kstack e)" "nat (st_ustack_sz e) div 8 \<le> length (st_ustack e)"
    using assms by (auto simp: stacktrace_ok_def stacktrace_layout_def)
  moreover obtain comm where "c_str (st_comm e) = Some comm"
    using assms c_str_terminated by (auto simp: stacktrace_ok_def)
  ultimately show ?thesis
    by (simp add: event_handler_def Let_def case_prod_beta show_stack_trace_inside)
qed

lemma holds_event_handler [owned]: "holds (snd (event_handler env ops e w)) = holds w"
  by (simp add: event_handler_def Let_def case_prod_beta holds_show_stack_trace split: option.split sum.split)

lemma extends_event_handler: "extends w (snd (event_handler env ops e w))"
proof -
  have step: "extends u (snd (show_stack_trace env ops stack n pid v))" if "extends u v" for u v stack n pid
    using that extends_show_stack_trace extends_trans by blast
  show ?thesis
    by (auto simp: event_handler_def Let_def case_prod_beta intro!: step split: option.split sum.split)
qed

section \<open>Resources\<close>

text \<open>
  The arrays are filled and emptied in different orders, so what is held is counted as a multiset
  here.
\<close>

definition owns :: "'d world \<Rightarrow> handle multiset \<Rightarrow> bool" where
  "owns w M \<longleftrightarrow> (\<exists>h. holds w = Some h \<and> mset h = M)"

definition some_mset :: "handle option \<Rightarrow> handle multiset" where
  "some_mset x = (case x of None \<Rightarrow> {#} | Some a \<Rightarrow> {#a#})"

lemma owns_empty: "owns w {#} \<Longrightarrow> holds w = Some []"
  by (simp add: owns_def)

lemma owns_rel:
  assumes "owns w (some_mset (rel_handle c (fst (sys env (Rel c) w))) + M)"
  shows "owns (snd (sys env (Rel c) w)) M"
proof -
  obtain h where h: "holds w = Some h" "mset h = some_mset (rel_handle c (fst (sys env (Rel c) w))) + M"
    using assms by (auto simp: owns_def)
  show ?thesis
  proof (cases "rel_handle c (fst (sys env (Rel c) w))")
    case (Some a)
    with h(2) have "a \<in> set h" by (metis add_mset_add_single insertI1 option.simps(5) set_mset_add_mset_insert set_mset_mset some_mset_def union_commute)
    with h Some show ?thesis by (simp add: owns_def holds_rel give_back_def some_mset_def)
  qed (use h in \<open>simp add: owns_def holds_rel give_back_def some_mset_def\<close>)
qed

lemma owns_acq:
  assumes "owns w M" and "acq_uses a \<subseteq> set_mset M"
  shows "owns (snd (sys env (Acq a) w)) (some_mset (acq_handle a (fst (sys env (Acq a) w))) + M)"
proof -
  obtain h where "holds w = Some h" "mset h = M" using assms(1) by (auto simp: owns_def)
  with assms(2) show ?thesis by (auto simp: owns_def holds_acq take_in_def some_mset_def split: option.split)
qed

lemma owns_close_all:
  "owns w (mset (map H_fd (filter (\<lambda>n. 0 \<le> n) fds)) + M) \<Longrightarrow>
   owns (fold (\<lambda>n w. if n \<ge> 0 then snd (sys env (Rel (Close_fd n)) w) else w) fds w) M"
proof (induction fds arbitrary: w)
  case (Cons n fds)
  then show ?case
    using owns_rel [of w "Close_fd n" env "mset (map H_fd (filter (\<lambda>n. 0 \<le> n) fds)) + M"]
    by (auto simp: valid_fd_def some_mset_def)
qed simp

lemma owns_destroy_all:
  "owns w (mset (map H_link (filter (\<lambda>l. l \<noteq> 0) ls)) + M) \<Longrightarrow>
   owns (fold (\<lambda>l w. snd (sys env (Rel (Link_destroy l)) w)) ls w) M"
proof (induction ls arbitrary: w)
  case (Cons l ls)
  then show ?case
    using owns_rel [of w "Link_destroy l" env "mset (map H_link (filter (\<lambda>l. l \<noteq> 0) ls)) + M"]
    by (cases "l = 0") (auto simp: non_null_def some_mset_def)
qed simp

text \<open>What the variables of the cleanup stand for.\<close>

definition held_links :: "prof \<Rightarrow> handle multiset" where
  "held_links p = (if links_p p = 0 then {#}
     else mset (map H_link (filter (\<lambda>l. l \<noteq> 0) (links p))) + {#H_mem (links_p p)#})"

definition held_pefds :: "prof \<Rightarrow> handle multiset" where
  "held_pefds p = (if pefds_p p = 0 then {#}
     else mset (map H_fd (filter (\<lambda>n. 0 \<le> n) (pefds p))) + {#H_mem (pefds_p p)#})"

definition held_rest :: "prof \<Rightarrow> handle multiset" where
  "held_rest p = some_mset (non_null H_ring (ring_buf p)) + (some_mset (non_null H_skel (skel p)) +
     (some_mset (non_null H_sym (symbolizer p)) + some_mset (non_null H_mem (online_mask p))))"

lemma cleanup_profile_releases:
  assumes "owns w (held_links p + (held_pefds p + held_rest p))"
  shows "holds (snd (cleanup_profile env p err w)) = Some []"
proof -
  define w1 where "w1 = (if links_p p \<noteq> 0
    then snd (sys env (Rel (Free_mem (links_p p))) (fold (\<lambda>l w. snd (sys env (Rel (Link_destroy l)) w)) (links p) w)) else w)"
  define w2 where "w2 = (if pefds_p p \<noteq> 0
    then snd (sys env (Rel (Free_mem (pefds_p p)))
      (fold (\<lambda>n w. if n \<ge> 0 then snd (sys env (Rel (Close_fd n)) w) else w) (pefds p) w1)) else w1)"
  define w3 where "w3 = snd (sys env (Rel (Ring_free (ring_buf p))) w2)"
  define w4 where "w4 = snd (sys env (Rel (Skel_destroy (skel p))) w3)"
  define w5 where "w5 = snd (sys env (Rel (Symbolizer_free (symbolizer p))) w4)"
  define w6 where "w6 = snd (sys env (Rel (Free_mem (online_mask p))) w5)"
  have free: "owns (snd (sys env (Rel (Free_mem q)) v)) M" if "owns v ({#H_mem q#} + M)" "q \<noteq> 0" for q M and v :: "'a world"
    using that owns_rel [of v "Free_mem q" env M] by (simp add: non_null_def some_mset_def)
  have "owns w1 (held_pefds p + held_rest p)"
    using assms by (auto simp: w1_def held_links_def add.assoc intro!: free owns_destroy_all)
  then have "owns w2 (held_rest p)"
    by (auto simp: w2_def held_pefds_def add.assoc intro!: free owns_close_all)
  then have "owns w3 (some_mset (non_null H_skel (skel p)) +
     (some_mset (non_null H_sym (symbolizer p)) + some_mset (non_null H_mem (online_mask p))))"
    unfolding w3_def held_rest_def by (intro owns_rel) simp
  then have "owns w4 (some_mset (non_null H_sym (symbolizer p)) + some_mset (non_null H_mem (online_mask p)))"
    unfolding w4_def by (intro owns_rel) simp
  then have "owns w5 (some_mset (non_null H_mem (online_mask p)))"
    unfolding w5_def by (intro owns_rel) simp
  then have "owns w6 {#}" unfolding w6_def by (intro owns_rel) simp
  moreover have "snd (cleanup_profile env p err w) = w6"
    unfolding cleanup_profile_def Let_def case_prod_beta w6_def w5_def w4_def w3_def w2_def w1_def by simp
  ultimately show ?thesis by (simp add: owns_empty)
qed

lemma mset_filter_update:
  assumes "i < length xs" and "\<not> P (xs ! i)" and "P y"
  shows "mset (map f (filter P (xs[i := y]))) = add_mset (f y) (mset (map f (filter P xs)))"
  using assms by (simp add: mset_update)

lemma mset_filter_same:
  assumes "i < length xs" and "\<not> P (xs ! i)" and "\<not> P y"
  shows "mset (map f (filter P (xs[i := y]))) = mset (map f (filter P xs))"
  using assms by (simp add: mset_update)

text \<open>The slots of the CPUs still to come are empty.\<close>

definition fresh :: "nat list \<Rightarrow> prof \<Rightarrow> bool" where
  "fresh cpus p \<longleftrightarrow> distinct cpus \<and> pefds_p p \<noteq> 0 \<and> skel p \<noteq> 0 \<and>
     (\<forall>c \<in> set cpus. c < length (pefds p) \<and> c < length (links p) \<and> pefds p ! c < 0 \<and> links p ! c = 0)"

lemma attach_cpus_owns:
  assumes "fresh cpus p" and "owns w (held_links p + (held_pefds p + held_rest p))"
    and "attach_cpus env sw freq online cpus p w = (Inr err, p', w')"
  shows "owns w' (held_links p' + (held_pefds p' + held_rest p')) \<and> ring_buf p' = ring_buf p"
  using assms
proof (induction cpus arbitrary: p w)
  case (Cons cpu cpus)
  have c: "cpu < length (pefds p)" "cpu < length (links p)" "\<not> 0 \<le> pefds p ! cpu" "links p ! cpu = 0"
    and nz: "pefds_p p \<noteq> 0" "skel p \<noteq> 0" and rest: "fresh cpus p"
    using Cons.prems(1) by (auto simp: fresh_def)
  show ?case
  proof (cases "length online \<le> cpu \<or> \<not> online ! cpu")
    case True
    with Cons.prems Cons.IH [OF rest] show ?thesis by simp
  next
    case False
    let ?s1 = "sys env (Acq (Perf_event_open sw freq (int cpu))) w"
    have o1: "owns (snd ?s1) (some_mset (valid_fd (rv (fst ?s1))) + (held_links p + (held_pefds p + held_rest p)))"
      using owns_acq [OF Cons.prems(2), of "Perf_event_open sw freq (int cpu)" env] by simp
    show ?thesis
    proof (cases "rv (fst ?s1) < 0")
      case True
      with o1 False Cons.prems(3) show ?thesis
        by (auto simp: Let_def case_prod_beta valid_fd_def some_mset_def owns_def owned split: if_splits)
    next
      case fd: False
      let ?p1 = "p\<lparr>pefds := (pefds p)[cpu := rv (fst ?s1)]\<rparr>"
      let ?s2 = "sys env (Acq (Attach_perf_event (skel p) (rv (fst ?s1)))) (snd ?s1)"
      let ?p2 = "?p1\<lparr>links := (links p)[cpu := rv (fst ?s2)]\<rparr>"
      have hp: "held_pefds ?p1 = add_mset (H_fd (rv (fst ?s1))) (held_pefds p)"
        using nz fd mset_filter_update [of cpu "pefds p" "\<lambda>n. 0 \<le> n" "rv (fst ?s1)" H_fd] c by (simp add: held_pefds_def)
      have same: "held_links ?p1 = held_links p" "held_rest ?p1 = held_rest p" "held_rest ?p2 = held_rest p"
        "held_pefds ?p2 = held_pefds ?p1" "ring_buf ?p2 = ring_buf p" "links_p ?p2 = links_p p"
        by (simp_all add: held_links_def held_rest_def held_pefds_def)
      have o1': "owns (snd ?s1) (held_links p + (held_pefds ?p1 + held_rest p))"
        using o1 fd by (simp add: hp valid_fd_def some_mset_def)
      have "owns (snd ?s2) (some_mset (non_null H_link (rv (fst ?s2))) + (held_links p + (held_pefds ?p1 + held_rest p)))"
        using owns_acq [OF o1', of "Attach_perf_event (skel p) (rv (fst ?s1))" env] nz(2)
        by (simp add: hp held_rest_def some_mset_def non_null_def)
      moreover have "held_links ?p2 = some_mset (non_null H_link (rv (fst ?s2))) + held_links p" if "links_p p \<noteq> 0"
        using that c mset_filter_update [of cpu "links p" "\<lambda>l. l \<noteq> 0" "rv (fst ?s2)" H_link]
          mset_filter_same [of cpu "links p" "\<lambda>l. l \<noteq> 0" "rv (fst ?s2)" H_link]
        by (simp add: held_links_def non_null_def some_mset_def)
      ultimately have o2: "owns (snd ?s2) (held_links ?p2 + (held_pefds ?p2 + held_rest ?p2))" if "links_p p \<noteq> 0"
        using that by (simp add: same ac_simps)
      have fr: "fresh cpus ?p2"
        using Cons.prems(1) by (auto simp: fresh_def nth_list_update)
      have eq: "attach_cpus env sw freq online (cpu # cpus) p w =
          (if links_p p = 0 then (Inl Null_pointer, ?p1, snd ?s2)
           else if rv (fst ?s2) = 0 then (Inr (- 1), ?p2, snd ?s2)
           else attach_cpus env sw freq online cpus ?p2 (snd ?s2))"
        using False fd by (simp add: Let_def case_prod_beta)
      consider "links_p p = 0" | "links_p p \<noteq> 0" "rv (fst ?s2) = 0" | "links_p p \<noteq> 0" "rv (fst ?s2) \<noteq> 0" by blast
      then show ?thesis
      proof cases
        case 2
        with Cons.prems(3) eq have "p' = ?p2" "w' = snd ?s2" by simp_all
        with o2 [OF 2(1)] same(5) show ?thesis by (simp only: simp_thms)
      next
        case 3
        with Cons.prems(3) eq have "attach_cpus env sw freq online cpus ?p2 (snd ?s2) = (Inr err, p', w')" by simp
        with Cons.IH [OF fr o2 [OF 3(1)]] same(5) show ?thesis by simp
      qed (use Cons.prems(3) eq in simp)
    qed
  qed
qed simp

lemma poll_profile_holds:
  assumes "poll_profile env ops ring w = Some (d, w')"
    and "holds w = Some h" and "H_ring ring \<in> set h"
  shows "holds w' = Some h"
proof -
  have "holds w = Some h \<longrightarrow> H_ring ring \<in> set h \<longrightarrow> holds (snd (d, w')) = Some h"
  proof (rule poll_profile.raw_induct [where P = "\<lambda>env ops ring w r. holds w = Some h \<longrightarrow>
      H_ring ring \<in> set h \<longrightarrow> holds (snd r) = Some h", OF _ assms(1)], goal_cases)
    case (1 f env ops ring w r)
    then show ?case
      by (auto simp: Let_def case_prod_beta holds_deliver owned split: if_splits sum.splits)
  qed
  with assms show ?thesis by simp
qed

lemma run_profile_tidy:
  assumes "run_profile env ops sw freq online num_cpus p w = Some (Inr status, w')"
    and "owns w (held_rest p)" and "ring_buf p \<noteq> 0" and "skel p \<noteq> 0"
  shows "holds w' = Some []"
proof -
  let ?s1 = "sys env (Acq (Malloc (nat (num_cpus * 4)))) w"
  let ?s2 = "sys env (Acq (Calloc (nat num_cpus) 8)) (snd ?s1)"
  let ?p = "p\<lparr>pefds_p := rv (fst ?s1), pefds := replicate (nat num_cpus) (- 1),
    links_p := rv (fst ?s2), links := replicate (nat num_cpus) 0\<rparr>"
  obtain d q v where att: "attach_cpus env sw freq online [0..<nat num_cpus] ?p (snd ?s2) = (d, q, v)"
    by (cases "attach_cpus env sw freq online [0..<nat num_cpus] ?p (snd ?s2)")
  have nz: "rv (fst ?s1) \<noteq> 0"
    using assms(1) by (auto simp: run_profile_def Let_def case_prod_beta)
  have "run_profile env ops sw freq online num_cpus p w = (case d of
      Inl u \<Rightarrow> Some (Inl u, v)
    | Inr err \<Rightarrow>
      if err \<noteq> 0 then Some (cleanup_profile env q err v)
      else Option.bind (poll_profile env ops (ring_buf q) v) (\<lambda>(d, w).
        case d of Inl u \<Rightarrow> Some (Inl u, w) | Inr _ \<Rightarrow> Some (cleanup_profile env q 0 w)))"
    unfolding run_profile_def Let_def case_prod_beta using nz att by (cases d) (simp_all cong: if_cong sum.case_cong)
  with assms(1) obtain err where d: "d = Inr err" and run: "(if err \<noteq> 0 then Some (cleanup_profile env q err v)
      else Option.bind (poll_profile env ops (ring_buf q) v) (\<lambda>(d, w).
        case d of Inl u \<Rightarrow> Some (Inl u, w) | Inr _ \<Rightarrow> Some (cleanup_profile env q 0 w))) = Some (Inr status, w')"
    by (cases d) simp_all
  have "owns (snd ?s1) (some_mset (non_null H_mem (rv (fst ?s1))) + held_rest p)"
    using owns_acq [OF assms(2), of "Malloc (nat (num_cpus * 4))" env] by simp
  then have "owns (snd ?s2) (some_mset (non_null H_mem (rv (fst ?s2))) +
      (some_mset (non_null H_mem (rv (fst ?s1))) + held_rest p))"
    using owns_acq [where a = "Calloc (nat num_cpus) 8" and env = env] by fastforce
  moreover have "held_links ?p = some_mset (non_null H_mem (rv (fst ?s2)))" "held_rest ?p = held_rest p"
    "held_pefds ?p = some_mset (non_null H_mem (rv (fst ?s1)))"
    using nz by (simp_all add: held_links_def held_pefds_def held_rest_def non_null_def some_mset_def)
  ultimately have "owns (snd ?s2) (held_links ?p + (held_pefds ?p + held_rest ?p))"
    by (simp only:)
  then have o: "owns v (held_links q + (held_pefds q + held_rest q))" and r: "ring_buf q = ring_buf p"
    using attach_cpus_owns [of "[0..<nat num_cpus]" ?p "snd ?s2" env sw freq online err q v] att nz assms(4)
    by (auto simp: fresh_def d)
  show ?thesis
  proof (cases "err = 0")
    case False
    with run have "cleanup_profile env q err v = (Inr status, w')" by simp
    with cleanup_profile_releases [OF o, of env err] show ?thesis by simp
  next
    case True
    with run obtain c0 u where u: "poll_profile env ops (ring_buf q) v = Some (c0, u)"
      by (cases "poll_profile env ops (ring_buf q) v") auto
    with run True obtain c where poll: "poll_profile env ops (ring_buf q) v = Some (Inr c, u)"
      and w': "w' = snd (cleanup_profile env q 0 u)"
      by (cases c0) simp_all
    obtain h where h: "holds v = Some h" "mset h = held_links q + (held_pefds q + held_rest q)"
      using o unfolding owns_def by blast
    have "H_ring (ring_buf q) \<in># held_rest q"
      using r assms(3) by (simp add: held_rest_def non_null_def some_mset_def)
    then have "H_ring (ring_buf q) \<in># mset h" unfolding h(2) by simp
    then have "holds u = Some h" using poll_profile_holds [OF poll h(1)] by simp
    then have "owns u (held_links q + (held_pefds q + held_rest q))" using h(2) unfolding owns_def by blast
    from cleanup_profile_releases [OF this] w' show ?thesis by simp
  qed
qed

lemma holds_show_help [owned]: "holds (show_help env n w) = holds w"
  by (simp add: show_help_def Let_def)

lemma cleanup_outcome: "fst (cleanup_profile env p err w) = Inr (- err)"
  by (simp add: cleanup_profile_def Let_def case_prod_beta)

definition rest_list :: "prof \<Rightarrow> handle list" where
  "rest_list p = (if ring_buf p = 0 then [] else [H_ring (ring_buf p)]) @
     (if symbolizer p = 0 then [] else [H_sym (symbolizer p)]) @
     (if skel p = 0 then [] else [H_skel (skel p)]) @
     (if online_mask p = 0 then [] else [H_mem (online_mask p)])"

lemma owns_rest_list: "holds w = Some (rest_list p) \<Longrightarrow> owns w (held_rest p)"
  by (simp add: owns_def rest_list_def held_rest_def non_null_def some_mset_def)

lemma cleanup_early:
  assumes "cleanup_profile env p err w = (d, w')" and "holds w = Some (rest_list p)" and "links_p p = 0" and "pefds_p p = 0"
  shows "holds w' = Some []"
  using cleanup_profile_releases [of w p env err] owns_rest_list [OF assms(2)] assms(1,3,4)
  by (simp add: held_links_def held_pefds_def)

lemmas run_profile_early = run_profile_tidy [OF _ owns_rest_list]

interpretation profile: tidy_program "\<lambda>env. main_profile env ops progname argv" for ops progname argv
proof unfold_locales
  fix env status w
  assume "main_profile env ops progname argv = Some (Inr status, w)"
  then show "holds w = Some []"
    by (auto simp: main_profile_def Let_def case_prod_beta owned rest_list_def
        elim!: cleanup_early run_profile_early split: if_splits option.splits)
qed

section \<open>Termination\<close>

definition polls_fail_from :: "nat \<Rightarrow> 'd environment \<Rightarrow> bool" where
  "polls_fail_from n env \<longleftrightarrow> (\<forall>h p t. n \<le> length h \<longrightarrow> rv (env h (Op (Ring_poll p t))) < 0)"

lemma poll_profile_returns:
  assumes "polls_fail_from n env"
  shows "poll_profile env ops ring w \<noteq> None"
proof (rule progress_loop [where loop = "\<lambda>_ :: unit. poll_profile env ops ring" and n = n and env = env])
  fix w :: pworld assume "n \<le> length (hist w)"
  then have "rv (fst (sys env (Op (Ring_poll ring (- 1))) w)) < 0"
    using assms by (simp add: polls_fail_from_def sys_answer)
  then show "poll_profile env ops ring w \<noteq> None"
    using poll_profile.simps [of env ops ring w] by (auto simp: Let_def case_prod_beta split: sum.splits)
next
  fix w :: pworld
  let ?s = "sys env (Op (Ring_poll ring (- 1))) w"
  let ?d = "deliver (event_handler env ops) (pd_events (rdata (fst ?s))) (snd ?s)"
  have "extends (snd ?s) (snd ?d)" by (rule extends_deliver) (rule extends_event_handler)
  moreover have "poll_profile env ops ring w \<noteq> None \<or> poll_profile env ops ring w = poll_profile env ops ring (snd ?d)"
    using poll_profile.simps [of env ops ring w] by (auto simp: Let_def case_prod_beta split: sum.splits)
  ultimately show "poll_profile env ops ring w \<noteq> None \<or>
      (\<exists>c (x' :: unit) w'. extends (snd (sys env c w)) w' \<and> poll_profile env ops ring w = poll_profile env ops ring w')"
    by blast
qed

text \<open>
  Undefined behaviour is excluded when allocations succeed and libbpf hands over well-formed
  records, as the kernel half publishes them.
\<close>

definition well_formed_polls :: "penv \<Rightarrow> bool" where
  "well_formed_polls env \<longleftrightarrow> (\<forall>h c. list_all stacktrace_ok (pd_events (rdata (env h c))))"

definition allocates :: "'d environment \<Rightarrow> bool" where
  "allocates env \<longleftrightarrow> (\<forall>h n k. rv (env h (Acq (Malloc n))) \<noteq> 0 \<and> rv (env h (Acq (Calloc n k))) \<noteq> 0)"

lemma poll_profile_normal:
  assumes "poll_profile env ops ring w = Some (d, w')" and "well_formed_polls env"
  shows "\<exists>n. d = Inr n"
proof -
  have "well_formed_polls env \<longrightarrow> (\<exists>n. fst (d, w') = Inr n)"
  proof (rule poll_profile.raw_induct [where P = "\<lambda>env ops ring w r. well_formed_polls env \<longrightarrow> (\<exists>n. fst r = Inr n)",
      OF _ assms(1)], goal_cases)
    case (1 f env ops ring w r)
    have "fst (deliver (event_handler env ops) (pd_events (rdata (fst (sys env c v)))) u) = Inr 0"
      if "well_formed_polls env" for c v u
      using that by (intro deliver_safe event_handler_inside) (auto simp: well_formed_polls_def sys_answer list_all_iff)
    with 1 show ?case by (cases r) (auto simp: Let_def case_prod_beta split: if_splits)
  qed
  with assms(2) show ?thesis by simp
qed

lemma attach_cpus_normal: "links_p p \<noteq> 0 \<Longrightarrow> \<exists>n. fst (attach_cpus env sw freq online cpus p w) = Inr n"
  by (induction cpus arbitrary: p w) (auto simp: Let_def case_prod_beta)

lemma cleanup_profile_normal [simp]: "\<exists>s w'. cleanup_profile env p err w = (Inr s, w')"
  by (simp add: cleanup_profile_def Let_def case_prod_beta)

lemma run_profile_ends:
  assumes "polls_fail_from n env" and "well_formed_polls env" and "allocates env"
  shows "\<exists>s w'. run_profile env ops sw freq online num_cpus p w = Some (Inr s, w')"
proof -
  let ?s1 = "sys env (Acq (Malloc (nat (num_cpus * 4)))) w"
  let ?s2 = "sys env (Acq (Calloc (nat num_cpus) 8)) (snd ?s1)"
  let ?p = "p\<lparr>pefds_p := rv (fst ?s1), pefds := replicate (nat num_cpus) (- 1),
    links_p := rv (fst ?s2), links := replicate (nat num_cpus) 0\<rparr>"
  have nz: "rv (fst ?s1) \<noteq> 0" "links_p ?p \<noteq> 0"
    using assms(3) by (simp_all add: allocates_def sys_answer)
  obtain err q v where att: "attach_cpus env sw freq online [0..<nat num_cpus] ?p (snd ?s2) = (Inr err, q, v)"
    using attach_cpus_normal [OF nz(2), of env sw freq online "[0..<nat num_cpus]" "snd ?s2"] by (metis prod.collapse)
  obtain d u where "poll_profile env ops (ring_buf q) v = Some (d, u)"
    using poll_profile_returns [OF assms(1), of ops "ring_buf q" v] by auto
  moreover with poll_profile_normal [OF _ assms(2)] obtain k where "d = Inr k" by blast
  ultimately have poll: "poll_profile env ops (ring_buf q) v = Some (Inr k, u)" by simp
  have "run_profile env ops sw freq online num_cpus p w =
      (if err \<noteq> 0 then Some (cleanup_profile env q err v) else Some (cleanup_profile env q 0 u))"
    unfolding run_profile_def Let_def case_prod_beta using nz(1) att poll by simp
  then show ?thesis by (simp split: if_split)
qed

section \<open>Properties\<close>

definition sample_perf_ctx :: "u64 list \<Rightarrow> perf_ctx" where
  "sample_perf_ctx ips = \<lparr>pe_pid_tgid = pid_tgid 42 42, pe_cpu = 1, pe_comm = (\<lambda>n. (- 22, replicate n 7)),
     pe_get_stack = (\<lambda>user n buf. if user then (- 14, buf)
        else (8 * int (min (length ips) (n div 8)), take (n div 8) ips @ drop (length ips) buf))\<rparr>"

lemma sample_perf_ctx_doc:
  "get_stack_doc (sample_perf_ctx [1, 2])" "comm_filled (sample_perf_ctx [1, 2])"
  by (auto simp: get_stack_doc_def comm_filled_def sample_perf_ctx_def min_def)

text \<open>
  C13. Whatever samples are taken, the callback handles every event that the kernel half publishes
  without reading outside it: the command name is terminated (also when the helper failed), and
  the stack sizes stay within the arrays, whose other entries are never read.
\<close>

theorem profile_events_safe:
  assumes "bpf_ringbuf rops stacktrace_layout sizeof_stacktrace_event"
    and "ringbuf_records rops r = []"
    and "list_all (\<lambda>ctx. get_stack_doc ctx \<and> comm_filled ctx) ctxs"
    and "e \<in> set (ringbuf_records rops (profile_run rops ctxs r))"
  shows "\<exists>n. fst (event_handler env ops e w) = Inr n"
proof (rule event_handler_inside)
  show "stacktrace_ok e"
    using profiler.run_ok [OF profiler.intro [OF assms(1)] assms(3), of r] assms(2,4) by (simp add: list_all_iff)
qed

theorem profile_events_safe_witness:
  "\<exists>e. ringbuf_records (kernel_ringbuf 4 blank_trace) (profile_run (kernel_ringbuf 4 blank_trace) [sample_perf_ctx [1, 2]] []) = [e]
     \<and> (\<exists>n. fst (event_handler (scripted (\<lambda>_. 0) ()) \<lparr>symbolize_process = (\<lambda>_ _. None),
          symbolize_kernel = (\<lambda>_. Some []), symbolize_error = []\<rparr> e start_world) = Inr n)"
proof -
  obtain e where e: "profile_run (kernel_ringbuf 4 blank_trace) [sample_perf_ctx [1, 2]] [] = [e]"
    by (simp add: profile_def Let_def case_prod_beta)
  have "\<exists>n. fst (event_handler (scripted (\<lambda>_. 0) ()) \<lparr>symbolize_process = (\<lambda>_ _. None),
          symbolize_kernel = (\<lambda>_. Some []), symbolize_error = []\<rparr> e start_world) = Inr n"
    by (rule profile_events_safe [where rops = "kernel_ringbuf 4 blank_trace" and r = "[]" and ctxs = "[sample_perf_ctx [1, 2]]"])
       (use e in \<open>simp_all add: sample_perf_ctx_doc bpf_ringbuf_cap.axioms(1) [OF kernel_trace_ringbuf]\<close>)
  with e show ?thesis by simp
qed

text \<open>
  C17. For a trace without null addresses that lies within its array, \<^verbatim>\<open>show_stack_trace\<close> prints
  for every address, in order, its symbol with offset and place in the source, then one line per
  inlined function; an address the symbolizer has no name for (or no answer) is marked as such.
\<close>

theorem show_stack_trace_prints:
  assumes "n \<le> length stack" and "0 \<notin> set (take n stack)"
    and "(if pid \<noteq> 0 then symbolize_process ops pid (take n stack) else symbolize_kernel ops (take n stack)) = Some syms"
  shows "fst (show_stack_trace env ops stack n pid w) = Inr 0 \<and>
     printed Stdout (hist (snd (show_stack_trace env ops stack n pid w))) =
       printed Stdout (hist w) @ concat (map (\<lambda>i. address_lines syms i (stack ! i)) [0..<n])"
proof -
  have "\<forall>i \<in> set [0..<n]. i < length stack \<and> stack ! i \<noteq> 0"
    using assms(1,2) by (auto simp: in_set_conv_nth)
  from assms(3) show_frames_print [OF this, of env syms "snd (sys env (Acq Symbolize) w)"]
  show ?thesis by (simp add: show_stack_trace_eq [OF assms(1)])
qed

theorem show_stack_trace_prints_witness:
  "printed Stdout (hist (snd (show_stack_trace (scripted (\<lambda>_. 0) ()) \<lparr>symbolize_process = (\<lambda>_ _. None),
       symbolize_kernel = (\<lambda>_. Some [\<lparr>sym_name = Some ''do_idle'', sym_addr = 16, sym_offset = 1,
          sym_code = \<lparr>ci_dir = None, ci_file = None, ci_line = 0\<rparr>, sym_inlined = []\<rparr>]), symbolize_error = []\<rparr>
       [17, 255, 0] 2 0 start_world))) =
   ''0000000000000011: do_idle @ 0x10+0x1'' @ nl @ ''00000000000000ff: <no-symbol>'' @ nl"
proof -
  let ?sym = "\<lparr>sym_name = Some ''do_idle'', sym_addr = 16, sym_offset = 1,
     sym_code = \<lparr>ci_dir = None, ci_file = None, ci_line = 0\<rparr>, sym_inlined = []\<rparr>"
  let ?ops = "\<lparr>symbolize_process = (\<lambda>_ _. None), symbolize_kernel = (\<lambda>_. Some [?sym]), symbolize_error = []\<rparr>"
  have pt: "ptr16 17 = ''0000000000000011''" "ptr16 255 = ''00000000000000ff''"
    "hex 16 = ''10''" "hex (Suc 0) = ''1''" by code_simp+
  have st: "printed Stdout (hist start_world) = []" by (simp add: printed_def start_world_def)
  have up: "[0..<2] = [0, 1]" by (simp add: upt_rec)
  have "printed Stdout (hist (snd (show_stack_trace (scripted (\<lambda>_. 0) ()) ?ops [17, 255, 0] 2 0 start_world))) =
      concat (map (\<lambda>i. address_lines [?sym] i ([17, 255, 0] ! i)) [0..<2])"
    using show_stack_trace_prints [of 2 "[17, 255, 0]" 0 ?ops "[?sym]" "scripted (\<lambda>_. 0) ()" start_world]
    by (simp add: st)
  moreover have "address_lines [?sym] 0 17 = ''0000000000000011: do_idle @ 0x10+0x1'' @ nl"
    by (simp add: address_lines_def symbol_line_def place_def pt)
  moreover have "address_lines [?sym] 1 255 = ''00000000000000ff: <no-symbol>'' @ nl"
    by (simp add: address_lines_def pt)
  ultimately show ?thesis by (simp add: up)
qed


definition profile_answer :: "call \<Rightarrow> int" where
  "profile_answer c = (case c of Acq Skel_open_and_load \<Rightarrow> 1 | Acq Symbolizer_new \<Rightarrow> 2 | Acq (Ring_new p) \<Rightarrow> 3
     | Num_possible_cpus \<Rightarrow> 2 | Acq (Malloc n) \<Rightarrow> 4 | Acq (Calloc n k) \<Rightarrow> 5
     | Acq (Perf_event_open sw f cpu) \<Rightarrow> 6 + cpu | Acq (Attach_perf_event p fd) \<Rightarrow> 8
     | Op (Ring_poll p t) \<Rightarrow> - EINTR | _ \<Rightarrow> 0)"

abbreviation profile_demo :: penv where
  "profile_demo \<equiv> scripted profile_answer \<lparr>pd_events = [], pd_mask = [True, True]\<rparr>"

lemma profile_demo_run:
  "\<exists>w. main_profile profile_demo ops [] [] = Some (Inr 0, w)"
  by (simp add: main_profile_def run_profile_def cleanup_profile_def Let_def case_prod_beta numeral_2_eq_2
      sys_def scripted_def profile_answer_def poll_profile.simps start_world_def sig_handler_def)


text \<open>
  C18. \<^verbatim>\<open>main\<close> of \<^verbatim>\<open>profile\<close> returns an exit status, and holds nothing then, once polling fails for
  good (as it does on a signal), provided that its allocations succeed and that the records it is
  handed are well formed, as those of the kernel half are.
\<close>

theorem main_profile_returns:
  assumes "polls_fail_from n env" and "well_formed_polls env" and "allocates env"
  shows "\<exists>status w. main_profile env ops progname argv = Some (Inr status, w) \<and> holds w = Some []"
proof -
  have "\<exists>status w. main_profile env ops progname argv = Some (Inr status, w)"
    by (simp add: main_profile_def Let_def case_prod_beta run_profile_ends [OF assms] split: option.split)
  then show ?thesis using profile.nothing_held by blast
qed

theorem main_profile_returns_witness:
  "\<exists>status w. main_profile profile_demo \<lparr>symbolize_process = (\<lambda>_ _. None), symbolize_kernel = (\<lambda>_. None),
     symbolize_error = []\<rparr> [] [] = Some (Inr status, w) \<and> holds w = Some []"
  by (rule main_profile_returns [where n = 0])
     (simp_all add: polls_fail_from_def well_formed_polls_def allocates_def scripted_def profile_answer_def)

end
