(* ===== verification/Task_Iter_Bpf.thy ===== *)
theory Task_Iter_Bpf
  imports Bpf_Kernel
begin

text \<open>
  The kernel half of \<^verbatim>\<open>task_iter\<close>: \<^verbatim>\<open>task_iter.h\<close> and \<^verbatim>\<open>task_iter.bpf.c\<close>. The
  iterator program runs once per task and writes a record to the sequence file that user space
  reads. The record is built in a buffer of the CPU that the program runs on, an entry of a per-CPU
  map, which keeps its contents from one task to the next.
\<close>

section \<open>Data\<close>

abbreviation (input) MAX_STACK_LEN :: nat where "MAX_STACK_LEN \<equiv> 127"

record task_info =
  ti_pid :: u32
  ti_tid :: u32
  ti_state :: u32
  ti_comm :: bytes
  ti_kstack_len :: int
  ti_kstack :: "u64 list"

definition task_info_layout :: "task_info \<Rightarrow> bool" where
  "task_info_layout t \<longleftrightarrow> length (ti_comm t) = 16 \<and> length (ti_kstack t) = MAX_STACK_LEN"

text \<open>
  A task as the program sees it: the fields it reads (the state field is \<^verbatim>\<open>long state\<close> before
  Linux 5.14 and \<^verbatim>\<open>unsigned int __state\<close> after) and what the helpers do for it.
\<close>

datatype task_state_field = Pre514 u64 | Post514 u32

record task =
  tk_tgid :: u32
  tk_pid :: u32
  tk_state :: task_state_field
  tk_comm :: u64
  tk_read_str :: read_str_helper
  tk_get_stack :: "nat \<Rightarrow> u64 list \<Rightarrow> int \<times> u64 list"

record ('s, 'e) seq_ops =
  seq_write :: "'s \<Rightarrow> 'e \<Rightarrow> int \<times> 's"
  seq_records :: "'s \<Rightarrow> 'e list"

text \<open>\<open>task_info_buf\<close> is what the lookup of key 0 yields on each CPU.\<close>

record 's task_iter_bpf =
  task_info_buf :: "nat \<Rightarrow> task_info option"
  seq :: 's

section \<open>The program\<close>

fun get_task_state_bpf :: "task_state_field \<Rightarrow> u32" where
  "get_task_state_bpf (Pre514 state) = ucast state"
| "get_task_state_bpf (Post514 state) = state"

definition get_tasks ::
  "('s, task_info) seq_ops \<Rightarrow> nat \<Rightarrow> task option \<Rightarrow> 's task_iter_bpf \<Rightarrow> int \<times> 's task_iter_bpf" where
  "get_tasks sops cpu task s =
     (case task of
        None \<Rightarrow> (0, s)
      | Some task \<Rightarrow>
        case task_info_buf s cpu of
          None \<Rightarrow> (0, s)
        | Some t \<Rightarrow>
          let t = t\<lparr>ti_pid := tk_tgid task\<rparr>;
              t = t\<lparr>ti_tid := tk_pid task\<rparr>;
              t = t\<lparr>ti_state := get_task_state_bpf (tk_state task)\<rparr>;
              t = t\<lparr>ti_comm := snd (tk_read_str task (tk_comm task) 16 (ti_comm t))\<rparr>;
              (res, stack) = tk_get_stack task (8 * MAX_STACK_LEN) (ti_kstack t);
              t = t\<lparr>ti_kstack := stack\<rparr>;
              t = t\<lparr>ti_kstack_len := to_int32 (if res \<le> 0 then res else res div 8)\<rparr>;
              (_, sq) = seq_write sops (seq s) t
          in (0, s\<lparr>task_info_buf := (task_info_buf s)(cpu := Some t), seq := sq\<rparr>))"

text \<open>The kernel runs the program for one task after the other, each time on some CPU.\<close>

fun iterate where
  "iterate sops [] s = s"
| "iterate sops ((cpu, t) # ts) s = iterate sops ts (snd (get_tasks sops cpu t s))"

section \<open>What the records say\<close>

text \<open>
  The meaning of a record: the ids, the state, the name up to its terminator, the length or error
  code of the stack, and the frames up to that length. The bytes behind the terminator and the
  frames behind the length have no meaning (and may stem from an earlier task).
\<close>

datatype task_report = Task_report (tr_pid: u32) (tr_tid: u32) (tr_state: u32) (tr_comm: "string option")
  (tr_len: int) (tr_frames: "u64 list")

definition task_report_of :: "task_info \<Rightarrow> task_report" where
  "task_report_of t = Task_report (ti_pid t) (ti_tid t) (ti_state t) (c_str (ti_comm t)) (ti_kstack_len t)
     (take (nat (ti_kstack_len t)) (ti_kstack t))"

text \<open>The stack of a task, or the error for which there is none.\<close>

type_synonym stack = "int + u64 list"

fun stack_len :: "stack \<Rightarrow> int" where
  "stack_len (Inl err) = err"
| "stack_len (Inr frames) = int (length frames)"

fun stack_frames :: "stack \<Rightarrow> u64 list" where
  "stack_frames (Inl err) = []"
| "stack_frames (Inr frames) = frames"

text \<open>
  What the helpers promise for a task with the given name and stack: the name is copied as a
  string, at most 15 characters of it; the stack helper returns an error or writes the frames to
  the start of the buffer and returns the number of bytes that it wrote.
\<close>

definition task_doc :: "string \<Rightarrow> stack \<Rightarrow> task \<Rightarrow> bool" where
  "task_doc name st t \<longleftrightarrow> no_nul name \<and>
     (\<forall>dst. length dst = 16 \<longrightarrow> snd (tk_read_str t (tk_comm t) 16 dst) = str_copy 16 name dst) \<and>
     (\<forall>buf. length buf = MAX_STACK_LEN \<longrightarrow>
        (let (res, out) = tk_get_stack t (8 * MAX_STACK_LEN) buf
         in length out = MAX_STACK_LEN \<and>
            (case st of
               Inl err \<Rightarrow> res = err
             | Inr frames \<Rightarrow> res = 8 * int (length frames) \<and> take (length frames) out = frames))) \<and>
     (case st of Inl err \<Rightarrow> - 4096 < err \<and> err < 0 | Inr frames \<Rightarrow> length frames \<le> MAX_STACK_LEN)"

definition expected_report :: "string \<Rightarrow> stack \<Rightarrow> task \<Rightarrow> task_report" where
  "expected_report name st t = Task_report (tk_tgid t) (tk_pid t) (get_task_state_bpf (tk_state t))
     (Some (take 15 name)) (stack_len st) (stack_frames st)"

text \<open>Every CPU has its buffer: the lookup of the only key of the map does not fail.\<close>

definition buffers_ok :: "'s task_iter_bpf \<Rightarrow> bool" where
  "buffers_ok s \<longleftrightarrow> (\<forall>cpu. \<exists>t. task_info_buf s cpu = Some t \<and> task_info_layout t)"

text \<open>A sequence file that takes what is written to it, as long as there is room.\<close>

locale seq_file =
  fixes sops :: "('s, task_info) seq_ops"
  assumes write_ok: "fst (seq_write sops s t) = 0 \<Longrightarrow> seq_records sops (snd (seq_write sops s t)) = seq_records sops s @ [t]"
begin

lemma get_tasks_record:
  assumes "buffers_ok s" and doc: "task_doc name st task"
  shows "buffers_ok (snd (get_tasks sops cpu (Some task) s)) \<and>
    (\<exists>t. task_report_of t = expected_report name st task \<and>
      seq (snd (get_tasks sops cpu (Some task) s)) = snd (seq_write sops (seq s) t))"
proof -
  obtain t0 where buf: "task_info_buf s cpu = Some t0" and l: "length (ti_comm t0) = 16" "length (ti_kstack t0) = MAX_STACK_LEN"
    using assms(1) by (auto simp: buffers_ok_def task_info_layout_def)
  obtain res out where gs: "tk_get_stack task 1016 (ti_kstack t0) = (res, out)" by fastforce
  have d: "snd (tk_read_str task (tk_comm task) 16 (ti_comm t0)) = str_copy 16 name (ti_comm t0)"
    "no_nul name" "length out = 127"
    and st: "case st of Inl err \<Rightarrow> res = err \<and> - 4096 < err \<and> err < 0
       | Inr frames \<Rightarrow> res = 8 * int (length frames) \<and> take (length frames) out = frames \<and> length frames \<le> 127"
    using doc l gs by (auto simp: task_doc_def Let_def split: sum.splits)
  have len: "res \<le> 0 \<Longrightarrow> to_int32 res = stack_len st" "\<not> res \<le> 0 \<Longrightarrow> to_int32 (res div 8) = stack_len st"
    using st by (cases st; auto simp: int_in_range_def intro!: to_int32_id)+
  let ?t = "t0\<lparr>ti_pid := tk_tgid task, ti_tid := tk_pid task, ti_state := get_task_state_bpf (tk_state task),
     ti_comm := str_copy 16 name (ti_comm t0), ti_kstack := out, ti_kstack_len := stack_len st\<rparr>"
  have "snd (get_tasks sops cpu (Some task) s) =
      s\<lparr>task_info_buf := (task_info_buf s)(cpu := Some ?t), seq := snd (seq_write sops (seq s) ?t)\<rparr>"
    using buf by (simp add: get_tasks_def Let_def case_prod_beta gs d(1) len)
  moreover have "task_info_layout ?t" using d l by (simp add: task_info_layout_def length_str_copy)
  moreover have "task_report_of ?t = expected_report name st task"
    using d st by (cases st) (simp_all add: task_report_of_def expected_report_def c_str_str_copy)
  ultimately show ?thesis using assms(1) by (auto simp: buffers_ok_def)
qed

text \<open>All tasks, each in the buffer that an earlier one left behind on its CPU.\<close>

lemma iterate_reports:
  assumes room: "\<And>s t. fst (seq_write sops s t) = 0"
    and "buffers_ok s" and "list_all (\<lambda>(cpu, name, st, task). task_doc name st task) ts"
  shows "map task_report_of (seq_records sops (seq (iterate sops (map (\<lambda>(cpu, _, _, task). (cpu, Some task)) ts) s))) =
     map task_report_of (seq_records sops (seq s)) @ map (\<lambda>(_, name, st, task). expected_report name st task) ts"
  using assms(2-)
proof (induction ts arbitrary: s)
  case (Cons x ts)
  obtain cpu name st task where x: "x = (cpu, name, st, task)" by (cases x) auto
  let ?s = "snd (get_tasks sops cpu (Some task) s)"
  obtain t where t: "buffers_ok ?s" "task_report_of t = expected_report name st task"
    "seq ?s = snd (seq_write sops (seq s) t)"
    using get_tasks_record [OF Cons.prems(1), of name st task cpu] Cons.prems(2) x by auto
  have "map task_report_of (seq_records sops (seq ?s)) =
      map task_report_of (seq_records sops (seq s)) @ [expected_report name st task]"
    by (simp add: t(2,3) write_ok room)
  with Cons.IH [OF t(1)] Cons.prems(2) x show ?case by simp
qed simp

end

definition growing_seq :: "(task_info list, task_info) seq_ops" where
  "growing_seq = \<lparr>seq_write = (\<lambda>s t. (0, s @ [t])), seq_records = (\<lambda>s. s)\<rparr>"

interpretation growing_seq: seq_file growing_seq
  by unfold_locales (auto simp: growing_seq_def)

section \<open>Properties\<close>

text \<open>
  C5. While the sequence file has room, the iterator writes one record per task, in order, on
  whichever CPUs it runs: with the process and thread id, the state in whichever field the kernel
  has, at most 15 characters of the name, and the number of stack frames with these frames, or the
  error code. Nothing of this stems from another task, although the buffer is reused: neither the
  name (whatever the lengths of the two names) nor the frames within the given length.
\<close>

theorem iterate_all_tasks:
  assumes "seq_file sops" and "\<forall>q t. fst (seq_write sops q t) = 0"
    and "buffers_ok s" and "seq_records sops (seq s) = []"
    and "list_all (\<lambda>(cpu, name, st, task). task_doc name st task) ts"
  shows "map task_report_of (seq_records sops (seq (iterate sops (map (\<lambda>(cpu, _, _, task). (cpu, Some task)) ts) s))) =
     map (\<lambda>(_, name, st, task). expected_report name st task) ts"
  using seq_file.iterate_reports [OF assms(1) _ assms(3,5)] assms(2,4) by simp

definition sample_task :: "string \<Rightarrow> stack \<Rightarrow> task" where
  "sample_task name st = \<lparr>tk_tgid = 7, tk_pid = 8, tk_state = Pre514 0x100000001, tk_comm = 0,
     tk_read_str = (\<lambda>a n dst. (0, str_copy n name dst)),
     tk_get_stack = (\<lambda>n buf. case st of Inl err \<Rightarrow> (err, buf)
       | Inr frames \<Rightarrow> (8 * int (length frames), frames @ drop (length frames) buf))\<rparr>"

definition sample_buffers :: "task_info list task_iter_bpf" where
  "sample_buffers = \<lparr>task_info_buf = (\<lambda>cpu. Some \<lparr>ti_pid = 0, ti_tid = 0, ti_state = 0, ti_comm = replicate 16 5,
     ti_kstack_len = 0, ti_kstack = replicate 127 0\<rparr>), seq = []\<rparr>"

lemma sample_buffers_ok: "buffers_ok sample_buffers" "seq sample_buffers = []"
  by (simp_all add: buffers_ok_def sample_buffers_def task_info_layout_def)

lemma sample_task_doc:
  assumes "no_nul name" and "case st of Inl err \<Rightarrow> - 4096 < err \<and> err < 0 | Inr frames \<Rightarrow> length frames \<le> MAX_STACK_LEN"
  shows "task_doc name st (sample_task name st)"
  using assms by (cases st) (simp_all add: task_doc_def sample_task_def)

theorem iterate_all_tasks_witness:
  "map task_report_of (seq_records growing_seq (seq (iterate growing_seq
      [(0, Some (sample_task ''systemd'' (Inr [10, 20, 30]))), (1, Some (sample_task ''cat'' (Inr []))),
       (0, Some (sample_task ''sh'' (Inl (- 22))))] sample_buffers))) =
   [Task_report 7 8 1 (Some ''systemd'') 3 [10, 20, 30], Task_report 7 8 1 (Some ''cat'') 0 [],
    Task_report 7 8 1 (Some ''sh'') (- 22) []]"
proof -
  let ?ts = "[(0 :: nat, ''systemd'', Inr [10, 20, 30] :: stack, sample_task ''systemd'' (Inr [10, 20, 30])),
    (1, ''cat'', Inr [], sample_task ''cat'' (Inr [])), (0, ''sh'', Inl (- 22), sample_task ''sh'' (Inl (- 22)))]"
  have "map task_report_of (seq_records growing_seq (seq (iterate growing_seq
        (map (\<lambda>(cpu, _, _, task). (cpu, Some task)) ?ts) sample_buffers))) =
      map (\<lambda>(_, name, st, task). expected_report name st task) ?ts"
    by (rule iterate_all_tasks [OF growing_seq.seq_file_axioms])
       (simp_all add: sample_buffers_ok sample_task_doc no_nul_def growing_seq_def)
  then show ?thesis by (simp add: expected_report_def sample_task_def)
qed

end
