(* ===== verification/Task_Iter.thy ===== *)
theory Task_Iter
  imports Task_Iter_Bpf User_World
begin

text \<open>
  The user-space half of \<^verbatim>\<open>task_iter\<close>, \<^verbatim>\<open>task_iter.c\<close>: it reads the records of the
  iterator and prints a line for each.
\<close>

section \<open>Helpers\<close>

record env_task_iter =
  ti_verbose :: bool

definition libbpf_print_fn_task_iter ::
  "'d environment \<Rightarrow> env_task_iter \<Rightarrow> libbpf_print_level \<Rightarrow> string \<Rightarrow> 'd world \<Rightarrow> int \<times> 'd world" where
  "libbpf_print_fn_task_iter env e level msg w =
     (if level = LIBBPF_DEBUG \<and> \<not> ti_verbose e then (0, w)
      else let (r, w) = sys env (Printf Stderr msg) w in (rv r, w))"

definition get_task_state :: "u32 \<Rightarrow> string" where
  "get_task_state state =
     (if state = 0x0000 then ''RUNNING''
      else if state = 0x0001 then ''INTERRUPTIBLE''
      else if state = 0x0002 then ''UNINTERRUPTIBLE''
      else if state = 0x0200 then ''WAKING''
      else if state = 0x0400 then ''NOLOAD''
      else if state = 0x0402 then ''IDLE''
      else if state = 0x0800 then ''NEW''
      else ''<unknown>'')"

section \<open>main\<close>

text \<open>
  The fields that \<^verbatim>\<open>main\<close> prints are in the first 32 bytes of the buffer; \<open>filled\<close> says that
  some read has written them. The data of a read is the buffer as it is afterwards.
\<close>

abbreviation (input) sizeof_task_info :: nat where "sizeof_task_info \<equiv> 1048"

definition print_task :: "task_info environment \<Rightarrow> task_info \<Rightarrow> task_info world \<Rightarrow> outcome \<times> task_info world" where
  "print_task env buf w =
     (case c_str (ti_comm buf) of
        None \<Rightarrow> (Inl Overread, w)
      | Some comm \<Rightarrow>
        if ti_kstack_len buf \<le> 0 then
          (let (_, w) = sys env (Printf Stdout (''Error getting kernel stack for task. Task Info. Pid: '' @
                 dec_int (sint (ti_pid buf)) @ ''. Process Name: '' @ comm @ ''. Kernel Stack Error: '' @
                 dec_int (ti_kstack_len buf) @ ''. State: '' @ get_task_state (ti_state buf) @ [CHR 0x0A])) w
           in (Inr 0, w))
        else
          (let (_, w) = sys env (Printf Stdout (''Task Info. Pid: '' @ dec_int (sint (ti_pid buf)) @
                 ''. Process Name: '' @ comm @ ''. Kernel Stack Len: '' @ dec_int (ti_kstack_len buf) @
                 ''. State: '' @ get_task_state (ti_state buf) @ [CHR 0x0A])) w
           in (Inr 0, w)))"

partial_function (option) read_task_iter ::
  "task_info environment \<Rightarrow> int \<Rightarrow> int \<Rightarrow> bool \<Rightarrow> task_info world \<Rightarrow> (outcome \<times> task_info world) option" where
  "read_task_iter env iter_fd err filled w =
     (let (r, w) = sys env (Op (Read_fd iter_fd sizeof_task_info)) w;
          ret = rv r
      in if ret < 0 then
           (if rerrno r = EAGAIN then read_task_iter env iter_fd err filled w
            else Some (Inr (- rerrno r), w))
         else if ret = 0 then Some (Inr err, w)
         else
           let filled = filled \<or> 32 \<le> ret
           in if \<not> filled then Some (Inl Uninitialised, w)
              else case print_task env (rdata r) w of
                (Inl u, w) \<Rightarrow> Some (Inl u, w)
              | (Inr _, w) \<Rightarrow> read_task_iter env iter_fd err filled w)"

text \<open>
  The local variables \<open>iter_fd\<close> and \<open>err\<close> have no value (\<^term>\<open>None\<close>) until they are assigned; a
  use of such a variable is undefined behaviour.
\<close>

definition cleanup_task_iter ::
  "'d environment \<Rightarrow> int option \<Rightarrow> int \<Rightarrow> int option \<Rightarrow> 'd world \<Rightarrow> outcome \<times> 'd world" where
  "cleanup_task_iter env iter_fd skel err w =
     (case iter_fd of
        None \<Rightarrow> (Inl Uninitialised, w)
      | Some iter_fd \<Rightarrow>
        let (_, w) = sys env (Rel (Close_fd iter_fd)) w;
            (_, w) = sys env (Rel (Skel_destroy skel)) w
        in case err of
             None \<Rightarrow> (Inl Uninitialised, w)
           | Some err \<Rightarrow> (Inr (if err < 0 then - err else 0), w))"

definition main_task_iter :: "task_info environment \<Rightarrow> (outcome \<times> task_info world) option" where
  "main_task_iter env =
     (let w = start_world;
          iter_fd = None;
          err = None;
          (_, w) = sys env Set_print w;
          (_, w) = sys env (Signal SIGINT) w;
          (_, w) = sys env (Signal SIGTERM) w;
          (r, w) = sys env (Acq Skel_open_and_load) w;
          skel = rv r
      in if skel = 0 then
           (let (_, w) = sys env (Printf Stderr (''Failed to open and load BPF skeleton'' @ [CHR 0x0A])) w
            in Some (cleanup_task_iter env iter_fd skel err w))
         else
           let (r, w) = sys env (Op (Skel_attach skel)) w;
               err = rv r
           in if err \<noteq> 0 then
                (let (_, w) = sys env (Printf Stderr (''Failed to attach BPF skeleton'' @ [CHR 0x0A])) w
                 in Some (cleanup_task_iter env iter_fd skel (Some err) w))
              else
                let (r, w) = sys env (Acq (Iter_create skel)) w;
                    iter_fd = rv r
                in if iter_fd < 0 then
                     (let (_, w) = sys env (Printf Stderr (''Failed to create iter'' @ [CHR 0x0A])) w
                      in Some (cleanup_task_iter env (Some iter_fd) skel (Some (- 1)) w))
                   else
                     Option.bind (read_task_iter env iter_fd err False w) (\<lambda>(d, w).
                       case d of Inl u \<Rightarrow> Some (Inl u, w)
                       | Inr err \<Rightarrow> Some (cleanup_task_iter env (Some iter_fd) skel (Some err) w)))"

section \<open>What is printed\<close>

text \<open>The line of the program's documentation: the error form is for stacks that could not be taken.\<close>

fun documented_line :: "task_report \<Rightarrow> string" where
  "documented_line (Task_report pid tid state comm n frames) =
     (if n < 0 then ''Error getting kernel stack for task. '' else []) @
     ''Task Info. Pid: '' @ dec_int (sint pid) @ ''. Process Name: '' @ the comm @
     (if n < 0 then ''. Kernel Stack Error: '' else ''. Kernel Stack Len: '') @ dec_int n @
     ''. State: '' @ get_task_state state @ [CHR 0x0A]"

text \<open>The line the program prints: an empty stack is taken for an error.\<close>

fun task_line :: "task_report \<Rightarrow> string" where
  "task_line (Task_report pid tid state comm n frames) =
     (if n \<le> 0 then ''Error getting kernel stack for task. '' else []) @
     ''Task Info. Pid: '' @ dec_int (sint pid) @ ''. Process Name: '' @ the comm @
     (if n \<le> 0 then ''. Kernel Stack Error: '' else ''. Kernel Stack Len: '') @ dec_int n @
     ''. State: '' @ get_task_state state @ [CHR 0x0A]"

lemma task_line_documented: "task_line r = documented_line r \<longleftrightarrow> tr_len r \<noteq> 0"
  by (cases r) simp

lemma print_task_line:
  assumes "tr_comm (task_report_of t) \<noteq> None"
  shows "fst (print_task env t w) = Inr 0"
    and "printed Stdout (hist (snd (print_task env t w))) = printed Stdout (hist w) @ task_line (task_report_of t)"
  using assms by (auto simp: print_task_def task_report_of_def Let_def case_prod_beta)

lemma holds_print_task [owned]: "holds (snd (print_task env t w)) = holds w"
  by (simp add: print_task_def Let_def case_prod_beta owned split: option.split)

section \<open>Resources\<close>

lemma read_task_iter_holds:
  assumes "read_task_iter env iter_fd err filled w = Some (d, w')"
    and "holds w = Some h" and "H_fd iter_fd \<in> set h"
  shows "holds w' = Some h"
proof -
  have pt: "holds w' = holds w" if "print_task env t w = (d, w')" for env t w d w'
    using holds_print_task [of env t w] that by simp
  have "holds w = Some h \<longrightarrow> H_fd iter_fd \<in> set h \<longrightarrow> holds (snd (d, w')) = Some h"
  proof (rule read_task_iter.raw_induct [where P = "\<lambda>env iter_fd err filled w r. holds w = Some h \<longrightarrow>
      H_fd iter_fd \<in> set h \<longrightarrow> holds (snd r) = Some h", OF _ assms(1)], goal_cases)
    case (1 f env iter_fd err filled w r)
    then show ?case
      by (auto simp: Let_def case_prod_beta pt owned split: if_splits sum.splits prod.splits)
  qed
  with assms show ?thesis by simp
qed

lemma finish_task_iter:
  assumes "Option.bind (read_task_iter env iter_fd err False w) (\<lambda>(d, w).
      case d of Inl u \<Rightarrow> Some (Inl u, w) | Inr err \<Rightarrow> Some (cleanup_task_iter env (Some iter_fd) skel (Some err) w)) = Some (Inr status, w')"
    and "holds w = Some [H_fd iter_fd, H_skel skel]" and "0 \<le> iter_fd" and "skel \<noteq> 0"
  shows "holds w' = Some []"
proof -
  from assms(1) obtain d v where p: "read_task_iter env iter_fd err False w = Some (d, v)"
    and w': "(case d of Inl u \<Rightarrow> Some (Inl u, v) | Inr err \<Rightarrow> Some (cleanup_task_iter env (Some iter_fd) skel (Some err) v)) = Some (Inr status, w')"
    by (auto simp: Option.bind_eq_Some_conv)
  have "holds v = Some [H_fd iter_fd, H_skel skel]"
    using p assms(2) by (rule read_task_iter_holds) simp
  with w' assms(3,4) show ?thesis
    by (auto simp: cleanup_task_iter_def Let_def case_prod_beta owned split: sum.splits)
qed

interpretation task_iter: tidy_program main_task_iter
proof unfold_locales
  fix env status w
  assume "main_task_iter env = Some (Inr status, w)"
  then show "holds w = Some []"
    unfolding main_task_iter_def Let_def case_prod_beta
    by (auto simp: cleanup_task_iter_def Let_def case_prod_beta owned
        elim!: finish_task_iter [unfolded case_prod_beta] split: if_splits)
qed

text \<open>Reads that fill the fields which are printed, as reads of whole records do.\<close>

definition whole_reads :: "task_info environment \<Rightarrow> bool" where
  "whole_reads env \<longleftrightarrow> (\<forall>h fd. rv (env h (Op (Read_fd fd sizeof_task_info))) \<in> {..0} \<union> {32..})"

lemma print_task_initialised: "fst (print_task env t w) \<noteq> Inl Uninitialised"
  by (auto simp: print_task_def Let_def case_prod_beta split: option.splits)

lemma read_task_iter_initialised:
  assumes "read_task_iter env iter_fd err filled w = Some (d, w')" and "whole_reads env"
  shows "d \<noteq> Inl Uninitialised"
proof -
  have "whole_reads env \<longrightarrow> fst (d, w') \<noteq> Inl Uninitialised"
  proof (rule read_task_iter.raw_induct [where P = "\<lambda>env iter_fd err filled w r. whole_reads env \<longrightarrow>
      fst r \<noteq> Inl Uninitialised", OF _ assms(1)], goal_cases)
    case (1 f env iter_fd err filled w r)
    let ?n = "rv (fst (sys env (Op (Read_fd iter_fd sizeof_task_info)) w))"
    have "whole_reads env \<Longrightarrow> ?n < 0 \<or> ?n = 0 \<or> 32 \<le> ?n"
      by (auto simp: whole_reads_def sys_answer le_less)
    moreover have "whole_reads env \<longrightarrow> fst r \<noteq> Inl Uninitialised"
      if "f env iter_fd err filled' v = Some r" for filled' v
      using 1(1) [of env iter_fd err filled' v r] that by simp
    ultimately show ?case using 1(2) print_task_initialised
      by (auto simp: Let_def case_prod_beta split: if_splits sum.splits prod.splits)
  qed
  with assms(2) show ?thesis by simp
qed

section \<open>A run over the records of an iterator\<close>

definition is_read :: "call \<times> 'd resp \<Rightarrow> bool" where
  "is_read x = (case fst x of Op (Read_fd fd n) \<Rightarrow> True | _ \<Rightarrow> False)"

definition reads :: "'d history \<Rightarrow> nat" where
  "reads h = length (filter is_read h)"

text \<open>The descriptor yields the records one by one and then the end of the file.\<close>

definition serves :: "task_info list \<Rightarrow> task_info environment \<Rightarrow> bool" where
  "serves ts env \<longleftrightarrow> (\<forall>h fd n. if reads h < length ts
     then rv (env h (Op (Read_fd fd n))) = int n \<and> rdata (env h (Op (Read_fd fd n))) = ts ! reads h
     else rv (env h (Op (Read_fd fd n))) = 0)"

lemma reads_sys: "reads (hist (snd (sys env c w))) = reads (hist w) + (case c of Op (Read_fd fd n) \<Rightarrow> 1 | _ \<Rightarrow> 0)"
  by (simp add: reads_def sys_hist is_read_def split: call.split use_call.split)

lemma reads_print_task: "reads (hist (snd (print_task env t w))) = reads (hist w)"
  by (simp add: print_task_def Let_def case_prod_beta reads_sys split: option.split)

lemma read_task_iter_prints:
  assumes "serves ts env" and "list_all (\<lambda>t. tr_comm (task_report_of t) \<noteq> None) ts"
  shows "\<exists>w'. read_task_iter env fd err filled w = Some (Inr err, w') \<and>
     printed Stdout (hist w') = printed Stdout (hist w) @ concat (map (task_line \<circ> task_report_of) (drop (reads (hist w)) ts))"
proof (induction "length ts - reads (hist w)" arbitrary: w filled)
  case 0
  then have "rv (fst (sys env (Op (Read_fd fd sizeof_task_info)) w)) = 0"
    using assms(1) by (simp add: serves_def sys_answer)
  with 0 show ?case by (subst read_task_iter.simps) (simp add: Let_def case_prod_beta)
next
  case (Suc k)
  let ?s = "sys env (Op (Read_fd fd sizeof_task_info)) w"
  let ?t = "ts ! reads (hist w)"
  have lt: "reads (hist w) < length ts" using Suc.hyps(2) by simp
  have r: "rv (fst ?s) = 1048" "rdata (fst ?s) = ?t"
    using assms(1) lt by (simp_all add: serves_def sys_answer)
  have comm: "tr_comm (task_report_of ?t) \<noteq> None" using assms(2) lt by (simp add: list_all_length)
  let ?v = "snd (print_task env ?t (snd ?s))"
  have step: "read_task_iter env fd err filled w = read_task_iter env fd err True ?v"
    by (subst read_task_iter.simps) (simp add: Let_def case_prod_beta r print_task_line(1) [OF comm])
  have n: "reads (hist ?v) = Suc (reads (hist w))" by (simp add: reads_print_task reads_sys)
  then have "k = length ts - reads (hist ?v)" using Suc.hyps(2) by simp
  from Suc.hyps(1) [OF this, of True] obtain w' where "read_task_iter env fd err True ?v = Some (Inr err, w')"
    "printed Stdout (hist w') = printed Stdout (hist ?v) @ concat (map (task_line \<circ> task_report_of) (drop (Suc (reads (hist w))) ts))"
    unfolding n by blast
  with step print_task_line(2) [OF comm, of env "snd ?s"] Cons_nth_drop_Suc [OF lt, symmetric] show ?case
    by simp
qed

lemma main_task_iter_output:
  assumes "serves ts env" and "list_all (\<lambda>t. tr_comm (task_report_of t) \<noteq> None) ts"
    and "\<forall>h. rv (env h (Acq Skel_open_and_load)) \<noteq> 0" and "\<forall>h p. rv (env h (Op (Skel_attach p))) = 0"
    and "\<forall>h p. 0 \<le> rv (env h (Acq (Iter_create p)))"
  shows "\<exists>w. main_task_iter env = Some (Inr 0, w) \<and> printed Stdout (hist w) = concat (map (task_line \<circ> task_report_of) ts)"
proof -
  define w1 where "w1 = snd (sys env (Signal SIGTERM) (snd (sys env (Signal SIGINT) (snd (sys env Set_print start_world)))))"
  define s2 where "s2 = sys env (Acq Skel_open_and_load) w1"
  define s3 where "s3 = sys env (Op (Skel_attach (rv (fst s2)))) (snd s2)"
  define s4 where "s4 = sys env (Acq (Iter_create (rv (fst s2)))) (snd s3)"
  have ok: "rv (fst s2) \<noteq> 0" "rv (fst s3) = 0" "0 \<le> rv (fst s4)"
    using assms(3-5) by (simp_all add: s2_def s3_def s4_def sys_answer)
  have pr: "printed Stdout (hist (snd s4)) = []" and rd: "reads (hist (snd s4)) = 0"
    by (simp_all add: s4_def s3_def s2_def w1_def reads_sys) (simp add: reads_def start_world_def)
  obtain w' where w': "read_task_iter env (rv (fst s4)) 0 False (snd s4) = Some (Inr 0, w')"
    "printed Stdout (hist w') = concat (map (task_line \<circ> task_report_of) ts)"
    using read_task_iter_prints [OF assms(1,2), of "rv (fst s4)" 0 False "snd s4"] pr rd by auto
  have "main_task_iter env = Some (cleanup_task_iter env (Some (rv (fst s4))) (rv (fst s2)) (Some 0) w')"
    using ok w'(1) unfolding main_task_iter_def Let_def case_prod_beta
    by (simp add: s2_def s3_def s4_def w1_def)
  then show ?thesis using w'(2) by (simp add: cleanup_task_iter_def Let_def case_prod_beta)
qed

section \<open>Properties\<close>

text \<open>
  C35. Every status that \<^verbatim>\<open>main\<close> of \<^verbatim>\<open>task_iter\<close> returns is reached with the descriptor closed
  and the skeleton destroyed, and no handle is misused.
\<close>

theorem main_task_iter_tidy:
  assumes "main_task_iter env = Some (Inr status, w)"
  shows "holds w = Some [] \<and> (\<forall>n. ledger (take n (hist w)) [] \<noteq> None)"
  using task_iter.nothing_held [OF assms] task_iter.never_misused [OF assms] by auto

definition task_iter_answer :: "call \<Rightarrow> int" where
  "task_iter_answer c = (case c of Acq Skel_open_and_load \<Rightarrow> 1 | Acq (Iter_create p) \<Rightarrow> 3 | _ \<Rightarrow> 0)"

definition no_task :: task_info where
  "no_task = \<lparr>ti_pid = 0, ti_tid = 0, ti_state = 0, ti_comm = [0], ti_kstack_len = 0, ti_kstack = []\<rparr>"

theorem main_task_iter_tidy_witness:
  "\<exists>w. main_task_iter (scripted task_iter_answer no_task) = Some (Inr 0, w) \<and> holds w = Some [] \<and>
     (\<forall>n. ledger (take n (hist w)) [] \<noteq> None)"
proof -
  have end_of_file: "read_task_iter (scripted task_iter_answer no_task) fd err filled w =
      Some (Inr err, snd (sys (scripted task_iter_answer no_task) (Op (Read_fd fd sizeof_task_info)) w))" for fd err filled w
    by (subst read_task_iter.simps)
       (simp add: Let_def case_prod_beta sys_answer scripted_def task_iter_answer_def)
  have "\<exists>w. main_task_iter (scripted task_iter_answer no_task) = Some (Inr 0, w)"
    by (simp add: main_task_iter_def cleanup_task_iter_def Let_def case_prod_beta end_of_file)
       (simp add: sys_answer scripted_def task_iter_answer_def)
  then obtain w where w: "main_task_iter (scripted task_iter_answer no_task) = Some (Inr 0, w)" by blast
  from main_task_iter_tidy [OF w] w show ?thesis by blast
qed

text \<open>
  C36. Let the skeleton be opened or not and be attached or not, always with the same answer, and
  reads return whole records. Then \<^verbatim>\<open>main\<close> uses a variable before it has a value exactly when the
  skeleton cannot be opened or cannot be attached: the cleanup then closes \<^verbatim>\<open>iter_fd\<close>, which is
  assigned only later.
\<close>

theorem main_task_iter_uninitialised:
  assumes "\<forall>h. rv (env h (Acq Skel_open_and_load)) = skel" and "\<forall>h p. rv (env h (Op (Skel_attach p))) = e"
    and "whole_reads env"
  shows "(\<exists>w. main_task_iter env = Some (Inl Uninitialised, w)) \<longleftrightarrow> skel = 0 \<or> e \<noteq> 0"
proof -
  have a: "rv (fst (sys env (Acq Skel_open_and_load) w)) = skel" "rv (fst (sys env (Op (Skel_attach p)) w)) = e" for w p
    using assms(1,2) by (simp_all add: sys_answer)
  show ?thesis
    by (auto simp: main_task_iter_def cleanup_task_iter_def Let_def case_prod_beta a Option.bind_eq_Some_conv
        dest: read_task_iter_initialised [OF _ assms(3)] split: sum.splits if_splits)
qed

theorem main_task_iter_uninitialised_witness:
  "(\<exists>w. main_task_iter (scripted (\<lambda>_. 0) no_task) = Some (Inl Uninitialised, w)) \<and>
   \<not> (\<exists>w. main_task_iter (scripted task_iter_answer no_task) = Some (Inl Uninitialised, w))"
  using main_task_iter_uninitialised [of "scripted (\<lambda>_. 0) no_task" 0 0]
    main_task_iter_uninitialised [of "scripted task_iter_answer no_task" 1 0]
  by (simp add: scripted_def whole_reads_def task_iter_answer_def)



definition reading :: "task_info list \<Rightarrow> task_info environment" where
  "reading ts = (\<lambda>h c. \<lparr>rv = (case c of Op (Read_fd fd n) \<Rightarrow> if reads h < length ts then int n else 0 | _ \<Rightarrow> task_iter_answer c),
     rerrno = 0, rsig = False, rptr = 0, rdata = (if reads h < length ts then ts ! reads h else no_task)\<rparr>)"

end
