(* ===== verification/Tracecon_Bpf.thy ===== *)
theory Tracecon_Bpf
  imports Bpf_Kernel
begin

text \<open>
  The BPF half of \<^verbatim>\<open>tracecon\<close> (\<^verbatim>\<open>tracecon.bpf.c\<close>): four probes follow the threads of a
  process through \<^verbatim>\<open>getaddrinfo\<close> and \<^verbatim>\<open>tcp_v4_connect\<close> and report each connection, by host
  name where the address was looked up before and by address otherwise. The probes of different
  threads interleave freely; what can happen is the reachability relation over histories of
  probes.
\<close>

section \<open>Data\<close>

abbreviation (input) HOSTNAME_LEN :: nat where "HOSTNAME_LEN \<equiv> 84"

record lookup =
  l_c :: bytes
  l_results :: u64

datatype tag = IP | HOSTNAME

record tc_event =
  te_tag :: tag
  te_ip :: bytes
  te_hostname :: bytes

record ('p, 'e) perf_ops =
  perf_event_output :: "'p \<Rightarrow> 'e \<Rightarrow> int \<times> 'p"
  perf_records :: "'p \<Rightarrow> 'e list"

record ('l, 'h, 's, 'p) tracecon_bpf =
  lookups :: 'l
  hostnames :: 'h
  sockets :: 's
  events :: 'p

text \<open>The operations of the three maps and of the perf buffer.\<close>

record ('l, 'h, 's, 'p) tracecon_ops =
  lookups_ops :: "('l, u32, lookup) map_ops"
  hostnames_ops :: "('h, u32, lookup) map_ops"
  sockets_ops :: "('s, u32, u64) map_ops"
  events_ops :: "('p, tc_event) perf_ops"

text \<open>
  One invocation of a probe: who runs, and how the memory of the process and the kernel reads at
  that moment. Addresses are numbers; \<open>pc_read_ptr\<close> and \<open>pc_read_u32\<close> are
  \<^verbatim>\<open>bpf_probe_read_user\<close> at the two sizes the program uses, \<open>pc_daddr\<close> the destination address
  of a socket.
\<close>

record probe_ctx =
  pc_pid_tgid :: u64
  pc_read_str :: read_str_helper
  pc_read_ptr :: "u64 \<Rightarrow> u64"
  pc_read_u32 :: "u64 \<Rightarrow> u32"
  pc_daddr :: "u64 \<Rightarrow> u32"

section \<open>The probes\<close>

definition get_tid :: "u32 \<Rightarrow> probe_ctx \<Rightarrow> u32" where
  "get_tid target_pid ctx =
     (let tgid = pc_pid_tgid ctx;
          pid = tgid_of tgid
      in if target_pid \<noteq> 0 \<and> target_pid \<noteq> pid then 0 else tid_of tgid)"

definition getaddrinfo_enter ::
  "('l, 'h, 's, 'p) tracecon_ops \<Rightarrow> u32 \<Rightarrow> probe_ctx \<Rightarrow> u64 \<Rightarrow> u64 \<Rightarrow>
   ('l, 'h, 's, 'p) tracecon_bpf \<Rightarrow> int \<times> ('l, 'h, 's, 'p) tracecon_bpf" where
  "getaddrinfo_enter ops target_pid ctx hostname res s =
     (let tid = get_tid target_pid ctx;
          lookup = \<lparr>l_c = replicate HOSTNAME_LEN 0, l_results = 0\<rparr>
      in if tid = 0 then (0, s)
         else
           let lookup = lookup\<lparr>l_c := snd (pc_read_str ctx hostname HOSTNAME_LEN (l_c lookup))\<rparr>;
               lookup = lookup\<lparr>l_results := res\<rparr>
           in (0, s\<lparr>lookups := snd (map_update_elem (lookups_ops ops) (lookups s) tid lookup BPF_ANY)\<rparr>))"

text \<open>Offsets of \<^verbatim>\<open>ai_addr\<close> in \<^verbatim>\<open>struct addrinfo\<close> and of \<^verbatim>\<open>sin_addr\<close> in \<^verbatim>\<open>struct sockaddr_in\<close>.\<close>

definition read_ipv4 :: "probe_ctx \<Rightarrow> u64 \<Rightarrow> u32" where
  "read_ipv4 ctx results =
     (let result = pc_read_ptr ctx results;
          addr = pc_read_ptr ctx (result + 24)
      in pc_read_u32 ctx (addr + 4))"

definition getaddrinfo_exit ::
  "('l, 'h, 's, 'p) tracecon_ops \<Rightarrow> u32 \<Rightarrow> probe_ctx \<Rightarrow> int \<Rightarrow>
   ('l, 'h, 's, 'p) tracecon_bpf \<Rightarrow> int \<times> ('l, 'h, 's, 'p) tracecon_bpf" where
  "getaddrinfo_exit ops target_pid ctx ret s =
     (let tid = get_tid target_pid ctx;
          cleanup = (\<lambda>s. (0, s\<lparr>lookups := snd (map_delete_elem (lookups_ops ops) (lookups s) tid)\<rparr>))
      in if tid = 0 then (0, s)
         else if ret \<noteq> 0 then cleanup s
         else case map_lookup_elem (lookups_ops ops) (lookups s) tid of
           None \<Rightarrow> (0, s)
         | Some lookup \<Rightarrow>
           let ipv4_addr = read_ipv4 ctx (l_results lookup)
           in cleanup (s\<lparr>hostnames := snd (map_update_elem (hostnames_ops ops) (hostnames s) ipv4_addr lookup BPF_ANY)\<rparr>))"

definition tcp_v4_connect_enter ::
  "('l, 'h, 's, 'p) tracecon_ops \<Rightarrow> u32 \<Rightarrow> probe_ctx \<Rightarrow> u64 \<Rightarrow>
   ('l, 'h, 's, 'p) tracecon_bpf \<Rightarrow> int \<times> ('l, 'h, 's, 'p) tracecon_bpf" where
  "tcp_v4_connect_enter ops target_pid ctx sk s =
     (let tid = get_tid target_pid ctx
      in if tid = 0 then (0, s)
         else (0, s\<lparr>sockets := snd (map_update_elem (sockets_ops ops) (sockets s) tid sk 0)\<rparr>))"

text \<open>The four bytes of an address as it lies in memory.\<close>

fun ip_bytes :: "endian \<Rightarrow> u32 \<Rightarrow> bytes" where
  "ip_bytes LE ip = to_le 4 (unat ip)"
| "ip_bytes BE ip = rev (to_le 4 (unat ip))"

definition tcp_v4_connect_exit ::
  "endian \<Rightarrow> ('l, 'h, 's, 'p) tracecon_ops \<Rightarrow> u32 \<Rightarrow> probe_ctx \<Rightarrow> int \<Rightarrow>
   ('l, 'h, 's, 'p) tracecon_bpf \<Rightarrow> int \<times> ('l, 'h, 's, 'p) tracecon_bpf" where
  "tcp_v4_connect_exit en ops target_pid ctx ret s =
     (let tid = get_tid target_pid ctx;
          event = \<lparr>te_tag = IP, te_ip = replicate 4 0, te_hostname = replicate HOSTNAME_LEN 0\<rparr>;
          cleanup = (\<lambda>s. (0, s\<lparr>sockets := snd (map_delete_elem (sockets_ops ops) (sockets s) tid)\<rparr>))
      in if tid = 0 then (0, s)
         else if ret \<noteq> 0 then cleanup s
         else case map_lookup_elem (sockets_ops ops) (sockets s) tid of
           None \<Rightarrow> (0, s)
         | Some sock \<Rightarrow>
           let ip = pc_daddr ctx sock;
               (event, s) = (case map_lookup_elem (hostnames_ops ops) (hostnames s) ip of
                   None \<Rightarrow> (event\<lparr>te_tag := IP, te_ip := ip_bytes en ip\<rparr>, s)
                 | Some lookup \<Rightarrow>
                   (event\<lparr>te_tag := HOSTNAME, te_hostname := l_c lookup\<rparr>,
                    s\<lparr>hostnames := snd (map_delete_elem (hostnames_ops ops) (hostnames s) ip)\<rparr>));
               s = s\<lparr>events := snd (perf_event_output (events_ops ops) (events s) event)\<rparr>
           in cleanup s)"

section \<open>Histories of probes\<close>

datatype probe =
    Getaddrinfo_enter probe_ctx u64 u64
  | Getaddrinfo_exit probe_ctx int
  | Connect_enter probe_ctx u64
  | Connect_exit probe_ctx int

fun probe_ctx_of :: "probe \<Rightarrow> probe_ctx" where
  "probe_ctx_of (Getaddrinfo_enter ctx hostname res) = ctx"
| "probe_ctx_of (Getaddrinfo_exit ctx ret) = ctx"
| "probe_ctx_of (Connect_enter ctx sk) = ctx"
| "probe_ctx_of (Connect_exit ctx ret) = ctx"

fun run_probe where
  "run_probe en ops target (Getaddrinfo_enter ctx hostname res) s = snd (getaddrinfo_enter ops target ctx hostname res s)"
| "run_probe en ops target (Getaddrinfo_exit ctx ret) s = snd (getaddrinfo_exit ops target ctx ret s)"
| "run_probe en ops target (Connect_enter ctx sk) s = snd (tcp_v4_connect_enter ops target ctx sk s)"
| "run_probe en ops target (Connect_exit ctx ret) s = snd (tcp_v4_connect_exit en ops target ctx ret s)"

text \<open>The state as the specification sees it.\<close>

definition pending :: "('l, 'h, 's, 'p) tracecon_ops \<Rightarrow> ('l, 'h, 's, 'p) tracecon_bpf \<Rightarrow> u32 \<rightharpoonup> lookup" where
  "pending ops s = map_lookup_elem (lookups_ops ops) (lookups s)"

definition known :: "('l, 'h, 's, 'p) tracecon_ops \<Rightarrow> ('l, 'h, 's, 'p) tracecon_bpf \<Rightarrow> u32 \<rightharpoonup> lookup" where
  "known ops s = map_lookup_elem (hostnames_ops ops) (hostnames s)"

definition connecting :: "('l, 'h, 's, 'p) tracecon_ops \<Rightarrow> ('l, 'h, 's, 'p) tracecon_bpf \<Rightarrow> u32 \<rightharpoonup> u64" where
  "connecting ops s = map_lookup_elem (sockets_ops ops) (sockets s)"

definition reported :: "('l, 'h, 's, 'p) tracecon_ops \<Rightarrow> ('l, 'h, 's, 'p) tracecon_bpf \<Rightarrow> tc_event list" where
  "reported ops s = perf_records (events_ops ops) (events s)"

fun run_probes where
  "run_probes en ops target [] s = s"
| "run_probes en ops target (p # ps) s = run_probes en ops target ps (run_probe en ops target p s)"

lemma run_probes_append:
  "run_probes en ops target (ps @ qs) s = run_probes en ops target qs (run_probes en ops target ps s)"
  by (induction ps arbitrary: s) simp_all

text \<open>Reachable states with the history that leads to them, latest probe first.\<close>

inductive reachable :: "endian \<Rightarrow> ('l, 'h, 's, 'p) tracecon_ops \<Rightarrow> u32 \<Rightarrow> probe list \<Rightarrow> ('l, 'h, 's, 'p) tracecon_bpf \<Rightarrow> bool"
  for en ops target where
  reach_init: "pending ops s = Map.empty \<Longrightarrow> known ops s = Map.empty \<Longrightarrow> connecting ops s = Map.empty \<Longrightarrow>
    reported ops s = [] \<Longrightarrow> reachable en ops target [] s"
| reach_step: "reachable en ops target h s \<Longrightarrow> reachable en ops target (p # h) (run_probe en ops target p s)"

inductive_cases reachable_ConsE: "reachable en ops target (p # h) s"

text \<open>The event of a successful connection, from what is known about the address.\<close>

definition event_for :: "endian \<Rightarrow> (u32 \<rightharpoonup> lookup) \<Rightarrow> u32 \<Rightarrow> tc_event" where
  "event_for en names ip = (case names ip of
       None \<Rightarrow> \<lparr>te_tag = IP, te_ip = ip_bytes en ip, te_hostname = replicate HOSTNAME_LEN 0\<rparr>
     | Some l \<Rightarrow> \<lparr>te_tag = HOSTNAME, te_ip = replicate 4 0, te_hostname = l_c l\<rparr>)"

section \<open>What justifies an event\<close>

text \<open>The lookup that an entry probe stores for its thread.\<close>

definition lookup_at :: "probe_ctx \<Rightarrow> u64 \<Rightarrow> u64 \<Rightarrow> lookup" where
  "lookup_at ctx hostname res = \<lparr>l_c = snd (pc_read_str ctx hostname HOSTNAME_LEN (replicate HOSTNAME_LEN 0)), l_results = res\<rparr>"

definition asked :: "u32 \<Rightarrow> probe list \<Rightarrow> u32 \<Rightarrow> lookup \<Rightarrow> bool" where
  "asked target h t l \<longleftrightarrow> (\<exists>ctx hostname res. Getaddrinfo_enter ctx hostname res \<in> set h \<and>
     get_tid target ctx = t \<and> t \<noteq> 0 \<and> l = lookup_at ctx hostname res)"

text \<open>A thread that asked for the name got this address as the answer.\<close>

definition resolved :: "u32 \<Rightarrow> probe list \<Rightarrow> u32 \<Rightarrow> lookup \<Rightarrow> bool" where
  "resolved target h ip l \<longleftrightarrow> (\<exists>ctx. Getaddrinfo_exit ctx 0 \<in> set h \<and> asked target h (get_tid target ctx) l \<and>
     ip = read_ipv4 ctx (l_results l))"

definition connected :: "u32 \<Rightarrow> probe list \<Rightarrow> u32 \<Rightarrow> bool" where
  "connected target h ip \<longleftrightarrow> (\<exists>ctx ctx' sk. Connect_exit ctx 0 \<in> set h \<and> Connect_enter ctx' sk \<in> set h \<and>
     get_tid target ctx = get_tid target ctx' \<and> get_tid target ctx \<noteq> 0 \<and> ip = pc_daddr ctx sk)"

definition justified :: "endian \<Rightarrow> u32 \<Rightarrow> probe list \<Rightarrow> tc_event \<Rightarrow> bool" where
  "justified en target h e \<longleftrightarrow> (case te_tag e of
       IP \<Rightarrow> \<exists>ip. connected target h ip \<and> te_ip e = ip_bytes en ip
     | HOSTNAME \<Rightarrow> \<exists>ip l. connected target h ip \<and> resolved target h ip l \<and> te_hostname e = l_c l)"

lemma asked_mono: "asked target h t l \<Longrightarrow> asked target (p # h) t l"
  unfolding asked_def by auto

lemma resolved_mono: "resolved target h ip l \<Longrightarrow> resolved target (p # h) ip l"
  unfolding resolved_def using asked_mono by fastforce

lemma connected_mono: "connected target h ip \<Longrightarrow> connected target (p # h) ip"
  unfolding connected_def by auto

lemma justified_mono: "justified en target h e \<Longrightarrow> justified en target (p # h) e"
  by (auto simp: justified_def intro: connected_mono resolved_mono split: tag.splits)

lemmas justification_mono = asked_mono resolved_mono connected_mono justified_mono

text \<open>The threads that have entered a call and not left it.\<close>

fun in_getaddrinfo :: "u32 \<Rightarrow> probe list \<Rightarrow> u32 \<Rightarrow> bool" where
  "in_getaddrinfo target [] t = False"
| "in_getaddrinfo target (Getaddrinfo_enter ctx hn res # h) t = (get_tid target ctx = t \<or> in_getaddrinfo target h t)"
| "in_getaddrinfo target (Getaddrinfo_exit ctx ret # h) t = (get_tid target ctx \<noteq> t \<and> in_getaddrinfo target h t)"
| "in_getaddrinfo target (_ # h) t = in_getaddrinfo target h t"

fun in_connect :: "u32 \<Rightarrow> probe list \<Rightarrow> u32 \<Rightarrow> bool" where
  "in_connect target [] t = False"
| "in_connect target (Connect_enter ctx sk # h) t = (get_tid target ctx = t \<or> in_connect target h t)"
| "in_connect target (Connect_exit ctx ret # h) t = (get_tid target ctx \<noteq> t \<and> in_connect target h t)"
| "in_connect target (_ # h) t = in_connect target h t"

text \<open>
  A probe touches an address when it completes a lookup whose answer is the address, or a connection
  to it. A sequence of probes leaves an address alone when none of them touches it.
\<close>

fun touches :: "('l, 'h, 's, 'p) tracecon_ops \<Rightarrow> u32 \<Rightarrow> u32 \<Rightarrow> probe \<Rightarrow> ('l, 'h, 's, 'p) tracecon_bpf \<Rightarrow> bool" where
  "touches ops target ip (Getaddrinfo_exit ctx ret) s = (get_tid target ctx \<noteq> 0 \<and> ret = 0 \<and>
     (case pending ops s (get_tid target ctx) of None \<Rightarrow> False | Some l \<Rightarrow> read_ipv4 ctx (l_results l) = ip))"
| "touches ops target ip (Connect_exit ctx ret) s = (get_tid target ctx \<noteq> 0 \<and> ret = 0 \<and>
     (case connecting ops s (get_tid target ctx) of None \<Rightarrow> False | Some sk \<Rightarrow> pc_daddr ctx sk = ip))"
| "touches ops target ip _ s = False"

fun leaves_alone where
  "leaves_alone en ops target ip [] s = True"
| "leaves_alone en ops target ip (p # ps) s =
     (\<not> touches ops target ip p s \<and> leaves_alone en ops target ip ps (run_probe en ops target p s))"

text \<open>Every entry of the three maps and every event has its reason in the history.\<close>

definition accounted :: "('l, 'h, 's, 'p) tracecon_ops \<Rightarrow> endian \<Rightarrow> u32 \<Rightarrow> probe list \<Rightarrow> ('l, 'h, 's, 'p) tracecon_bpf \<Rightarrow> bool" where
  "accounted ops en target h s \<longleftrightarrow>
     (\<forall>t l. pending ops s t = Some l \<longrightarrow> asked target h t l) \<and>
     (\<forall>ip l. known ops s ip = Some l \<longrightarrow> resolved target h ip l) \<and>
     (\<forall>t sk. connecting ops s t = Some sk \<longrightarrow> (\<exists>ctx. Connect_enter ctx sk \<in> set h \<and> get_tid target ctx = t)) \<and>
     list_all (justified en target h) (reported ops s)"

section \<open>The probes against the interfaces\<close>

locale perf_buffer =
  fixes pops :: "('p, 'e) perf_ops"
  assumes output_ok: "fst (perf_event_output pops p e) = 0 \<Longrightarrow>
      perf_records pops (snd (perf_event_output pops p e)) = perf_records pops p @ [e]"
    and output_err: "fst (perf_event_output pops p e) \<noteq> 0 \<Longrightarrow>
      perf_records pops (snd (perf_event_output pops p e)) = perf_records pops p"

locale tracecon =
  L: bpf_map "lookups_ops ops" + H: bpf_map "hostnames_ops ops" + S: bpf_map "sockets_ops ops" +
  P: perf_buffer "events_ops ops"
  for ops :: "('l, 'h, 's, 'p) tracecon_ops"
begin

lemma gai_enter:
  "pending ops (snd (getaddrinfo_enter ops target ctx hn res s)) = (if get_tid target ctx \<noteq> 0 \<and>
     fst (map_update_elem (lookups_ops ops) (lookups s) (get_tid target ctx) (lookup_at ctx hn res) BPF_ANY) = 0
     then (pending ops s)(get_tid target ctx \<mapsto> lookup_at ctx hn res) else pending ops s)"
  "known ops (snd (getaddrinfo_enter ops target ctx hn res s)) = known ops s"
  "connecting ops (snd (getaddrinfo_enter ops target ctx hn res s)) = connecting ops s"
  "reported ops (snd (getaddrinfo_enter ops target ctx hn res s)) = reported ops s"
  by (auto simp: getaddrinfo_enter_def lookup_at_def pending_def known_def connecting_def reported_def Let_def
      L.lookup_after_update)

lemma gai_exit:
  "pending ops (snd (getaddrinfo_exit ops target ctx ret s)) =
     (if get_tid target ctx \<noteq> 0 then (pending ops s)(get_tid target ctx := None) else pending ops s)"
  "known ops (snd (getaddrinfo_exit ops target ctx ret s)) =
     (case pending ops s (get_tid target ctx) of
        Some l \<Rightarrow> if get_tid target ctx \<noteq> 0 \<and> ret = 0 \<and>
            fst (map_update_elem (hostnames_ops ops) (hostnames s) (read_ipv4 ctx (l_results l)) l BPF_ANY) = 0
          then (known ops s)(read_ipv4 ctx (l_results l) \<mapsto> l) else known ops s
      | None \<Rightarrow> known ops s)"
  "connecting ops (snd (getaddrinfo_exit ops target ctx ret s)) = connecting ops s"
  "reported ops (snd (getaddrinfo_exit ops target ctx ret s)) = reported ops s"
  by (auto simp: getaddrinfo_exit_def pending_def known_def connecting_def reported_def Let_def L.delete
      H.lookup_after_update fun_eq_iff split: option.split)

lemma conn_enter:
  "connecting ops (snd (tcp_v4_connect_enter ops target ctx sk s)) = (if get_tid target ctx \<noteq> 0 \<and>
     fst (map_update_elem (sockets_ops ops) (sockets s) (get_tid target ctx) sk BPF_ANY) = 0
     then (connecting ops s)(get_tid target ctx \<mapsto> sk) else connecting ops s)"
  "pending ops (snd (tcp_v4_connect_enter ops target ctx sk s)) = pending ops s"
  "known ops (snd (tcp_v4_connect_enter ops target ctx sk s)) = known ops s"
  "reported ops (snd (tcp_v4_connect_enter ops target ctx sk s)) = reported ops s"
  by (auto simp: tcp_v4_connect_enter_def pending_def known_def connecting_def reported_def Let_def
      S.lookup_after_update)

lemma conn_exit:
  "connecting ops (snd (tcp_v4_connect_exit en ops target ctx ret s)) =
     (if get_tid target ctx \<noteq> 0 then (connecting ops s)(get_tid target ctx := None) else connecting ops s)"
  "pending ops (snd (tcp_v4_connect_exit en ops target ctx ret s)) = pending ops s"
  "known ops (snd (tcp_v4_connect_exit en ops target ctx ret s)) =
     (case connecting ops s (get_tid target ctx) of
        Some sk \<Rightarrow> if get_tid target ctx \<noteq> 0 \<and> ret = 0 then (known ops s)(pc_daddr ctx sk := None) else known ops s
      | None \<Rightarrow> known ops s)"
  "reported ops (snd (tcp_v4_connect_exit en ops target ctx ret s)) = reported ops s @
     (case connecting ops s (get_tid target ctx) of
        Some sk \<Rightarrow> if get_tid target ctx \<noteq> 0 \<and> ret = 0 \<and>
            fst (perf_event_output (events_ops ops) (events s) (event_for en (known ops s) (pc_daddr ctx sk))) = 0
          then [event_for en (known ops s) (pc_daddr ctx sk)] else []
      | None \<Rightarrow> [])"
  by (auto simp: tcp_v4_connect_exit_def pending_def known_def connecting_def reported_def event_for_def Let_def S.delete
      H.delete P.output_ok P.output_err fun_eq_iff split: option.split)

lemmas probe_effects = gai_enter gai_exit conn_enter conn_exit

lemma accounted_step:
  assumes inv: "accounted ops en target h s"
  shows "accounted ops en target (p # h) (run_probe en ops target p s)"
proof (cases p)
  case (Getaddrinfo_enter ctx hn res)
  then have "asked target (p # h) (get_tid target ctx) (lookup_at ctx hn res)" if "get_tid target ctx \<noteq> 0"
    using that unfolding asked_def by auto
  with inv Getaddrinfo_enter show ?thesis
    by (auto simp: accounted_def gai_enter list_all_iff intro: justification_mono)
next
  case (Getaddrinfo_exit ctx ret)
  have "resolved target (p # h) (read_ipv4 ctx (l_results l)) l"
    if "pending ops s (get_tid target ctx) = Some l" "ret = 0" for l
    using inv that Getaddrinfo_exit unfolding accounted_def resolved_def by (auto intro: asked_mono)
  with inv Getaddrinfo_exit show ?thesis
    by (auto simp: accounted_def gai_exit list_all_iff intro: justification_mono split: if_splits option.splits)
next
  case (Connect_enter ctx sk)
  with inv show ?thesis
    by (fastforce simp: accounted_def conn_enter list_all_iff intro: justification_mono split: if_splits)
next
  case (Connect_exit ctx ret)
  have "connected target (p # h) (pc_daddr ctx sk)"
    if "connecting ops s (get_tid target ctx) = Some sk" "ret = 0" "get_tid target ctx \<noteq> 0" for sk
    using inv that Connect_exit unfolding accounted_def connected_def by fastforce
  moreover have "resolved target (p # h) ip l" if "known ops s ip = Some l" for ip l
    using inv that unfolding accounted_def by (auto intro: resolved_mono)
  ultimately have "justified en target (p # h) (event_for en (known ops s) (pc_daddr ctx sk))"
    if "connecting ops s (get_tid target ctx) = Some sk" "ret = 0" "get_tid target ctx \<noteq> 0" for sk
    using that unfolding justified_def event_for_def by (cases "known ops s (pc_daddr ctx sk)") fastforce+
  with inv Connect_exit show ?thesis
    by (fastforce simp: accounted_def conn_exit list_all_iff intro: justification_mono split: if_splits option.splits)
qed

lemma reachable_accounted: "reachable en ops target h s \<Longrightarrow> accounted ops en target h s"
proof (induction rule: reachable.induct)
  case (reach_init s)
  then show ?case by (simp add: accounted_def)
next
  case (reach_step h s p)
  then show ?case by (intro accounted_step)
qed

text \<open>Entries do not outlive the call they belong to.\<close>

lemma reachable_residue:
  assumes "reachable en ops target h s"
  shows "dom (pending ops s) \<subseteq> {t. in_getaddrinfo target h t \<and> t \<noteq> 0} \<and>
    dom (connecting ops s) \<subseteq> {t. in_connect target h t \<and> t \<noteq> 0}"
  using assms
proof (induction rule: reachable.induct)
  case (reach_init s)
  then show ?case by simp
next
  case (reach_step h s p)
  then have "\<And>t l. pending ops s t = Some l \<Longrightarrow> in_getaddrinfo target h t \<and> t \<noteq> 0"
    and "\<And>t k. connecting ops s t = Some k \<Longrightarrow> in_connect target h t \<and> t \<noteq> 0" by blast+
  then show ?case
    by (cases p) (auto simp: probe_effects dom_def split: if_splits)
qed

text \<open>Threads do not disturb each other's entries.\<close>

lemma run_others:
  assumes "list_all (\<lambda>p. get_tid target (probe_ctx_of p) \<noteq> t) ps"
  shows "pending ops (run_probes en ops target ps s) t = pending ops s t"
    and "connecting ops (run_probes en ops target ps s) t = connecting ops s t"
proof -
  have "pending ops (run_probe en ops target p s) t = pending ops s t"
    "connecting ops (run_probe en ops target p s) t = connecting ops s t"
    if "get_tid target (probe_ctx_of p) \<noteq> t" for p s
    using that by (cases p; auto simp: probe_effects)+
  with assms show "pending ops (run_probes en ops target ps s) t = pending ops s t"
    and "connecting ops (run_probes en ops target ps s) t = connecting ops s t"
    by (induction ps arbitrary: s) simp_all
qed

lemma run_leaving_alone:
  assumes "leaves_alone en ops target ip ps s"
  shows "known ops (run_probes en ops target ps s) ip = known ops s ip"
proof -
  have "known ops (run_probe en ops target p s) ip = known ops s ip" if "\<not> touches ops target ip p s" for p s
    using that by (cases p) (auto simp: probe_effects split: option.splits)
  with assms show ?thesis by (induction ps arbitrary: s) simp_all
qed

end

text \<open>Maps with room for 10240 entries each, and a perf buffer that loses nothing.\<close>

locale tracecon_room =
  tracecon ops + LR: bpf_hash_map "lookups_ops ops" 10240 + HR: bpf_hash_map "hostnames_ops ops" 10240 +
  SR: bpf_hash_map "sockets_ops ops" 10240
  for ops :: "('l, 'h, 's, 'p) tracecon_ops" +
  assumes output_room: "fst (perf_event_output (events_ops ops) p e) = 0"
begin

lemma finite_maps:
  "finite (dom (pending ops s))" "finite (dom (known ops s))" "finite (dom (connecting ops s))"
  by (simp_all add: pending_def known_def connecting_def LR.finite_keys HR.finite_keys SR.finite_keys)

lemma step_card:
  "card (dom (pending ops (run_probe en ops target p s))) \<le> Suc (card (dom (pending ops s)))"
  "card (dom (known ops (run_probe en ops target p s))) \<le> Suc (card (dom (known ops s)))"
  "card (dom (connecting ops (run_probe en ops target p s))) \<le> Suc (card (dom (connecting ops s)))"
  by (cases p; auto simp: probe_effects card_insert_if finite_maps intro: le_SucI card_Diff1_le split: option.split)+

lemma run_card:
  "card (dom (pending ops (run_probes en ops target ps s))) \<le> length ps + card (dom (pending ops s))"
  "card (dom (known ops (run_probes en ops target ps s))) \<le> length ps + card (dom (known ops s))"
  "card (dom (connecting ops (run_probes en ops target ps s))) \<le> length ps + card (dom (connecting ops s))"
proof (induction ps arbitrary: s)
  case (Cons p ps)
  { case 1 then show ?case using Cons(1) [of "run_probe en ops target p s"] step_card(1) [of en target p s] by simp }
  { case 2 then show ?case using Cons(2) [of "run_probe en ops target p s"] step_card(2) [of en target p s] by simp }
  { case 3 then show ?case using Cons(3) [of "run_probe en ops target p s"] step_card(3) [of en target p s] by simp }
qed simp_all

lemma update_room:
  "card (dom (pending ops s)) < 10240 \<Longrightarrow> fst (map_update_elem (lookups_ops ops) (lookups s) k l BPF_ANY) = 0"
  "card (dom (known ops s)) < 10240 \<Longrightarrow> fst (map_update_elem (hostnames_ops ops) (hostnames s) k l BPF_ANY) = 0"
  "card (dom (connecting ops s)) < 10240 \<Longrightarrow> fst (map_update_elem (sockets_ops ops) (sockets s) k x BPF_ANY) = 0"
  by (simp_all add: pending_def known_def connecting_def LR.map_room HR.map_room SR.map_room)

text \<open>A lookup that returns makes its name known for the address it returned.\<close>

lemma lookup_learns:
  assumes "get_tid target ctx = t" "get_tid target ctx' = t" "t \<noteq> 0"
    and oth: "list_all (\<lambda>p. get_tid target (probe_ctx_of p) \<noteq> t) qs"
    and room: "card (dom (pending ops s)) < 10240" "card (dom (known ops s)) + length qs + 1 < 10240"
  shows "known ops (run_probes en ops target (Getaddrinfo_enter ctx hn res # qs @ [Getaddrinfo_exit ctx' 0]) s)
    (read_ipv4 ctx' res) = Some (lookup_at ctx hn res)"
proof -
  let ?s1 = "run_probe en ops target (Getaddrinfo_enter ctx hn res) s"
  let ?s2 = "run_probes en ops target qs ?s1"
  have "pending ops ?s1 t = Some (lookup_at ctx hn res)"
    using assms(1,3) room(1) by (simp add: gai_enter update_room)
  then have p: "pending ops ?s2 t = Some (lookup_at ctx hn res)" using run_others(1) [OF oth] by simp
  have "card (dom (known ops ?s2)) < 10240"
    using run_card(2) [of en target qs ?s1] room(2) by (simp add: gai_enter)
  moreover have "l_results (lookup_at ctx hn res) = res" by (simp add: lookup_at_def)
  ultimately show ?thesis
    using p assms(2,3) by (simp add: run_probes_append gai_exit update_room)
qed

text \<open>A connection that succeeds is reported with what is known about its address by then.\<close>

lemma connect_reports:
  assumes "get_tid target ctx = t" "get_tid target ctx' = t" "t \<noteq> 0"
    and oth: "list_all (\<lambda>p. get_tid target (probe_ctx_of p) \<noteq> t) qs"
    and room: "card (dom (connecting ops s)) < 10240"
  shows "reported ops (run_probes en ops target (Connect_enter ctx sk # qs @ [Connect_exit ctx' 0]) s) =
    reported ops (run_probes en ops target (Connect_enter ctx sk # qs) s) @
    [event_for en (known ops (run_probes en ops target (Connect_enter ctx sk # qs) s)) (pc_daddr ctx' sk)]"
proof -
  let ?s1 = "run_probe en ops target (Connect_enter ctx sk) s"
  have "connecting ops ?s1 t = Some sk"
    using assms(1,3) room by (simp add: conn_enter update_room)
  then have "connecting ops (run_probes en ops target qs ?s1) t = Some sk" using run_others(2) [OF oth] by simp
  then show ?thesis using assms(2,3) by (simp add: run_probes_append conn_exit output_room)
qed

end

section \<open>Runs on the reference kernel\<close>

definition kernel_perf :: "('e list, 'e) perf_ops" where
  "kernel_perf = \<lparr>perf_event_output = (\<lambda>p e. (0, p @ [e])), perf_records = (\<lambda>p. p)\<rparr>"

interpretation kernel_perf: perf_buffer kernel_perf
  by unfold_locales (simp_all add: kernel_perf_def)

definition kernel_tracecon ::
  "((u32 \<times> lookup) list, (u32 \<times> lookup) list, (u32 \<times> u64) list, tc_event list) tracecon_ops" where
  "kernel_tracecon = \<lparr>lookups_ops = kernel_hash 10240, hostnames_ops = kernel_hash 10240,
     sockets_ops = kernel_hash 10240, events_ops = kernel_perf\<rparr>"

interpretation kernel_tracecon: tracecon_room kernel_tracecon
  by (intro tracecon_room.intro tracecon.intro tracecon_room_axioms.intro)
     (simp_all add: kernel_tracecon_def kernel_hash.bpf_map_axioms kernel_hash.bpf_hash_map_axioms
        kernel_perf.perf_buffer_axioms, simp add: kernel_perf_def)

abbreviation tracecon_start ::
  "((u32 \<times> lookup) list, (u32 \<times> lookup) list, (u32 \<times> u64) list, tc_event list) tracecon_bpf" where
  "tracecon_start \<equiv> \<lparr>lookups = [], hostnames = [], sockets = [], events = []\<rparr>"

lemma tracecon_start_empty:
  "pending kernel_tracecon tracecon_start = Map.empty" "known kernel_tracecon tracecon_start = Map.empty"
  "connecting kernel_tracecon tracecon_start = Map.empty" "reported kernel_tracecon tracecon_start = []"
  by (simp_all add: pending_def known_def connecting_def reported_def kernel_tracecon_def kernel_hash_def kernel_perf_def)

definition sample_probe_ctx :: "u32 \<Rightarrow> u32 \<Rightarrow> probe_ctx" where
  "sample_probe_ctx tgid tid = \<lparr>pc_pid_tgid = pid_tgid tgid tid,
     pc_read_str = (\<lambda>a n dst. (0, str_copy n ''example.org'' dst)), pc_read_ptr = (\<lambda>a. a + 8),
     pc_read_u32 = (\<lambda>a. ucast a), pc_daddr = (\<lambda>sk. ucast sk)\<rparr>"

section \<open>Properties\<close>

text \<open>
  C11. In every reachable state, whatever the interleaving of threads and whichever map updates and
  outputs fail, each event is justified by the history: it belongs to a connection that a traced
  thread completed, and if it carries a host name, that name was asked for in an earlier call of
  \<^verbatim>\<open>getaddrinfo\<close> whose answer was the address of that connection.
\<close>

theorem tracecon_events_justified:
  assumes "tracecon ops" and "reachable en ops target h s"
  shows "list_all (justified en target h) (reported ops s)"
  using tracecon.reachable_accounted [OF assms] by (simp add: accounted_def)

lemma sample_reachable:
  "reachable LE kernel_tracecon 0
     [Connect_exit (sample_probe_ctx 5 6) 0, Connect_enter (sample_probe_ctx 5 6) 44]
     (run_probes LE kernel_tracecon 0
       [Connect_enter (sample_probe_ctx 5 6) 44, Connect_exit (sample_probe_ctx 5 6) 0] tracecon_start)"
  by (auto intro!: reachable.intros simp: tracecon_start_empty simp del: run_probe.simps)

theorem tracecon_events_justified_witness:
  "list_all (justified LE 0 [Connect_exit (sample_probe_ctx 5 6) 0, Connect_enter (sample_probe_ctx 5 6) 44])
     (reported kernel_tracecon (run_probes LE kernel_tracecon 0
       [Connect_enter (sample_probe_ctx 5 6) 44, Connect_exit (sample_probe_ctx 5 6) 0] tracecon_start))"
  by (rule tracecon_events_justified [OF kernel_tracecon.tracecon_axioms sample_reachable])

text \<open>
  C8. Entries do not outlive calls: in every reachable state the maps of pending lookups and of
  connecting sockets only hold threads that have entered the call and not returned from it, so
  they empty themselves, also after failed calls.
\<close>

theorem tracecon_no_residue:
  assumes "tracecon ops" and "reachable en ops target h s"
  shows "dom (pending ops s) \<subseteq> {t. in_getaddrinfo target h t} \<and> dom (connecting ops s) \<subseteq> {t. in_connect target h t}"
  using tracecon.reachable_residue [OF assms] by blast

theorem tracecon_no_residue_witness:
  "dom (connecting kernel_tracecon (run_probes LE kernel_tracecon 0
       [Connect_enter (sample_probe_ctx 5 6) 44, Connect_exit (sample_probe_ctx 5 6) 0] tracecon_start)) = {}"
  using tracecon_no_residue [OF kernel_tracecon.tracecon_axioms sample_reachable]
  by (auto simp: get_tid_def sample_probe_ctx_def)

text \<open>
  C7. When a traced thread looks a name up, and then some traced thread connects to the address the
  lookup returned, the connection is reported with that name, provided that between the return of
  the lookup and that of the connection no other lookup returns the same address and no other
  connection to it succeeds, that no event is lost, and that no more probes fire than the maps
  have room for. Probes of other threads may otherwise interleave freely, with lookups of other
  addresses and connections to them.
\<close>

theorem tracecon_names_connection:
  assumes "tracecon_room ops"
    and "pending ops s = Map.empty" "known ops s = Map.empty" "connecting ops s = Map.empty"
    and "get_tid target c1 = t" "get_tid target c2 = t" "t \<noteq> 0" "list_all (\<lambda>p. get_tid target (probe_ctx_of p) \<noteq> t) qs1"
    and "get_tid target c3 = u" "get_tid target c4 = u" "u \<noteq> 0" "list_all (\<lambda>p. get_tid target (probe_ctx_of p) \<noteq> u) qs3"
    and "pc_daddr c4 sk = read_ipv4 c2 res"
    and "asking = ps @ Getaddrinfo_enter c1 hn res # qs1 @ [Getaddrinfo_exit c2 0]"
    and "leaves_alone en ops target (read_ipv4 c2 res) (qs2 @ Connect_enter c3 sk # qs3) (run_probes en ops target asking s)"
    and "length ps + length qs1 + length qs2 + 4 < 10240"
    and h: "h = asking @ qs2 @ Connect_enter c3 sk # qs3"
  shows "reported ops (run_probes en ops target (h @ [Connect_exit c4 0]) s) = reported ops (run_probes en ops target h s) @
    [\<lparr>te_tag = HOSTNAME, te_ip = [0, 0, 0, 0], te_hostname = snd (pc_read_str c1 hn HOSTNAME_LEN (replicate HOSTNAME_LEN 0))\<rparr>]"
proof -
  let ?s1 = "run_probes en ops target ps s"
  let ?ask = "Getaddrinfo_enter c1 hn res # qs1 @ [Getaddrinfo_exit c2 0]"
  let ?s2 = "run_probes en ops target ?ask ?s1"
  let ?s3 = "run_probes en ops target qs2 ?s2"
  let ?s4 = "run_probes en ops target (Connect_enter c3 sk # qs3) ?s3"
  note room = tracecon_room.run_card [OF assms(1), of en target] and tc = tracecon_room.axioms(1) [OF assms(1)]
  have s2: "run_probes en ops target asking s = ?s2" by (simp only: assms(14) run_probes_append)
  have c1: "card (dom (pending ops ?s1)) \<le> length ps" "card (dom (known ops ?s1)) \<le> length ps"
    using room(1,2) [of ps s] assms(2,3) by simp_all
  have "known ops ?s2 (read_ipv4 c2 res) = Some (lookup_at c1 hn res)"
    using c1 assms(16) by (intro tracecon_room.lookup_learns [OF assms(1,5-8)]) simp_all
  moreover have "known ops ?s4 (read_ipv4 c2 res) = known ops ?s2 (read_ipv4 c2 res)"
    using tracecon.run_leaving_alone [OF tc assms(15)] by (simp only: s2 run_probes_append)
  ultimately have k: "known ops ?s4 (read_ipv4 c2 res) = Some (lookup_at c1 hn res)" by simp
  have "card (dom (connecting ops ?s3)) \<le> length ps + length qs1 + length qs2 + 2"
    using room(3) [of qs2 ?s2] room(3) [of ?ask ?s1] room(3) [of ps s] assms(4) by simp
  then have "card (dom (connecting ops ?s3)) < 10240" using assms(16) by simp
  from tracecon_room.connect_reports [OF assms(1,9-12) this, of en sk] k
  have "reported ops (run_probes en ops target (Connect_enter c3 sk # qs3 @ [Connect_exit c4 0]) ?s3) =
      reported ops ?s4 @ [event_for en (known ops ?s4) (read_ipv4 c2 res)]"
    by (simp add: assms(13))
  moreover have "event_for en (known ops ?s4) (read_ipv4 c2 res) = \<lparr>te_tag = HOSTNAME, te_ip = [0, 0, 0, 0],
      te_hostname = snd (pc_read_str c1 hn HOSTNAME_LEN (replicate HOSTNAME_LEN 0))\<rparr>"
    using k by (simp add: event_for_def lookup_at_def numeral_eq_Suc del: run_probes.simps)
  ultimately show ?thesis unfolding h assms(14) by (simp add: run_probes_append)
qed

text \<open>
  Thread 6 looks a name up. Meanwhile thread 9 starts to connect elsewhere and finishes while
  thread 8 connects to the address; in between thread 7 looks up another address.
\<close>

lemmas tracecon_eval = getaddrinfo_enter_def getaddrinfo_exit_def tcp_v4_connect_enter_def tcp_v4_connect_exit_def
  kernel_tracecon_def kernel_hash_def kernel_perf_def pending_def connecting_def reported_def
  get_tid_def sample_probe_ctx_def read_ipv4_def

theorem tracecon_names_connection_witness:
  "reported kernel_tracecon (run_probes LE kernel_tracecon 5
     [Getaddrinfo_enter (sample_probe_ctx 5 6) 100 0, Connect_enter (sample_probe_ctx 5 9) 7,
      Getaddrinfo_exit (sample_probe_ctx 5 6) 0,
      Getaddrinfo_enter (sample_probe_ctx 5 7) 100 200, Getaddrinfo_exit (sample_probe_ctx 5 7) 0,
      Connect_enter (sample_probe_ctx 5 8) 44, Connect_exit (sample_probe_ctx 5 9) 0,
      Connect_exit (sample_probe_ctx 5 8) 0] tracecon_start) =
   [\<lparr>te_tag = IP, te_ip = [7, 0, 0, 0], te_hostname = replicate 84 0\<rparr>,
    \<lparr>te_tag = HOSTNAME, te_ip = [0, 0, 0, 0], te_hostname = str_copy 84 ''example.org'' (replicate 84 0)\<rparr>]"
proof -
  let ?c = "sample_probe_ctx 5"
  let ?asking = "[] @ Getaddrinfo_enter (?c 6) 100 0 # [Connect_enter (?c 9) 7] @ [Getaddrinfo_exit (?c 6) 0]"
  let ?between = "[Getaddrinfo_enter (?c 7) 100 200, Getaddrinfo_exit (?c 7) 0]"
  let ?h = "?asking @ ?between @ Connect_enter (?c 8) 44 # [Connect_exit (?c 9) 0]"
  have "leaves_alone LE kernel_tracecon 5 (read_ipv4 (?c 6) 0) (?between @ Connect_enter (?c 8) 44 # [Connect_exit (?c 9) 0])
      (run_probes LE kernel_tracecon 5 ?asking tracecon_start)"
    by (simp add: tracecon_eval Let_def)
  then have "reported kernel_tracecon (run_probes LE kernel_tracecon 5 (?h @ [Connect_exit (?c 8) 0]) tracecon_start) =
      reported kernel_tracecon (run_probes LE kernel_tracecon 5 ?h tracecon_start) @ [\<lparr>te_tag = HOSTNAME, te_ip = [0, 0, 0, 0],
        te_hostname = snd (pc_read_str (?c 6) 100 84 (replicate 84 0))\<rparr>]"
    by (rule tracecon_names_connection [OF kernel_tracecon.tracecon_room_axioms tracecon_start_empty(1-3),
          where ps = "[]" and ?qs1.0 = "[Connect_enter (?c 9) 7]" and t = 6 and u = 8 and ?c3.0 = "?c 8" and ?c2.0 = "?c 6",
          rotated 10])
       (simp_all add: get_tid_def sample_probe_ctx_def read_ipv4_def)
  moreover have "to_le 4 7 = [7, 0, 0, 0]" by code_simp
  then have "reported kernel_tracecon (run_probes LE kernel_tracecon 5 ?h tracecon_start) =
      [\<lparr>te_tag = IP, te_ip = [7, 0, 0, 0], te_hostname = replicate 84 0\<rparr>]"
    by (simp add: tracecon_eval Let_def)
  ultimately show ?thesis by (simp add: sample_probe_ctx_def)
qed

end
