(* ===== verification/Tc.thy ===== *)
theory Tc
  imports Bpf_Kernel User_World
begin

text \<open>
  The traffic control example, \<^verbatim>\<open>tc.bpf.c\<close> and \<^verbatim>\<open>tc.c\<close>. The BPF program looks at packets
  through raw pointers: reading outside the packet is undefined behaviour in the model, so the
  checks against \<^verbatim>\<open>data_end\<close> carry a proof obligation.
\<close>

section \<open>The classifier\<close>

record tc_ctx =
  tcx_data :: u32
  tcx_data_end :: u32
  tcx_protocol :: u32
  tcx_mem :: "u64 \<Rightarrow> byte"

abbreviation (input) TC_ACT_OK :: int where "TC_ACT_OK \<equiv> 0"
abbreviation (input) sizeof_ethhdr :: u64 where "sizeof_ethhdr \<equiv> 14"
abbreviation (input) sizeof_iphdr :: u64 where "sizeof_iphdr \<equiv> 20"

text \<open>The n bytes at an address, if they lie inside the packet.\<close>

definition packet_read :: "tc_ctx \<Rightarrow> u64 \<Rightarrow> nat \<Rightarrow> bytes option" where
  "packet_read ctx a n =
     (if unat (tcx_data ctx) \<le> unat a \<and> unat a + n \<le> unat (tcx_data_end ctx)
      then Some (map (\<lambda>i. tcx_mem ctx (a + of_nat i)) [0..<n]) else None)"

definition tc_ingress :: "endian \<Rightarrow> tc_ctx \<Rightarrow> string list \<Rightarrow> (ub + int) \<times> string list" where
  "tc_ingress en ctx trace =
     (let data_end = (ucast (tcx_data_end ctx) :: u64);
          data = (ucast (tcx_data ctx) :: u64)
      in if tcx_protocol ctx \<noteq> ucast (ntohs en 0x0800) then (Inr TC_ACT_OK, trace)
         else
           let l2 = data
           in if l2 + sizeof_ethhdr > data_end then (Inr TC_ACT_OK, trace)
              else
                let l3 = l2 + sizeof_ethhdr
                in if l3 + sizeof_iphdr > data_end then (Inr TC_ACT_OK, trace)
                   else case (packet_read ctx (l3 + 2) 2, packet_read ctx (l3 + 8) 1) of
                     (Some tot_len, Some ttl) \<Rightarrow>
                       (Inr TC_ACT_OK, trace @ [''Got IP packet: tot_len: '' @
                          dec (unat (ntohs en (of_nat (host_num en tot_len)))) @ '', ttl: '' @ dec (host_num en ttl)])
                   | _ \<Rightarrow> (Inl Overread, trace))"

section \<open>The loader\<close>

definition libbpf_print_fn_tc :: "'d environment \<Rightarrow> libbpf_print_level \<Rightarrow> string \<Rightarrow> 'd world \<Rightarrow> int \<times> 'd world" where
  "libbpf_print_fn_tc env level msg w =
     (let (r, w) = sys env (Printf Stderr msg) w in (rv r, w))"

definition started_tc :: string where
  "started_tc = ''Successfully started! Please run `sudo cat /sys/kernel/debug/tracing/trace_pipe` '' @
     ''to see output of the BPF program.'' @ [CHR 0x0A]"

definition cleanup_tc :: "'d environment \<Rightarrow> bool \<Rightarrow> int \<Rightarrow> int \<Rightarrow> 'd world \<Rightarrow> outcome \<times> 'd world" where
  "cleanup_tc env hook_created skel err w =
     (let w = (if hook_created then snd (sys env (Op Tc_hook_destroy) w) else w);
          (_, w) = sys env (Rel (Skel_destroy skel)) w
      in (Inr (- err), w))"

definition main_tc :: "'d environment \<Rightarrow> (int \<Rightarrow> string) \<Rightarrow> (outcome \<times> 'd world) option" where
  "main_tc env strerror =
     (let w = start_world;
          (_, w) = sys env Set_print w;
          (r, w) = sys env (Acq Skel_open_and_load) w;
          skel = rv r
      in if skel = 0 then
           (let (_, w) = sys env (Printf Stderr (''Failed to open BPF skeleton'' @ [CHR 0x0A])) w
            in Some (Inr 1, w))
         else
           let (r, w) = sys env (Acq Tc_hook_create) w;
               err = rv r;
               hook_created = (err = 0)
           in if err \<noteq> 0 \<and> err \<noteq> - EEXIST then
                (let (_, w) = sys env (Printf Stderr (''Failed to create TC hook: '' @ dec_int err @ [CHR 0x0A])) w
                 in Some (cleanup_tc env hook_created skel err w))
              else
                let (r, w) = sys env (Acq (Tc_attach skel)) w;
                    err = rv r
                in if err \<noteq> 0 then
                     (let (_, w) = sys env (Printf Stderr (''Failed to attach TC: '' @ dec_int err @ [CHR 0x0A])) w
                      in Some (cleanup_tc env hook_created skel err w))
                   else
                     let (r, w) = sys env (Signal SIGINT) w
                     in if rv r = SIG_ERR then
                          (let (_, w) = sys env (Printf Stderr (''Can't set signal handler: '' @ strerror (rerrno r) @ [CHR 0x0A])) w
                           in Some (cleanup_tc env hook_created skel (rerrno r) w))
                        else
                          let (_, w) = sys env (Printf Stdout started_tc) w
                          in Option.bind (wait_loop env [Printf Stderr ''.'', Sleep 1] w) (\<lambda>w.
                               let (r, w) = sys env (Rel Tc_detach) w;
                                   err = rv r
                               in if err \<noteq> 0 then
                                    (let (_, w) = sys env (Printf Stderr (''Failed to detach TC: '' @ dec_int err @ [CHR 0x0A])) w
                                     in Some (cleanup_tc env hook_created skel err w))
                                  else Some (cleanup_tc env hook_created skel err w)))"

section \<open>Resources\<close>

text \<open>
  What may be left: the qdisc of a hook that the program created (destroying a hook on one side
  does not remove it), and the filter, when no signal handler could be installed or the filter
  could not be detached.
\<close>

definition hook_and_filter_only :: "handle list \<Rightarrow> bool" where
  "hook_and_filter_only h \<longleftrightarrow> set h \<subseteq> {H_hook, H_filter} \<and> distinct h"

lemma wait_holds:
  "wait_loop env [Printf Stderr ''.'', Sleep k] w = Some w' \<Longrightarrow> holds w' = holds w"
  by (erule wait_loop_holds) simp

interpretation tc: accountable_program "\<lambda>env. main_tc env strerror" hook_and_filter_only for strerror
proof unfold_locales
  fix env status w
  assume "main_tc env strerror = Some (Inr status, w)"
  then show "\<exists>h. holds w = Some h \<and> hook_and_filter_only h"
    by (auto simp: main_tc_def cleanup_tc_def hook_and_filter_only_def Let_def case_prod_beta owned Option.bind_eq_Some_conv
        dest!: wait_holds split: if_splits)
qed

text \<open>The hook calls of a history: creations that succeeded, and destructions.\<close>

definition created_hook :: "'d history \<Rightarrow> bool" where
  "created_hook h \<longleftrightarrow> (\<exists>r. (Acq Tc_hook_create, r) \<in> set h \<and> rv r = 0)"

definition destroyed_hook :: "'d history \<Rightarrow> bool" where
  "destroyed_hook h \<longleftrightarrow> (\<exists>r. (Op Tc_hook_destroy, r) \<in> set h)"

definition hook_call :: "call \<Rightarrow> bool" where
  "hook_call c \<longleftrightarrow> c = Acq Tc_hook_create \<or> c = Op Tc_hook_destroy"

lemma hooks_sys [simp]:
  "created_hook (hist (snd (sys env c w))) \<longleftrightarrow>
     created_hook (hist w) \<or> c = Acq Tc_hook_create \<and> rv (fst (sys env c w)) = 0"
  "destroyed_hook (hist (snd (sys env c w))) \<longleftrightarrow> destroyed_hook (hist w) \<or> c = Op Tc_hook_destroy"
  "\<not> created_hook (hist start_world)" "\<not> destroyed_hook (hist start_world)"
  by (auto simp: created_hook_def destroyed_hook_def sys_hist sys_answer start_world_def)

lemma do_calls_hooks:
  assumes "list_all (\<lambda>c. \<not> hook_call c) cs"
  shows "created_hook (hist (do_calls env cs w)) = created_hook (hist w) \<and>
    destroyed_hook (hist (do_calls env cs w)) = destroyed_hook (hist w)"
  using assms by (induction cs arbitrary: w) (simp_all add: do_calls_def hook_call_def)

lemma wait_hooks:
  assumes "wait_loop env [Printf Stderr ''.'', Sleep k] w = Some w'"
  shows "created_hook (hist w') = created_hook (hist w) \<and> destroyed_hook (hist w') = destroyed_hook (hist w)"
proof -
  have "list_all (\<lambda>c. \<not> hook_call c) [Printf Stderr ''.'', Sleep k] \<longrightarrow>
      created_hook (hist w') = created_hook (hist w) \<and> destroyed_hook (hist w') = destroyed_hook (hist w)"
  proof (rule wait_loop.raw_induct [where P = "\<lambda>env cs w w'. list_all (\<lambda>c. \<not> hook_call c) cs \<longrightarrow>
      created_hook (hist w') = created_hook (hist w) \<and> destroyed_hook (hist w') = destroyed_hook (hist w)",
      OF _ assms], goal_cases)
    case (1 f env cs w w')
    then show ?case by (auto simp: do_calls_hooks split: if_splits)
  qed
  then show ?thesis by (simp add: hook_call_def)
qed

lemma main_tc_ends:
  assumes "signalled_from n env"
  shows "\<exists>status w. main_tc env strerror = Some (Inr status, w)"
proof -
  have "\<exists>w'. wait_loop env [Printf Stderr ''.'', Sleep 1] w = Some w'" for w
    using wait_loop_returns [OF assms, of "[Printf Stderr ''.'', Sleep 1]" w] by simp
  then obtain f where "wait_loop env [Printf Stderr ''.'', Sleep 1] w = Some (f w)" for w by metis
  then show ?thesis by (simp add: main_tc_def cleanup_tc_def Let_def case_prod_beta)
qed

lemma wait_holds_hooks:
  "wait_loop env [Printf Stderr ''.'', Sleep k] w = Some w' \<Longrightarrow> holds w' = holds w \<and>
     created_hook (hist w') = created_hook (hist w) \<and> destroyed_hook (hist w') = destroyed_hook (hist w)"
  using wait_holds wait_hooks by blast

section \<open>What the classifier traces\<close>

text \<open>The packet as bytes from its start; byte i is at the address i above \<^verbatim>\<open>data\<close>.\<close>

definition packet_byte :: "tc_ctx \<Rightarrow> nat \<Rightarrow> nat" where
  "packet_byte ctx i = unat (tcx_mem ctx (ucast (tcx_data ctx) + of_nat i))"

definition packet_lines :: "endian \<Rightarrow> tc_ctx \<Rightarrow> string list" where
  "packet_lines en ctx =
     (if tcx_protocol ctx = ucast (ntohs en 0x0800) \<and> 34 \<le> unat (tcx_data_end ctx) - unat (tcx_data ctx)
      then [''Got IP packet: tot_len: '' @ dec (256 * packet_byte ctx 16 + packet_byte ctx 17) @
            '', ttl: '' @ dec (packet_byte ctx 22)]
      else [])"

section \<open>Properties\<close>

text \<open>
  C9. The classifier lets every packet pass and never reads outside the packet, for any packet
  length, position in memory and byte order. It traces one line, with the total length and the
  time to live from the header, exactly for IPv4 packets that hold an Ethernet and an IP header.
\<close>

theorem tc_ingress_safe:
  "tc_ingress en ctx trace = (Inr TC_ACT_OK, trace @ packet_lines en ctx)"
proof -
  let ?d = "ucast (tcx_data ctx) :: u64" and ?e = "ucast (tcx_data_end ctx) :: u64"
  have small: "unat (tcx_data ctx) < 2 ^ 32" using unsigned_less [of "tcx_data ctx", where ?'a = nat] by simp
  have wide: "unat (ucast x :: u64) = unat x" for x :: u32
    using unsigned_less [of x, where ?'a = nat] by (simp add: unsigned_ucast_eq take_bit_nat_eq_self)
  have off: "unat (?d + of_nat k) = unat (tcx_data ctx) + k" if "k < 100" for k
  proof -
    have "unat (of_nat k :: u64) = k" using that by (simp add: unat_of_nat take_bit_nat_eq_self)
    then show ?thesis using small that by (simp add: unat_word_ariths wide)
  qed
  have gt: "?d + of_nat k > ?e \<longleftrightarrow> unat (tcx_data_end ctx) < unat (tcx_data ctx) + k" if "k < 100" for k
    using off [OF that] by (simp add: word_less_nat_alt wide)
  have checks: "?d + 14 > ?e \<longleftrightarrow> unat (tcx_data_end ctx) < unat (tcx_data ctx) + 14"
    "?d + 34 > ?e \<longleftrightarrow> unat (tcx_data_end ctx) < unat (tcx_data ctx) + 34"
    using gt [of 14] gt [of 34] by simp_all
  show ?thesis
  proof (cases "tcx_protocol ctx = ucast (ntohs en 0x0800) \<and> 34 \<le> unat (tcx_data_end ctx) - unat (tcx_data ctx)")
    case True
    then have len: "unat (tcx_data ctx) + 34 \<le> unat (tcx_data_end ctx)" by linarith
    have "packet_read ctx (?d + 16) 2 = Some [tcx_mem ctx (?d + 16), tcx_mem ctx (?d + 17)]"
      "packet_read ctx (?d + 22) 1 = Some [tcx_mem ctx (?d + 22)]"
      using len off [of 16] off [of 22] by (simp_all add: packet_read_def upt_rec add.assoc)
    moreover have "unat (ntohs en (of_nat (host_num en [a, b]))) = 256 * unat a + unat b" for a b
      using ntohs_host [of "[a, b]" en] unat_of_be_16 [of "[a, b]"] by simp
    moreover have "host_num en [a] = unat a" for a by (cases en) simp_all
    ultimately show ?thesis
      using True len checks by (simp add: tc_ingress_def packet_lines_def packet_byte_def Let_def add.assoc)
  next
    case False
    then show ?thesis using checks by (auto simp: tc_ingress_def packet_lines_def Let_def add.assoc)
  qed
qed

text \<open>
  C19. What \<^verbatim>\<open>main\<close> of \<^verbatim>\<open>tc\<close> leaves behind when it returns. The skeleton is destroyed and no handle
  is misused. It calls the destruction of the hook if and only if it created the hook, so that a
  hook that existed before is left alone; but because that call does not remove the qdisc of a hook
  on one side, the qdisc stays exactly when the program created it. The filter is detached
  whenever the status is 0.
\<close>

theorem main_tc_leaves:
  assumes "main_tc env strerror = Some (Inr status, w)"
    and "\<forall>h. rv (env h (Signal SIGINT)) = SIG_ERR \<longrightarrow> rerrno (env h (Signal SIGINT)) \<noteq> 0"
  shows "(\<exists>h. holds w = Some h \<and> hook_and_filter_only h \<and> (H_hook \<in> set h \<longleftrightarrow> created_hook (hist w)) \<and>
      (H_filter \<notin> set h \<or> status \<noteq> 0)) \<and>
    (destroyed_hook (hist w) \<longleftrightarrow> created_hook (hist w)) \<and> (\<forall>n. ledger (take n (hist w)) [] \<noteq> None)"
proof (intro conjI)
  have errno: "rerrno (fst (sys env (Signal SIGINT) v)) \<noteq> 0" if "rv (fst (sys env (Signal SIGINT) v)) = SIG_ERR" for v
    using that assms(2) by (simp add: sys_answer)
  show "\<exists>h. holds w = Some h \<and> hook_and_filter_only h \<and> (H_hook \<in> set h \<longleftrightarrow> created_hook (hist w)) \<and>
      (H_filter \<notin> set h \<or> status \<noteq> 0)"
    using assms(1) errno
    by (auto simp: main_tc_def cleanup_tc_def hook_and_filter_only_def Let_def case_prod_beta owned
        Option.bind_eq_Some_conv dest!: wait_holds_hooks split: if_splits)
  show "destroyed_hook (hist w) \<longleftrightarrow> created_hook (hist w)"
    using assms(1)
    by (auto simp: main_tc_def cleanup_tc_def Let_def case_prod_beta
        Option.bind_eq_Some_conv dest!: wait_hooks split: if_splits)
  show "\<forall>n. ledger (take n (hist w)) [] \<noteq> None"
    using tc.never_misused [OF assms(1)] by auto
qed

definition tc_answer :: "int \<Rightarrow> call \<Rightarrow> int" where
  "tc_answer hook c = (case c of Acq Skel_open_and_load \<Rightarrow> 1 | Acq Tc_hook_create \<Rightarrow> hook | _ \<Rightarrow> 0)"

abbreviation tc_demo :: "unit environment" where
  "tc_demo \<equiv> scripted_signal (tc_answer 0) (\<lambda>c. c = Sleep 1) ()"

theorem main_tc_leaves_witness:
  "\<exists>w h. main_tc tc_demo (\<lambda>_. []) = Some (Inr 0, w) \<and> holds w = Some h \<and> H_filter \<notin> set h \<and>
     (H_hook \<in> set h \<longleftrightarrow> created_hook (hist w))"
proof -
  have "\<exists>w. main_tc tc_demo (\<lambda>_. []) = Some (Inr 0, w)"
    by (simp add: main_tc_def cleanup_tc_def Let_def case_prod_beta sys_def scripted_signal_def tc_answer_def
        wait_loop.simps do_calls_def start_world_def sig_handler_def)
  then obtain w where w: "main_tc tc_demo (\<lambda>_. []) = Some (Inr 0, w)" by blast
  have "\<forall>h. rv (tc_demo h (Signal SIGINT)) = SIG_ERR \<longrightarrow> rerrno (tc_demo h (Signal SIGINT)) \<noteq> 0"
    by (simp add: scripted_signal_def tc_answer_def)
  from main_tc_leaves [OF w this] w show ?thesis by blast
qed

end
