(* ===== verification/Minimal.thy ===== *)
theory Minimal
  imports Bpf_Kernel User_World
begin

text \<open>
  The three minimal examples, \<^verbatim>\<open>minimal\<close>, \<^verbatim>\<open>minimal_ns\<close> and \<^verbatim>\<open>minimal_legacy\<close>. Each
  traces the \<^verbatim>\<open>write\<close> calls of its own process; they differ in how the BPF program learns which
  process that is: a global variable, the pid inside a namespace, an array map. The trace is the
  list of lines that \<^verbatim>\<open>bpf_printk\<close> produced.
\<close>

section \<open>The BPF programs\<close>

definition triggered :: "u32 \<Rightarrow> string" where
  "triggered pid = ''BPF triggered from PID '' @ dec_int (sint pid) @ ''.'' @ [CHR 0x0A]"

record minimal_bpf =
  my_pid :: u32

definition handle_tp_minimal :: "minimal_bpf \<Rightarrow> u64 \<Rightarrow> string list \<Rightarrow> int \<times> string list" where
  "handle_tp_minimal b pt trace =
     (let pid = tgid_of pt
      in if pid \<noteq> my_pid b then (0, trace) else (0, trace @ [triggered pid]))"

record minimal_ns_bpf =
  ns_my_pid :: u32
  dev :: u64
  ino :: u64

text \<open>\<^verbatim>\<open>struct bpf_pidns_info\<close>: the thread's and the process's number in the namespace.\<close>

record bpf_pidns_info =
  ns_pid :: u32
  ns_tgid :: u32

definition handle_tp_ns ::
  "(u64 \<Rightarrow> u64 \<Rightarrow> int \<times> bpf_pidns_info) \<Rightarrow> minimal_ns_bpf \<Rightarrow> string list \<Rightarrow> int \<times> string list" where
  "handle_tp_ns get_ns_current_pid_tgid b trace =
     (let ns = snd (get_ns_current_pid_tgid (dev b) (ino b))
      in if ns_pid ns \<noteq> ns_my_pid b then (0, trace) else (0, trace @ [triggered (ns_pid ns)]))"

definition handle_tp_legacy ::
  "('m, u32, u32) map_ops \<Rightarrow> 'm \<Rightarrow> u64 \<Rightarrow> string list \<Rightarrow> int \<times> string list" where
  "handle_tp_legacy mops my_pid_map pt trace =
     (let index = 0;
          pid = tgid_of pt
      in case map_lookup_elem mops my_pid_map index of
           None \<Rightarrow> (1, trace)
         | Some p \<Rightarrow> if p \<noteq> pid then (1, trace) else (0, trace @ [triggered pid]))"

section \<open>The loaders\<close>

definition started :: string where
  "started = ''Successfully started! Please run `sudo cat /sys/kernel/debug/tracing/trace_pipe` '' @
     ''to see output of the BPF programs.'' @ [CHR 0x0A]"

abbreviation dots :: "call list" where
  "dots \<equiv> [Printf Stderr ''.'', Sleep 1]"

definition libbpf_print_fn_minimal :: "'d environment \<Rightarrow> libbpf_print_level \<Rightarrow> string \<Rightarrow> 'd world \<Rightarrow> int \<times> 'd world" where
  "libbpf_print_fn_minimal env level msg w =
     (let (r, w) = sys env (Printf Stderr msg) w in (rv r, w))"

definition cleanup_minimal :: "'d environment \<Rightarrow> int \<Rightarrow> int \<Rightarrow> 'd world \<Rightarrow> outcome \<times> 'd world" where
  "cleanup_minimal env skel err w =
     (let (_, w) = sys env (Rel (Skel_destroy skel)) w in (Inr (- err), w))"

text \<open>
  Each \<^verbatim>\<open>main\<close> is what precedes its loop, then the loop. The first part either ends the program
  (\<^term>\<open>Inl\<close>) or hands the skeleton to the loop (\<^term>\<open>Inr\<close>). What follows the loop is reached
  from the first part only.
\<close>

type_synonym 'd startup = "(outcome \<times> 'd world) + (int \<times> 'd world)"

definition attach_minimal :: "'d environment \<Rightarrow> int \<Rightarrow> 'd world \<Rightarrow> 'd startup" where
  "attach_minimal env skel w =
     (let (r, w) = sys env (Op (Skel_attach skel)) w;
          err = rv r
      in if err \<noteq> 0 then
           (let (_, w) = sys env (Printf Stderr (''Failed to attach BPF skeleton'' @ [CHR 0x0A])) w
            in Inl (cleanup_minimal env skel err w))
         else
           let (_, w) = sys env (Printf Stdout started) w
           in Inr (skel, w))"

definition load_minimal :: "'d environment \<Rightarrow> int \<Rightarrow> 'd world \<Rightarrow> 'd startup" where
  "load_minimal env skel w =
     (let (r, w) = sys env (Op (Skel_load skel)) w;
          err = rv r
      in if err \<noteq> 0 then
           (let (_, w) = sys env (Printf Stderr (''Failed to load and verify BPF skeleton'' @ [CHR 0x0A])) w
            in Inl (cleanup_minimal env skel err w))
         else attach_minimal env skel w)"

definition setup_minimal :: "'d environment \<Rightarrow> 'd startup" where
  "setup_minimal env =
     (let w = start_world;
          (_, w) = sys env Set_print w;
          (r, w) = sys env (Acq Skel_open) w;
          skel = rv r
      in if skel = 0 then
           (let (_, w) = sys env (Printf Stderr (''Failed to open BPF skeleton'' @ [CHR 0x0A])) w
            in Inl (Inr 1, w))
         else
           let (r, w) = sys env Getpid w;
               (_, w) = sys env (Op (Poke skel ''my_pid'' (rv r))) w
           in load_minimal env skel w)"

text \<open>
  The answer to \<^verbatim>\<open>stat\<close> carries the device and the inode in one number, the device in the upper
  part.
\<close>

definition setup_minimal_ns :: "'d environment \<Rightarrow> 'd startup" where
  "setup_minimal_ns env =
     (let w = start_world;
          (_, w) = sys env Set_print w;
          (r, w) = sys env (Acq Skel_open) w;
          skel = rv r
      in if skel = 0 then
           (let (_, w) = sys env (Printf Stderr (''Failed to open BPF skeleton'' @ [CHR 0x0A])) w
            in Inl (Inr 1, w))
         else
           let (sb, w) = sys env (Stat_ns ''/proc/self/ns/pid'') w
           in if rv sb = - 1 then
                (let (_, w) = sys env (Printf Stderr ''Failed to acquire namespace information'') w
                 in Inl (Inr 1, w))
              else
                let (_, w) = sys env (Op (Poke skel ''dev'' (rptr sb div 2 ^ 64))) w;
                    (_, w) = sys env (Op (Poke skel ''ino'' (rptr sb mod 2 ^ 64))) w;
                    (r, w) = sys env Getpid w;
                    (_, w) = sys env (Op (Poke skel ''my_pid'' (rv r))) w
                in load_minimal env skel w)"

definition setup_minimal_legacy :: "'d environment \<Rightarrow> (int \<Rightarrow> string) \<Rightarrow> 'd startup" where
  "setup_minimal_legacy env strerror =
     (let w = start_world;
          (_, w) = sys env Set_print w;
          (r, w) = sys env (Acq Skel_open_and_load) w;
          skel = rv r
      in if skel = 0 then
           (let (_, w) = sys env (Printf Stderr (''Failed to open and load BPF skeleton'' @ [CHR 0x0A])) w
            in Inl (Inr 1, w))
         else
           let (r, w) = sys env Getpid w;
               (r, w) = sys env (Op (Map_update skel 0 (rv r))) w;
               err = rv r
           in if err < 0 then
                (let (_, w) = sys env (Printf Stderr (''Error updating map with pid: '' @ strerror err @ [CHR 0x0A])) w
                 in Inl (cleanup_minimal env skel err w))
              else attach_minimal env skel w)"

definition trace_forever :: "'d environment \<Rightarrow> 'd startup \<Rightarrow> 'd life" where
  "trace_forever env s = (case s of
       Inl ended \<Rightarrow> Ended ended
     | Inr (skel, w) \<Rightarrow> forever_loop env [Printf Stderr ''.'', Sleep 1] w)"

definition life_minimal :: "'d environment \<Rightarrow> 'd life" where
  "life_minimal env = trace_forever env (setup_minimal env)"

definition life_minimal_ns :: "'d environment \<Rightarrow> 'd life" where
  "life_minimal_ns env = trace_forever env (setup_minimal_ns env)"

definition life_minimal_legacy :: "'d environment \<Rightarrow> (int \<Rightarrow> string) \<Rightarrow> 'd life" where
  "life_minimal_legacy env strerror = trace_forever env (setup_minimal_legacy env strerror)"

text \<open>The result of \<^verbatim>\<open>main\<close>, if it returns.\<close>

definition main_minimal :: "'d environment \<Rightarrow> (outcome \<times> 'd world) option" where
  "main_minimal env = result (life_minimal env)"

definition main_minimal_ns :: "'d environment \<Rightarrow> (outcome \<times> 'd world) option" where
  "main_minimal_ns env = result (life_minimal_ns env)"

definition main_minimal_legacy :: "'d environment \<Rightarrow> (int \<Rightarrow> string) \<Rightarrow> (outcome \<times> 'd world) option" where
  "main_minimal_legacy env strerror = result (life_minimal_legacy env strerror)"

lemmas minimal_setups = setup_minimal_def setup_minimal_ns_def setup_minimal_legacy_def
  load_minimal_def attach_minimal_def cleanup_minimal_def Let_def case_prod_beta

section \<open>Resources\<close>

lemma trace_forever_Some: "result (trace_forever env s) = Some r \<longleftrightarrow> s = Inl r"
  by (auto simp: trace_forever_def split: sum.splits)

lemmas minimal_mains = main_minimal_def main_minimal_ns_def main_minimal_legacy_def
  life_minimal_def life_minimal_ns_def life_minimal_legacy_def trace_forever_Some

interpretation minimal: tidy_program main_minimal
  by unfold_locales
    (auto simp: minimal_mains minimal_setups owned split: if_splits)

interpretation minimal_legacy: tidy_program "\<lambda>env. main_minimal_legacy env strerror" for strerror
  by unfold_locales
    (auto simp: minimal_mains minimal_setups owned split: if_splits)

text \<open>
  \<^verbatim>\<open>minimal_ns\<close> is the exception: without namespace information it returns with the skeleton open.
\<close>

definition skeleton_only :: "handle list \<Rightarrow> bool" where
  "skeleton_only h \<longleftrightarrow> h = [] \<or> (\<exists>skel. h = [H_skel skel])"

interpretation minimal_ns: accountable_program main_minimal_ns skeleton_only
  by unfold_locales
    (auto simp: minimal_mains minimal_setups skeleton_only_def owned split: if_splits)

section \<open>While they run\<close>

text \<open>
  The life of a program that came up: it does not end, and after n rounds of its loop it has
  written n dots and its start message, and holds its skeleton and nothing else.
\<close>

definition up :: "'d life \<Rightarrow> bool" where
  "up l = (case l of
       Ended r \<Rightarrow> False
     | Running f \<Rightarrow> \<forall>n. printed Stderr (hist (f n)) = replicate n (CHR ''.'') \<and>
         printed Stdout (hist (f n)) = started \<and> (\<exists>skel. holds (f n) = Some [H_skel skel]))"

lemma upI:
  assumes "s = Inr (skel, w)" and "holds w = Some [H_skel skel]"
    and "printed Stderr (hist w) = []" and "printed Stdout (hist w) = started"
  shows "up (trace_forever env s)"
  using assms by (simp add: up_def trace_forever_def forever_loop_def printed_rounds holds_rounds)

section \<open>Runs of the BPF programs\<close>

text \<open>
  A \<^verbatim>\<open>write\<close> call is made by a thread: its identity in the initial namespace, and what the
  namespace helper answers to it. The helper succeeds when the device and inode it is given are
  those of the thread's own pid namespace, and then stores the numbers of the thread and of its
  process as seen in that namespace.
\<close>

record writer =
  wr_pid_tgid :: u64
  wr_get_ns :: "u64 \<Rightarrow> u64 \<Rightarrow> int \<times> bpf_pidns_info"

definition in_namespace :: "minimal_ns_bpf \<Rightarrow> writer \<Rightarrow> u32 \<Rightarrow> u32 \<Rightarrow> bool" where
  "in_namespace n x tid tgid \<longleftrightarrow> wr_get_ns x (dev n) (ino n) = (0, \<lparr>ns_pid = tid, ns_tgid = tgid\<rparr>)"

definition on_write_minimal :: "minimal_bpf \<Rightarrow> writer \<Rightarrow> string list \<Rightarrow> int \<times> string list" where
  "on_write_minimal b x = handle_tp_minimal b (wr_pid_tgid x)"

definition on_write_ns :: "minimal_ns_bpf \<Rightarrow> writer \<Rightarrow> string list \<Rightarrow> int \<times> string list" where
  "on_write_ns n x = handle_tp_ns (wr_get_ns x) n"

definition on_write_legacy :: "('m, u32, u32) map_ops \<Rightarrow> 'm \<Rightarrow> writer \<Rightarrow> string list \<Rightarrow> int \<times> string list" where
  "on_write_legacy mops m x = handle_tp_legacy mops m (wr_pid_tgid x)"

fun trace_run :: "('x \<Rightarrow> string list \<Rightarrow> int \<times> string list) \<Rightarrow> 'x list \<Rightarrow> string list \<Rightarrow> string list" where
  "trace_run f [] trace = trace"
| "trace_run f (x # xs) trace = trace_run f xs (snd (f x trace))"

lemma trace_run_filter:
  assumes "\<And>x tr. x \<in> set xs \<Longrightarrow> snd (f x tr) = tr @ (if P x then [l] else [])"
  shows "trace_run f xs tr = tr @ replicate (length (filter P xs)) l"
  using assms by (induction xs arbitrary: tr) simp_all

lemma trace_run_map: "trace_run f (map g xs) tr = trace_run (\<lambda>x. f (g x)) xs tr"
  by (induction xs arbitrary: tr) simp_all

lemma on_write_filters:
  "snd (on_write_minimal b x tr) = tr @ (if tgid_of (wr_pid_tgid x) = my_pid b then [triggered (my_pid b)] else [])"
  "map_lookup_elem mops m 0 = Some p \<Longrightarrow>
   snd (on_write_legacy mops m x tr) = tr @ (if tgid_of (wr_pid_tgid x) = p then [triggered p] else [])"
  "in_namespace n x tid tgid \<Longrightarrow>
   snd (on_write_ns n x tr) = tr @ (if tid = ns_my_pid n then [triggered (ns_my_pid n)] else [])"
  by (auto simp: on_write_minimal_def on_write_legacy_def on_write_ns_def in_namespace_def handle_tp_minimal_def
      handle_tp_legacy_def handle_tp_ns_def Let_def)

section \<open>Properties\<close>

text \<open>
  C23. In the initial pid namespace, where a thread's numbers in its namespace are its global ones,
  and given the same process number, the three BPF programs trace the same lines for any sequence
  of \<^verbatim>\<open>write\<close> calls by the main threads of processes: one line per call of that process and none
  for any other.
\<close>

theorem minimal_variants_equivalent:
  assumes "my_pid b = p" and "ns_my_pid n = p" and "map_lookup_elem mops m 0 = Some p"
    and "list_all (\<lambda>x. tid_of (wr_pid_tgid x) = tgid_of (wr_pid_tgid x)) xs"
    and "list_all (\<lambda>x. in_namespace n x (tid_of (wr_pid_tgid x)) (tgid_of (wr_pid_tgid x))) xs"
  shows "trace_run (on_write_minimal b) xs tr =
      tr @ replicate (length (filter (\<lambda>x. tgid_of (wr_pid_tgid x) = p) xs)) (triggered p) \<and>
    trace_run (on_write_legacy mops m) xs tr = trace_run (on_write_minimal b) xs tr \<and>
    trace_run (on_write_ns n) xs tr = trace_run (on_write_minimal b) xs tr"
proof -
  let ?want = "tr @ replicate (length (filter (\<lambda>x. tgid_of (wr_pid_tgid x) = p) xs)) (triggered p)"
  have "trace_run (on_write_minimal b) xs tr = ?want"
    using assms(1) by (intro trace_run_filter) (simp add: on_write_filters)
  moreover have "trace_run (on_write_legacy mops m) xs tr = ?want"
    using assms(3) by (intro trace_run_filter) (simp add: on_write_filters)
  moreover have "trace_run (on_write_ns n) xs tr = ?want"
  proof (rule trace_run_filter)
    fix x tr assume "x \<in> set xs"
    with assms(4,5) have "in_namespace n x (tid_of (wr_pid_tgid x)) (tgid_of (wr_pid_tgid x))"
      "tid_of (wr_pid_tgid x) = tgid_of (wr_pid_tgid x)" by (auto simp: list_all_iff)
    with on_write_filters(3) [OF this(1), of tr] assms(2)
    show "snd (on_write_ns n x tr) = tr @ (if tgid_of (wr_pid_tgid x) = p then [triggered p] else [])" by simp
  qed
  ultimately show ?thesis by simp
qed

definition array_1 :: "(u32, u32, u32) map_ops" where
  "array_1 = \<lparr>map_lookup_elem = \<lambda>m k. if k = 0 then Some m else None, map_update_elem = \<lambda>m k v f. (0, v),
     map_delete_elem = \<lambda>m k. (- 22, m)\<rparr>"

text \<open>A thread of the namespace with device 4 and inode 5.\<close>

definition sample_writer :: "u32 \<Rightarrow> u32 \<Rightarrow> u32 \<Rightarrow> u32 \<Rightarrow> writer" where
  "sample_writer tgid tid there_tgid there_tid = \<lparr>wr_pid_tgid = pid_tgid tgid tid,
     wr_get_ns = (\<lambda>d i. if d = 4 \<and> i = 5 then (0, \<lparr>ns_pid = there_tid, ns_tgid = there_tgid\<rparr>)
        else (- 22, \<lparr>ns_pid = 0, ns_tgid = 0\<rparr>))\<rparr>"

abbreviation sample_ns :: minimal_ns_bpf where
  "sample_ns \<equiv> \<lparr>ns_my_pid = 7, dev = 4, ino = 5\<rparr>"

theorem minimal_variants_equivalent_witness:
  "trace_run (on_write_minimal \<lparr>my_pid = 7\<rparr>) [sample_writer 7 7 7 7, sample_writer 8 8 8 8] [] = [triggered 7] \<and>
   trace_run (on_write_legacy array_1 7) [sample_writer 7 7 7 7, sample_writer 8 8 8 8] [] =
   trace_run (on_write_minimal \<lparr>my_pid = 7\<rparr>) [sample_writer 7 7 7 7, sample_writer 8 8 8 8] [] \<and>
   trace_run (on_write_ns sample_ns) [sample_writer 7 7 7 7, sample_writer 8 8 8 8] [] =
   trace_run (on_write_minimal \<lparr>my_pid = 7\<rparr>) [sample_writer 7 7 7 7, sample_writer 8 8 8 8] []"
  using minimal_variants_equivalent [of "\<lparr>my_pid = 7\<rparr>" 7 sample_ns array_1 7
      "[sample_writer 7 7 7 7, sample_writer 8 8 8 8]" "[]"]
  by (simp add: array_1_def sample_writer_def in_namespace_def)

text \<open>
  C39. In a namespace that renumbers processes \<^verbatim>\<open>minimal_ns\<close> is the one that works. The loaders know
  the process by its number there, p. For any sequence of calls by threads of that namespace,
  given with their numbers in it, \<^verbatim>\<open>minimal_ns\<close> traces one line for every call by the thread with
  number p, the main thread of the process; calls by its other threads are missed. If none of
  these threads belongs to a process whose global number is p, \<^verbatim>\<open>minimal\<close> and
  \<^verbatim>\<open>minimal_legacy\<close> trace nothing at all.
\<close>

theorem minimal_ns_in_namespace:
  assumes "my_pid b = p" and "ns_my_pid n = p" and "map_lookup_elem mops m 0 = Some p"
    and "list_all (\<lambda>(x, tid, tgid). in_namespace n x tid tgid) xs"
    and "list_all (\<lambda>(x, tid, tgid). tgid_of (wr_pid_tgid x) \<noteq> p) xs"
  shows "trace_run (on_write_ns n) (map fst xs) tr =
      tr @ replicate (length (filter (\<lambda>(x, tid, tgid). tid = p) xs)) (triggered p) \<and>
    trace_run (on_write_minimal b) (map fst xs) tr = tr \<and> trace_run (on_write_legacy mops m) (map fst xs) tr = tr"
proof -
  have ns: "snd (on_write_ns n (fst y) tr) = tr @ (if (\<lambda>(x, tid, tgid). tid = p) y then [triggered p] else [])"
    if "y \<in> set xs" for y tr
  proof -
    obtain x tid tgid where y: "y = (x, tid, tgid)" by (cases y)
    with that assms(4) have "in_namespace n x tid tgid" by (auto simp: list_all_iff)
    from on_write_filters(3) [OF this, of tr] show ?thesis using y assms(2) by auto
  qed
  have other: "tgid_of (wr_pid_tgid x) \<noteq> p" if "x \<in> set (map fst xs)" for x
    using that assms(5) by (auto simp: list_all_iff)
  have "trace_run (on_write_minimal b) (map fst xs) tr =
      tr @ replicate (length (filter (\<lambda>x. False) (map fst xs))) (triggered p)"
    using other assms(1) by (intro trace_run_filter) (simp add: on_write_filters)
  moreover have "trace_run (on_write_legacy mops m) (map fst xs) tr =
      tr @ replicate (length (filter (\<lambda>x. False) (map fst xs))) (triggered p)"
    using other assms(3) by (intro trace_run_filter) (simp add: on_write_filters)
  moreover have "trace_run (\<lambda>y. on_write_ns n (fst y)) xs tr =
      tr @ replicate (length (filter (\<lambda>(x, tid, tgid). tid = p) xs)) (triggered p)"
    by (rule trace_run_filter) (rule ns)
  ultimately show ?thesis by (simp add: trace_run_map)
qed

theorem minimal_ns_in_namespace_witness:
  "trace_run (on_write_ns sample_ns) [sample_writer 5007 5007 7 7, sample_writer 5007 5009 7 9, sample_writer 5008 5008 8 8] [] =
     [triggered 7] \<and>
   trace_run (on_write_minimal \<lparr>my_pid = 7\<rparr>)
     [sample_writer 5007 5007 7 7, sample_writer 5007 5009 7 9, sample_writer 5008 5008 8 8] [] = []"
  using minimal_ns_in_namespace [of "\<lparr>my_pid = 7\<rparr>" 7 sample_ns array_1 7
      "[(sample_writer 5007 5007 7 7, 7, 7), (sample_writer 5007 5009 7 9, 9, 7), (sample_writer 5008 5008 8 8, 8, 8)]" "[]"]
  by (simp add: array_1_def sample_writer_def in_namespace_def)

text \<open>
  C22. When every call succeeds, each of the three programs comes up and stays up: it never ends,
  after any number n of rounds of its loop it has written exactly n dots to the error stream and
  its start message to the standard output, and it still holds its skeleton.
\<close>

theorem minimal_stays_up:
  assumes "\<forall>h. rv (env h (Acq Skel_open)) \<noteq> 0 \<and> rv (env h (Acq Skel_open_and_load)) \<noteq> 0"
    and "\<forall>h skel. rv (env h (Op (Skel_load skel))) = 0 \<and> rv (env h (Op (Skel_attach skel))) = 0"
    and "\<forall>h. rv (env h (Stat_ns ''/proc/self/ns/pid'')) = 0"
    and "\<forall>h skel pid. rv (env h (Op (Map_update skel 0 pid))) = 0"
  shows "up (life_minimal env) \<and> up (life_minimal_ns env) \<and> up (life_minimal_legacy env strerror)"
  unfolding life_minimal_def life_minimal_ns_def life_minimal_legacy_def
proof (intro conjI)
  show "up (trace_forever env (setup_minimal env))"
    by (rule upI) (use assms in \<open>auto simp: minimal_setups sys_answer owned\<close>)
  show "up (trace_forever env (setup_minimal_ns env))"
    by (rule upI) (use assms in \<open>auto simp: minimal_setups sys_answer owned\<close>)
  show "up (trace_forever env (setup_minimal_legacy env strerror))"
    by (rule upI) (use assms in \<open>auto simp: minimal_setups sys_answer owned\<close>)
qed

definition minimal_answer :: "call \<Rightarrow> int" where
  "minimal_answer c = (case c of Acq a \<Rightarrow> 1 | _ \<Rightarrow> 0)"

theorem minimal_stays_up_witness:
  "up (life_minimal (scripted minimal_answer ())) \<and> up (life_minimal_ns (scripted minimal_answer ()))"
  using minimal_stays_up [of "scripted minimal_answer ()"] by (simp add: scripted_def minimal_answer_def)

text \<open>
  C40. An error path of \<^verbatim>\<open>minimal_ns\<close>: when the namespace cannot be examined, \<^verbatim>\<open>main\<close> returns 1
  with the message and without destroying the skeleton it opened.
\<close>

theorem minimal_ns_leaks_skeleton:
  assumes "\<forall>h. rv (env h (Acq Skel_open)) \<noteq> 0" and "\<forall>h. rv (env h (Stat_ns ''/proc/self/ns/pid'')) = - 1"
  shows "\<exists>skel w. main_minimal_ns env = Some (Inr 1, w) \<and> holds w = Some [H_skel skel] \<and>
    printed Stderr (hist w) = ''Failed to acquire namespace information''"
  using assms by (simp add: minimal_mains minimal_setups sys_answer owned)

definition no_proc_answer :: "call \<Rightarrow> int" where
  "no_proc_answer c = (case c of Acq a \<Rightarrow> 1 | Stat_ns f \<Rightarrow> - 1 | _ \<Rightarrow> 0)"

theorem minimal_ns_leaks_skeleton_witness:
  "\<exists>skel w. main_minimal_ns (scripted no_proc_answer ()) = Some (Inr 1, w) \<and> holds w = Some [H_skel skel]"
  using minimal_ns_leaks_skeleton [of "scripted no_proc_answer ()"] by (auto simp: scripted_def no_proc_answer_def)

end
