(* ===== verification/Probes_Bpf.thy ===== *)
theory Probes_Bpf
  imports Bpf_Kernel
begin

text \<open>
  The BPF programs of the probe examples: \<^verbatim>\<open>kprobe\<close>, \<^verbatim>\<open>fentry\<close>, \<^verbatim>\<open>ksyscall\<close>, \<^verbatim>\<open>lsm\<close>,
  \<^verbatim>\<open>uprobe\<close>, \<^verbatim>\<open>usdt\<close> and the XDP program of the Rust example. Each writes lines to the trace
  (the list of what \<^verbatim>\<open>bpf_printk\<close> printed) and returns a code. The memory of the kernel enters as
  two functions: the pointer stored in a \<^verbatim>\<open>struct filename\<close>, and the string at an address.
\<close>

type_synonym handler_result = "int \<times> string list"

section \<open>kprobe and fentry\<close>

definition do_unlinkat_kprobe ::
  "(u64 \<Rightarrow> u64) \<Rightarrow> (u64 \<Rightarrow> string) \<Rightarrow> u64 \<Rightarrow> u32 \<Rightarrow> u64 \<Rightarrow> string list \<Rightarrow> handler_result" where
  "do_unlinkat_kprobe name_of str_at pt dfd name trace =
     (let pid = tgid_of pt;
          filename = name_of name
      in (0, trace @ [''KPROBE ENTRY pid = '' @ dec_int (sint pid) @ '', filename = '' @ str_at filename @ [CHR 0x0A]]))"

definition do_unlinkat_exit_kprobe :: "u64 \<Rightarrow> u64 \<Rightarrow> string list \<Rightarrow> handler_result" where
  "do_unlinkat_exit_kprobe pt ret trace =
     (let pid = tgid_of pt
      in (0, trace @ [''KPROBE EXIT: pid = '' @ dec_int (sint pid) @ '', ret = '' @ dec_int (sint ret) @ [CHR 0x0A]]))"

definition do_unlinkat_fentry ::
  "(u64 \<Rightarrow> u64) \<Rightarrow> (u64 \<Rightarrow> string) \<Rightarrow> u64 \<Rightarrow> u32 \<Rightarrow> u64 \<Rightarrow> string list \<Rightarrow> handler_result" where
  "do_unlinkat_fentry name_of str_at pt dfd name trace =
     (let pid = tgid_of pt
      in (0, trace @ [''fentry: pid = '' @ dec_int (sint pid) @ '', filename = '' @ str_at (name_of name) @ [CHR 0x0A]]))"

definition do_unlinkat_exit_fentry ::
  "(u64 \<Rightarrow> u64) \<Rightarrow> (u64 \<Rightarrow> string) \<Rightarrow> u64 \<Rightarrow> u32 \<Rightarrow> u64 \<Rightarrow> u64 \<Rightarrow> string list \<Rightarrow> handler_result" where
  "do_unlinkat_exit_fentry name_of str_at pt dfd name ret trace =
     (let pid = tgid_of pt
      in (0, trace @ [''fexit: pid = '' @ dec_int (sint pid) @ '', filename = '' @ str_at (name_of name) @
                      '', ret = '' @ dec_int (sint ret) @ [CHR 0x0A]]))"

section \<open>ksyscall\<close>

text \<open>The buffer that \<^verbatim>\<open>%s\<close> prints comes from the helper; without a NUL in it the read is undefined.\<close>

abbreviation (input) COMM_LEN :: nat where "COMM_LEN \<equiv> 16"

definition tgkill_entry :: "comm_helper \<Rightarrow> u64 \<Rightarrow> u32 \<Rightarrow> u32 \<Rightarrow> u32 \<Rightarrow> string list \<Rightarrow> handler_result option" where
  "tgkill_entry get_current_comm pt tgid tid sig trace =
     (let caller_pid = tgid_of pt
      in if sig = 0 then Some (0, trace)
         else
           let (_, comm) = get_current_comm COMM_LEN
           in case c_str comm of
                None \<Rightarrow> None
              | Some c \<Rightarrow> Some (0, trace @ [''tgkill syscall called by PID '' @ dec_int (sint caller_pid) @ '' ('' @ c @
                  '') for thread id '' @ dec_int (sint tid) @ '' with pid '' @ dec_int (sint tgid) @
                  '' and signal '' @ dec_int (sint sig) @ ''.'']))"

definition entry_probe :: "comm_helper \<Rightarrow> u64 \<Rightarrow> u32 \<Rightarrow> u32 \<Rightarrow> string list \<Rightarrow> handler_result option" where
  "entry_probe get_current_comm pt pid sig trace =
     (let caller_pid = tgid_of pt
      in if sig = 0 then Some (0, trace)
         else
           let (_, comm) = get_current_comm COMM_LEN
           in case c_str comm of
                None \<Rightarrow> None
              | Some c \<Rightarrow> Some (0, trace @ [''KILL syscall called by PID '' @ dec_int (sint caller_pid) @ '' ('' @ c @
                  '') for PID '' @ dec_int (sint pid) @ '' with signal '' @ dec_int (sint sig) @ ''.'']))"

section \<open>lsm\<close>

abbreviation (input) EPERM :: int where "EPERM \<equiv> 1"

definition lsm_bpf :: "int \<Rightarrow> int \<Rightarrow> string list \<Rightarrow> handler_result" where
  "lsm_bpf cmd ret trace =
     (if ret \<noteq> 0 then (ret, trace) else (- EPERM, trace @ [''LSM: block bpf() worked'']))"

section \<open>uprobe\<close>

definition uprobe_add :: "int \<Rightarrow> int \<Rightarrow> string list \<Rightarrow> handler_result" where
  "uprobe_add a b trace = (0, trace @ [''uprobed_add ENTRY: a = '' @ dec_int a @ '', b = '' @ dec_int b])"

definition uretprobe_add :: "int \<Rightarrow> string list \<Rightarrow> handler_result" where
  "uretprobe_add ret trace = (0, trace @ [''uprobed_add EXIT: return = '' @ dec_int ret])"

definition uprobe_sub :: "int \<Rightarrow> int \<Rightarrow> string list \<Rightarrow> handler_result" where
  "uprobe_sub a b trace = (0, trace @ [''uprobed_sub ENTRY: a = '' @ dec_int a @ '', b = '' @ dec_int b])"

definition uretprobe_sub :: "int \<Rightarrow> string list \<Rightarrow> handler_result" where
  "uretprobe_sub ret trace = (0, trace @ [''uprobed_sub EXIT: return = '' @ dec_int ret])"

section \<open>usdt\<close>

definition usdt_auto_attach :: "u32 \<Rightarrow> u64 \<Rightarrow> u64 \<Rightarrow> u32 \<Rightarrow> u64 \<Rightarrow> string list \<Rightarrow> handler_result" where
  "usdt_auto_attach my_pid pt arg1 arg2 arg3 trace =
     (let pid = tgid_of pt
      in if pid \<noteq> my_pid then (0, trace)
         else (0, trace @ [''USDT auto attach to libc:setjmp: arg1 = '' @ hex (unat arg1) @ '', arg2 = '' @
                dec_int (sint arg2) @ '', arg3 = '' @ hex (unat arg3)]))"

definition usdt_manual_attach :: "u64 \<Rightarrow> u32 \<Rightarrow> u64 \<Rightarrow> string list \<Rightarrow> handler_result" where
  "usdt_manual_attach arg1 arg2 arg3 trace =
     (0, trace @ [''USDT manual attach to libc:setjmp: arg1 = '' @ hex (unat arg1) @ '', arg2 = '' @
        dec_int (sint arg2) @ '', arg3 = '' @ hex (unat arg3)])"

section \<open>xdp\<close>

abbreviation (input) XDP_PASS :: int where "XDP_PASS \<equiv> 2"

text \<open>The difference of the two 64-bit pointers is cut to an \<^verbatim>\<open>int\<close>.\<close>

definition xdp_pass :: "u32 \<Rightarrow> u32 \<Rightarrow> string list \<Rightarrow> handler_result" where
  "xdp_pass ctx_data ctx_data_end trace =
     (let data = (ucast ctx_data :: u64);
          data_end = (ucast ctx_data_end :: u64);
          pkt_sz = (ucast (data_end - data) :: u32)
      in (XDP_PASS, trace @ [''packet size: '' @ dec_int (sint pkt_sz)]))"

section \<open>Sequences of kill system calls\<close>

datatype kill_call =
    Kill comm_helper u64 u32 u32
  | Tgkill comm_helper u64 u32 u32 u32

primrec call_comm :: "kill_call \<Rightarrow> comm_helper" where
  "call_comm (Kill c pt pid sig) = c"
| "call_comm (Tgkill c pt tgid tid sig) = c"

primrec call_sig :: "kill_call \<Rightarrow> u32" where
  "call_sig (Kill c pt pid sig) = sig"
| "call_sig (Tgkill c pt tgid tid sig) = sig"

primrec on_kill :: "kill_call \<Rightarrow> string list \<Rightarrow> handler_result option" where
  "on_kill (Kill c pt pid sig) trace = entry_probe c pt pid sig trace"
| "on_kill (Tgkill c pt tgid tid sig) trace = tgkill_entry c pt tgid tid sig trace"

fun kill_run :: "kill_call list \<Rightarrow> string list \<Rightarrow> string list option" where
  "kill_run [] trace = Some trace"
| "kill_run (k # ks) trace = (case on_kill k trace of None \<Rightarrow> None | Some (_, trace) \<Rightarrow> kill_run ks trace)"

lemma on_kill_Some:
  assumes "comm_doc (call_comm k)"
  shows "\<exists>l. on_kill k trace = Some (0, trace @ (if call_sig k = 0 then [] else [l]))"
proof -
  obtain c where "c_str (snd (call_comm k COMM_LEN)) = Some c"
    using c_str_terminated comm_docD(2) [OF assms] by (metis zero_less_numeral)
  then show ?thesis
    by (cases k) (auto simp: entry_probe_def tgkill_entry_def Let_def case_prod_beta)
qed

section \<open>Packet sizes\<close>

text \<open>
  The XDP program passes every packet and prints the number of bytes between the two pointers, for
  every packet shorter than two gigabytes and any position in memory.
\<close>

lemma xdp_pass_size:
  assumes "ctx_data \<le> ctx_data_end" and "unat ctx_data_end - unat ctx_data < 2 ^ 31"
  shows "xdp_pass ctx_data ctx_data_end trace =
    (XDP_PASS, trace @ [''packet size: '' @ dec (unat ctx_data_end - unat ctx_data)])"
proof -
  let ?n = "unat ctx_data_end - unat ctx_data" and ?diff = "ucast ctx_data_end - ucast ctx_data :: u64"
  have wide: "unat (ucast x :: u64) = unat x" for x :: u32
    using unsigned_less [of x, where ?'a = nat] by (simp add: unsigned_ucast_eq take_bit_nat_eq_self)
  have "(ucast ctx_data :: u64) \<le> ucast ctx_data_end"
    using assms(1) by (simp add: word_le_nat_alt wide)
  then have "unat ?diff = ?n" by (simp add: unat_sub wide)
  then have "(ucast ?diff :: u32) = of_nat ?n" by (metis of_nat_unat)
  moreover have "sint (of_nat ?n :: u32) = int ?n"
    using to_int32_id [of "int ?n"] assms(2) by (simp add: to_int32_def int_in_range_def del: of_nat_diff)
  ultimately show ?thesis by (simp add: xdp_pass_def Let_def dec_int_def del: of_nat_diff)
qed

section \<open>Properties\<close>

text \<open>
  C37. Whatever \<^verbatim>\<open>kill\<close> and \<^verbatim>\<open>tgkill\<close> calls are made, the programs of \<^verbatim>\<open>ksyscall\<close> print the command
  name without reading past its buffer, and trace exactly the calls that send a signal: one line
  for each, and none for calls with signal 0.
\<close>

theorem kill_run_signals:
  assumes "list_all (\<lambda>k. comm_doc (call_comm k)) ks"
  shows "\<exists>ls. kill_run ks trace = Some (trace @ ls) \<and> length ls = length (filter (\<lambda>k. call_sig k \<noteq> 0) ks)"
  using assms
proof (induction ks arbitrary: trace)
  case (Cons k ks)
  then obtain l where l: "on_kill k trace = Some (0, trace @ (if call_sig k = 0 then [] else [l]))"
    using on_kill_Some by fastforce
  from Cons obtain ls where "kill_run ks (trace @ (if call_sig k = 0 then [] else [l])) =
      Some ((trace @ (if call_sig k = 0 then [] else [l])) @ ls)"
    "length ls = length (filter (\<lambda>k. call_sig k \<noteq> 0) ks)" by fastforce
  with l show ?case by auto
qed simp

definition demo_comm :: comm_helper where
  "demo_comm n = (0, str_copy n ''sh'' (replicate n 0))"

lemma demo_comm_doc: "comm_doc demo_comm"
  by (simp add: comm_doc_def demo_comm_def length_str_copy) (simp add: str_copy_def)

theorem kill_run_signals_witness:
  "\<exists>ls. kill_run [Kill demo_comm (pid_tgid 7 7) 8 9, Kill demo_comm (pid_tgid 7 7) 8 0] [] = Some ls \<and> length ls = 1"
  using kill_run_signals [of "[Kill demo_comm (pid_tgid 7 7) 8 9, Kill demo_comm (pid_tgid 7 7) 8 0]" "[]"]
  by (simp add: demo_comm_doc)

end
