(* ===== verification/Probes.thy ===== *)
theory Probes
  imports Minimal Probes_Bpf
begin

text \<open>
  The loaders of the probe examples: \<^verbatim>\<open>kprobe.c\<close>, \<^verbatim>\<open>fentry.c\<close> and \<^verbatim>\<open>ksyscall.c\<close> (the same code
  around different skeletons), \<^verbatim>\<open>usdt.c\<close>, \<^verbatim>\<open>uprobe.c\<close> and \<^verbatim>\<open>lsm.c\<close>. What a loader sets up on the
  way (links) belongs to its skeleton and goes with it.
\<close>

section \<open>kprobe, fentry, ksyscall\<close>

definition libbpf_print_fn_probe :: "'d environment \<Rightarrow> libbpf_print_level \<Rightarrow> string \<Rightarrow> 'd world \<Rightarrow> int \<times> 'd world" where
  "libbpf_print_fn_probe env level msg w =
     (let (r, w) = sys env (Printf Stderr msg) w in (rv r, w))"

definition cleanup_probe :: "'d environment \<Rightarrow> int \<Rightarrow> int \<Rightarrow> 'd world \<Rightarrow> outcome \<times> 'd world" where
  "cleanup_probe env skel err w =
     (let (_, w) = sys env (Rel (Skel_destroy skel)) w in (Inr (- err), w))"

definition attach_and_wait :: "'d environment \<Rightarrow> (int \<Rightarrow> string) \<Rightarrow> (outcome \<times> 'd world) option" where
  "attach_and_wait env strerror =
     (let w = start_world;
          (_, w) = sys env Set_print w;
          (r, w) = sys env (Acq Skel_open_and_load) w;
          skel = rv r
      in if skel = 0 then
           (let (_, w) = sys env (Printf Stderr (''Failed to open BPF skeleton'' @ [CHR 0x0A])) w
            in Some (Inr 1, w))
         else
           let (r, w) = sys env (Op (Skel_attach skel)) w;
               err = rv r
           in if err \<noteq> 0 then
                (let (_, w) = sys env (Printf Stderr (''Failed to attach BPF skeleton'' @ [CHR 0x0A])) w
                 in Some (cleanup_probe env skel err w))
              else
                let (r, w) = sys env (Signal SIGINT) w
                in if rv r = SIG_ERR then
                     (let (_, w) = sys env (Printf Stderr (''can't set signal handler: '' @ strerror (rerrno r) @ [CHR 0x0A])) w
                      in Some (cleanup_probe env skel err w))
                   else
                     let (_, w) = sys env (Printf Stdout started) w
                     in Option.bind (wait_loop env dots w) (\<lambda>w. Some (cleanup_probe env skel err w)))"

definition main_kprobe :: "'d environment \<Rightarrow> (int \<Rightarrow> string) \<Rightarrow> (outcome \<times> 'd world) option" where
  "main_kprobe env strerror = attach_and_wait env strerror"

definition main_fentry :: "'d environment \<Rightarrow> (int \<Rightarrow> string) \<Rightarrow> (outcome \<times> 'd world) option" where
  "main_fentry env strerror = attach_and_wait env strerror"

definition main_ksyscall :: "'d environment \<Rightarrow> (int \<Rightarrow> string) \<Rightarrow> (outcome \<times> 'd world) option" where
  "main_ksyscall env strerror = attach_and_wait env strerror"

section \<open>usdt\<close>

text \<open>
  After loading, the code tests the skeleton pointer again and not the result; that test cannot
  succeed, and a failed load is not noticed here.
\<close>

definition main_usdt :: "'d environment \<Rightarrow> (int \<Rightarrow> string) \<Rightarrow> (outcome \<times> 'd world) option" where
  "main_usdt env strerror =
     (let w = start_world;
          (_, w) = sys env Set_print w;
          (r, w) = sys env (Acq Skel_open) w;
          skel = rv r
      in if skel = 0 then
           (let (_, w) = sys env (Printf Stderr (''Failed to open BPF skeleton'' @ [CHR 0x0A])) w
            in Some (Inr 1, w))
         else
           let (r, w) = sys env Getpid w;
               (_, w) = sys env (Op (Poke skel ''my_pid'' (rv r))) w;
               (r, w) = sys env (Op (Skel_load skel)) w;
               err = rv r
           in if skel = 0 then
                (let (_, w) = sys env (Printf Stderr (''Failed to load BPF skeleton'' @ [CHR 0x0A])) w
                 in Some (Inr 1, w))
              else
                let (r, w) = sys env Getpid w;
                    (r, w) = sys env (Op (Attach_usdt skel ''libc.so.6'' (rv r))) w
                in if rv r = 0 then
                     (let (_, w) = sys env (Printf Stderr (''Failed to attach BPF program `usdt_manual_attach`'' @ [CHR 0x0A])) w
                      in Some (cleanup_probe env skel (rerrno r) w))
                   else
                     let (r, w) = sys env (Op (Skel_attach skel)) w;
                         err = rv r
                     in if err \<noteq> 0 then
                          (let (_, w) = sys env (Printf Stderr (''Failed to attach BPF skeleton'' @ [CHR 0x0A])) w
                           in Some (cleanup_probe env skel err w))
                        else
                          let (r, w) = sys env (Signal SIGINT) w
                          in if rv r = SIG_ERR then
                               (let (_, w) = sys env (Printf Stderr (''can't set signal handler: '' @ strerror (rerrno r) @ [CHR 0x0A])) w
                                in Some (cleanup_probe env skel (rerrno r) w))
                             else
                               let (_, w) = sys env (Printf Stdout started) w
                               in Option.bind (wait_loop env (Setjmp_probe # dots) w)
                                    (\<lambda>w. Some (cleanup_probe env skel err w)))"

section \<open>uprobe\<close>

text \<open>The probed functions; signed overflow in them is undefined, here \<^term>\<open>None\<close>.\<close>

definition uprobed_add :: "int \<Rightarrow> int \<Rightarrow> int option" where
  "uprobed_add a b = c_int_add a b"

definition uprobed_sub :: "int \<Rightarrow> int \<Rightarrow> int option" where
  "uprobed_sub a b = c_int_sub a b"

text \<open>The loop, from a value of the counter on.\<close>

partial_function (option) uprobe_loop :: "'d environment \<Rightarrow> int \<Rightarrow> 'd world \<Rightarrow> (outcome \<times> 'd world) option" where
  "uprobe_loop env i w =
     (let w = snd (sys env (Printf Stderr ''.'') w)
      in case c_int_add i 1 of
           None \<Rightarrow> Some (Inl Signed_overflow, w)
         | Some j \<Rightarrow>
             let w = snd (sys env (Call_probe ''uprobed_add'' i j) w)
             in if uprobed_add i j = None then Some (Inl Signed_overflow, w)
                else case c_int_mul i i of
                  None \<Rightarrow> Some (Inl Signed_overflow, w)
                | Some q \<Rightarrow>
                    let w = snd (sys env (Call_probe ''uprobed_sub'' q i) w)
                    in if uprobed_sub q i = None then Some (Inl Signed_overflow, w)
                       else
                         let w = snd (sys env (Sleep 1) w)
                         in case c_int_add i 1 of
                              None \<Rightarrow> Some (Inl Signed_overflow, w)
                            | Some i \<Rightarrow> uprobe_loop env i w)"

definition main_uprobe :: "'d environment \<Rightarrow> (outcome \<times> 'd world) option" where
  "main_uprobe env =
     (let w = start_world;
          (_, w) = sys env Set_print w;
          (r, w) = sys env (Acq Skel_open_and_load) w;
          skel = rv r
      in if skel = 0 then
           (let (_, w) = sys env (Printf Stderr (''Failed to open and load BPF skeleton'' @ [CHR 0x0A])) w
            in Some (Inr 1, w))
         else
           let (r, w) = sys env (Op (Attach_uprobe skel ''/proc/self/exe'' 0 ''uprobed_add'' False)) w
           in if rv r = 0 then
                (let err = - rerrno r;
                     (_, w) = sys env (Printf Stderr (''Failed to attach uprobe: '' @ dec_int err @ [CHR 0x0A])) w
                 in Some (cleanup_probe env skel err w))
              else
                let (r, w) = sys env (Op (Attach_uprobe skel ''/proc/self/exe'' (- 1) ''uprobed_add'' True)) w
                in if rv r = 0 then
                     (let err = - rerrno r;
                          (_, w) = sys env (Printf Stderr (''Failed to attach uprobe: '' @ dec_int err @ [CHR 0x0A])) w
                      in Some (cleanup_probe env skel err w))
                   else
                     let (r, w) = sys env (Op (Skel_attach skel)) w;
                         err = rv r
                     in if err \<noteq> 0 then
                          (let (_, w) = sys env (Printf Stderr (''Failed to auto-attach BPF skeleton: '' @ dec_int err @ [CHR 0x0A])) w
                           in Some (cleanup_probe env skel err w))
                        else
                          let (_, w) = sys env (Printf Stdout started) w
                          in uprobe_loop env 0 w)"

section \<open>lsm\<close>

text \<open>
  The variable \<^verbatim>\<open>err\<close> has no value before the program is attached; the cleanup reads it at the end,
  which is undefined when the skeleton could not be opened.
\<close>

definition cleanup_lsm :: "'d environment \<Rightarrow> int \<Rightarrow> int option \<Rightarrow> 'd world \<Rightarrow> outcome \<times> 'd world" where
  "cleanup_lsm env skel err w =
     (let (_, w) = sys env (Rel (Skel_destroy skel)) w
      in case err of None \<Rightarrow> (Inl Uninitialised, w) | Some err \<Rightarrow> (Inr (- err), w))"

definition setup_lsm :: "'d environment \<Rightarrow> 'd startup" where
  "setup_lsm env =
     (let w = start_world;
          err = None;
          (_, w) = sys env Set_print w;
          (r, w) = sys env (Acq Skel_open_and_load) w;
          skel = rv r
      in if skel = 0 then
           (let (_, w) = sys env (Printf Stderr (''Failed to open and load BPF skeleton'' @ [CHR 0x0A])) w
            in Inl (cleanup_lsm env skel err w))
         else
           let (r, w) = sys env (Op (Skel_attach skel)) w;
               err = Some (rv r)
           in if rv r \<noteq> 0 then
                (let (_, w) = sys env (Printf Stderr (''Failed to attach BPF skeleton'' @ [CHR 0x0A])) w
                 in Inl (cleanup_lsm env skel err w))
              else
                let (_, w) = sys env (Printf Stdout started) w
                in Inr (skel, w))"

definition life_lsm :: "'d environment \<Rightarrow> 'd life" where
  "life_lsm env = trace_forever env (setup_lsm env)"

definition main_lsm :: "'d environment \<Rightarrow> (outcome \<times> 'd world) option" where
  "main_lsm env = result (life_lsm env)"

section \<open>Resources and interruption\<close>

text \<open>
  A service is a tidy program that the user can end: pressing Ctrl-C from some moment on makes it
  return an exit status.
\<close>

locale service = tidy_program prog for prog :: "'d environment \<Rightarrow> (outcome \<times> 'd world) option" +
  assumes interruptible: "signalled_from n env \<Longrightarrow> \<exists>status w. prog env = Some (Inr status, w)"
begin

lemma ends_clean:
  "signalled_from n env \<Longrightarrow> \<exists>status w. prog env = Some (Inr status, w) \<and> holds w = Some []"
  using interruptible nothing_held by blast

end

lemma dots_holds: "wait_loop env [Printf Stderr ''.'', Sleep k] w = Some w' \<Longrightarrow> holds w' = holds w"
  by (erule wait_loop_holds) simp

lemma setjmp_dots_holds: "wait_loop env [Setjmp_probe, Printf Stderr ''.'', Sleep k] w = Some w' \<Longrightarrow> holds w' = holds w"
  by (erule wait_loop_holds) simp

lemma wait_loop_Some: "signalled_from n env \<Longrightarrow> cs \<noteq> [] \<Longrightarrow> \<exists>w'. wait_loop env cs w = Some w'"
  using wait_loop_returns by fastforce

interpretation attach_and_wait: service "\<lambda>env. attach_and_wait env strerror" for strerror
proof unfold_locales
  fix env status and w :: "'a world"
  assume "attach_and_wait env strerror = Some (Inr status, w)"
  then show "holds w = Some []"
    by (auto simp: attach_and_wait_def cleanup_probe_def Let_def case_prod_beta owned Option.bind_eq_Some_conv
        dest!: dots_holds split: if_splits)
next
  fix n and env :: "'a environment"
  assume "signalled_from n env"
  from wait_loop_Some [OF this, of dots]
  have "\<exists>w'. wait_loop env dots w = Some w'" for w by simp
  then obtain f where "wait_loop env dots w = Some (f w)" for w by metis
  then show "\<exists>status w. attach_and_wait env strerror = Some (Inr status, w)"
    by (simp add: attach_and_wait_def cleanup_probe_def Let_def case_prod_beta)
qed

interpretation usdt: service "\<lambda>env. main_usdt env strerror" for strerror
proof unfold_locales
  fix env status and w :: "'a world"
  assume "main_usdt env strerror = Some (Inr status, w)"
  then show "holds w = Some []"
    by (auto simp: main_usdt_def cleanup_probe_def Let_def case_prod_beta owned Option.bind_eq_Some_conv
        dest!: setjmp_dots_holds split: if_splits)
next
  fix n and env :: "'a environment"
  assume "signalled_from n env"
  from wait_loop_Some [OF this, of "Setjmp_probe # dots"]
  have "\<exists>w'. wait_loop env (Setjmp_probe # dots) w = Some w'" for w by simp
  then obtain f where "wait_loop env (Setjmp_probe # dots) w = Some (f w)" for w by metis
  then show "\<exists>status w. main_usdt env strerror = Some (Inr status, w)"
    by (simp add: main_usdt_def cleanup_probe_def Let_def case_prod_beta)
qed

interpretation lsm: tidy_program main_lsm
  by unfold_locales
    (auto simp: main_lsm_def life_lsm_def trace_forever_Some setup_lsm_def cleanup_lsm_def Let_def case_prod_beta owned
      split: if_splits)

section \<open>The loop of uprobe\<close>

lemma square_in_range: "0 \<le> i \<Longrightarrow> i \<le> 46340 \<Longrightarrow> int_in_range (i * i) \<and> int_in_range (i * i - i)"
proof -
  assume i: "0 \<le> i" "i \<le> 46340"
  then have "i * i \<le> 46340 * 46340" by (intro mult_mono) auto
  moreover have "0 \<le> i * i" by simp
  ultimately show ?thesis using i unfolding int_in_range_def by linarith
qed

lemma uprobe_loop_step:
  assumes "0 \<le> i" and "i \<le> 46340"
  shows "uprobe_loop env i w = uprobe_loop env (i + 1) (do_calls env
    [Printf Stderr ''.'', Call_probe ''uprobed_add'' i (i + 1), Call_probe ''uprobed_sub'' (i * i) i, Sleep 1] w)"
  using assms square_in_range [OF assms]
  by (subst uprobe_loop.simps)
    (simp add: c_int_add_def c_int_mul_def c_int_sub_def uprobed_add_def uprobed_sub_def int_in_range_def
      do_calls_def Let_def)

lemma uprobe_loop_overflow:
  "uprobe_loop env 46341 w = Some (Inl Signed_overflow,
     do_calls env [Printf Stderr ''.'', Call_probe ''uprobed_add'' 46341 46342] w)"
  by (subst uprobe_loop.simps)
    (simp add: c_int_add_def c_int_mul_def uprobed_add_def int_in_range_def do_calls_def Let_def)

lemma uprobe_loop_ends:
  assumes "k \<le> 46341"
  shows "\<exists>w'. uprobe_loop env (46341 - int k) w = Some (Inl Signed_overflow, w') \<and>
    printed Stderr (hist w') = printed Stderr (hist w) @ replicate (Suc k) CHR ''.'' \<and>
    printed Stdout (hist w') = printed Stdout (hist w) \<and> holds w' = holds w"
  using assms
proof (induction k arbitrary: w)
  case 0
  then show ?case by (simp add: uprobe_loop_overflow printed_do_calls holds_do_calls)
next
  case (Suc k)
  let ?i = "46341 - int (Suc k)"
  let ?cs = "[Printf Stderr ''.'', Call_probe ''uprobed_add'' ?i (?i + 1), Call_probe ''uprobed_sub'' (?i * ?i) ?i, Sleep 1]"
  from Suc obtain w' where w': "uprobe_loop env (46341 - int k) (do_calls env ?cs w) = Some (Inl Signed_overflow, w')"
    "printed Stderr (hist w') = printed Stderr (hist (do_calls env ?cs w)) @ replicate (Suc k) CHR ''.''"
    "printed Stdout (hist w') = printed Stdout (hist (do_calls env ?cs w))"
    "holds w' = holds (do_calls env ?cs w)" using Suc_leD by blast
  have "uprobe_loop env ?i w = uprobe_loop env (?i + 1) (do_calls env ?cs w)"
    using Suc.prems by (intro uprobe_loop_step) simp_all
  then have "uprobe_loop env ?i w = Some (Inl Signed_overflow, w')"
    using w'(1) by (simp add: algebra_simps)
  with w'(2-4) show ?case by (simp add: printed_do_calls holds_do_calls)
qed

lemma uprobe_loop_whole:
  "\<exists>w'. uprobe_loop env 0 w = Some (Inl Signed_overflow, w') \<and>
    printed Stderr (hist w') = printed Stderr (hist w) @ replicate 46342 CHR ''.'' \<and>
    printed Stdout (hist w') = printed Stdout (hist w)"
proof -
  have n: "Suc 46341 = 46342" by simp
  show ?thesis using uprobe_loop_ends [of 46341 env w, unfolded n] by auto
qed

interpretation uprobe: tidy_program main_uprobe
proof unfold_locales
  fix env status and w :: "'a world"
  assume m: "main_uprobe env = Some (Inr status, w)"
  have "uprobe_loop env 0 v \<noteq> Some (Inr status, w)" for v
    using uprobe_loop_whole [of env v] by auto
  with m show "holds w = Some []"
    by (auto simp: main_uprobe_def cleanup_probe_def Let_def case_prod_beta owned split: if_splits)
qed

section \<open>What the user sees\<close>

text \<open>A signal handler that cannot be installed is reported on the terminal but not in the exit status.\<close>

lemma signal_failure_status:
  assumes "\<forall>h. rv (env h (Acq Skel_open_and_load)) \<noteq> 0" and "\<forall>h skel. rv (env h (Op (Skel_attach skel))) = 0"
    and "\<forall>h. rv (env h (Signal SIGINT)) = SIG_ERR"
  shows "\<exists>w. attach_and_wait env strerror = Some (Inr 0, w)"
  using assms by (simp add: attach_and_wait_def cleanup_probe_def Let_def case_prod_beta sys_answer)

section \<open>Properties\<close>

text \<open>
  C24. Once it is up, \<^verbatim>\<open>uprobe\<close> always ends in undefined behaviour, whatever the environment does:
  after 46342 dots, in the round in which the counter is 46341, the square of the counter does
  not fit an \<^verbatim>\<open>int\<close>.
\<close>

theorem uprobe_overflows:
  assumes "\<forall>h. rv (env h (Acq Skel_open_and_load)) \<noteq> 0"
    and "\<forall>h skel pid ret. rv (env h (Op (Attach_uprobe skel ''/proc/self/exe'' pid ''uprobed_add'' ret))) \<noteq> 0"
    and "\<forall>h skel. rv (env h (Op (Skel_attach skel))) = 0"
  shows "\<exists>w. main_uprobe env = Some (Inl Signed_overflow, w) \<and>
    printed Stderr (hist w) = replicate 46342 CHR ''.'' \<and> printed Stdout (hist w) = started"
proof -
  have "\<exists>w. main_uprobe env = uprobe_loop env 0 w \<and> printed Stderr (hist w) = [] \<and> printed Stdout (hist w) = started"
    using assms by (auto simp: main_uprobe_def Let_def case_prod_beta sys_answer intro!: exI)
  then obtain w where "main_uprobe env = uprobe_loop env 0 w" "printed Stderr (hist w) = []" "printed Stdout (hist w) = started"
    by blast
  with uprobe_loop_whole [of env w] show ?thesis by auto
qed

definition uprobe_answer :: "call \<Rightarrow> int" where
  "uprobe_answer c = (case c of Acq a \<Rightarrow> 1 | Op (Attach_uprobe p f n g b) \<Rightarrow> 1 | _ \<Rightarrow> 0)"

theorem uprobe_overflows_witness:
  "\<exists>w. main_uprobe (scripted uprobe_answer ()) = Some (Inl Signed_overflow, w) \<and> printed Stdout (hist w) = started"
  using uprobe_overflows [of "scripted uprobe_answer ()"] by (auto simp: scripted_def uprobe_answer_def)

end
