(* ===== verification/Spec2Isabelle.thy ===== *)
theory Spec2Isabelle
  imports Bootstrap Sockfilter Profile Task_Iter Tracecon_Bpf Tc Probes
begin

text \<open>
  Verification of the example programs of libbpf-bootstrap (\<^verbatim>\<open>src/examples/c\<close>, and the BPF
  programs under \<^verbatim>\<open>src/examples/rust\<close>).

  \<^bold>\<open>The system.\<close> Every example is a pair: BPF programs that the kernel runs when something happens
  (\<^verbatim>\<open>X.bpf.c\<close>), and a user-space program that loads them, waits and prints (\<^verbatim>\<open>X.c\<close>). The halves
  talk through BPF maps, ring buffers, sequence files and the trace pipe.

  \<^bold>\<open>Foundations.\<close>
  \<^item> \<^verbatim>\<open>C_Prelude\<close>: machine integers, partial signed arithmetic, byte order, C strings, the number
    formats of \<^verbatim>\<open>printf\<close>, \<^verbatim>\<open>strtol\<close> and \<^verbatim>\<open>atoi\<close>.
  \<^item> \<^verbatim>\<open>Bpf_Kernel\<close>: the kernel seen from BPF programs. Maps and ring buffers are records of
    operations given to each handler; the locales \<open>bpf_hash_map\<close>, \<open>bpf_ringbuf\<close> and
    \<open>bpf_ringbuf_cap\<close> state their documented laws. Helpers are arguments. Executable instances
    satisfy the laws and are what the witnesses run on.
  \<^item> \<^verbatim>\<open>User_World\<close>: user space. A program is a function of an environment that answers every call
    from the history so far; \<^const>\<open>sys\<close> makes a call, the history records it, a signal sets the flag.
    \<^const>\<open>holds\<close> reads a history as ownership of handles and is undefined after a use of something
    not held. The locales \<open>accountable_program\<close> and \<open>tidy_program\<close> are the contracts on what a
    program holds at its end; the loop rules \<open>progress_loop\<close> and \<open>signalled_loop\<close> carry the
    termination proofs. A program whose loop has no exit is a \<^typ>\<open>'d life\<close>: it has ended, or it is
    running and the value gives its world after every number of rounds of the loop body.

  \<^bold>\<open>Components.\<close> A definition has the name of the C function, with the program's name added where
  several programs use the same one; \<open>main_X\<close> is \<^verbatim>\<open>main\<close> of \<^verbatim>\<open>X.c\<close>, \<open>cleanup_X\<close> the code after its
  label \<^verbatim>\<open>cleanup\<close>, \<open>poll_X\<close> and \<open>run_X\<close> its loop.
  \<^item> \<^verbatim>\<open>Bootstrap_Bpf\<close>, \<^verbatim>\<open>Bootstrap\<close>: \<^const>\<open>handle_exec\<close> and \<^const>\<open>handle_exit\<close> refine an abstract
    tracker of process lifetimes over any run of tracepoint hits; the callback's lines, the option
    parser, resources and termination of \<^const>\<open>main_bootstrap\<close>.
  \<^item> \<^verbatim>\<open>Sockfilter_Bpf\<close>, \<^verbatim>\<open>Sockfilter\<close>: \<^const>\<open>socket_handler\<close> refines the flow of a packet, in
    either byte order and whatever a reserved slot contains; the field \<^verbatim>\<open>ip_proto\<close>, of which it
    writes one byte of four; address printing, the callback, resources and termination of
    \<^const>\<open>main_sockfilter\<close>.
  \<^item> \<^verbatim>\<open>Profile_Bpf\<close>, \<^verbatim>\<open>Profile\<close>: what \<^const>\<open>profile\<close> can publish is safe for
    \<^const>\<open>event_handler\<close>; stack printing between symbolization and its release; resources and
    termination of \<^const>\<open>main_profile\<close>.
  \<^item> \<^verbatim>\<open>Task_Iter_Bpf\<close>, \<^verbatim>\<open>Task_Iter\<close>: the records of \<^const>\<open>get_tasks\<close>, built in one reused buffer
    per CPU; the read loop; the printed lines against the documented ones; resources, and exactly
    when a variable is used before it is assigned (variables without a value are \<^term>\<open>None\<close>).
  \<^item> \<^verbatim>\<open>Tracecon_Bpf\<close>: the four probes of the Rust example \<^verbatim>\<open>tracecon\<close> as steps of many threads; an
    inductive reachability predicate with its history, and invariants by rule induction.
  \<^item> \<^verbatim>\<open>Tc\<close>: \<^const>\<open>tc_ingress\<close> over explicit packet memory, and what \<^const>\<open>main_tc\<close> leaves behind:
    destroying the hook does not remove the queueing discipline that creating it added.
  \<^item> \<^verbatim>\<open>Minimal\<close>: the three minimal programs (\<open>life_X\<close> is \<^verbatim>\<open>main\<close> with its endless loop, \<open>main_X\<close> its
    result if it ends), their filters on writes in the initial and in other pid namespaces, and
    that the programs stay up and print a dot per second.
  \<^item> \<^verbatim>\<open>Probes_Bpf\<close>, \<^verbatim>\<open>Probes\<close>: the programs and loaders of \<^verbatim>\<open>kprobe\<close>, \<^verbatim>\<open>fentry\<close>, \<^verbatim>\<open>ksyscall\<close>,
    \<^verbatim>\<open>lsm\<close>, \<^verbatim>\<open>uprobe\<close>, \<^verbatim>\<open>usdt\<close>, and the XDP program. The locale \<open>service\<close> joins tidiness and
    the ability to be interrupted.
  \<^item> This theory: both halves of \<^verbatim>\<open>bootstrap\<close>, \<^verbatim>\<open>sockfilter\<close> and \<^verbatim>\<open>task_iter\<close> put together, and the
    properties that the small loaders share.

  \<^bold>\<open>Loops and bounds.\<close> There is no fuel. A loop that may run for ever is a partial function whose
  value is \<^term>\<open>None\<close> when it does not return; that a program returns is proved as such, for
  environments in which Ctrl-C is pressed from some call on (or in which reading or polling comes
  to an end), and with an exit status, not with undefined behaviour. Capacities (8192 entries
  of \<^verbatim>\<open>exec_start\<close>, 10240 of the \<^verbatim>\<open>tracecon\<close> maps, the room of a ring buffer) are those of the
  sources or arguments.

  \<^bold>\<open>Undefined behaviour\<close> is an outcome (\<^typ>\<open>ub\<close>): reading past a buffer, using an uninitialised
  variable, signed overflow, \<^verbatim>\<open>NULL\<close> for \<^verbatim>\<open>%s\<close>.

  \<^bold>\<open>Not modelled.\<close> The kernel, libbpf, blazesym, argp and the C library beyond what is named above
  (arguments with named laws); what libbpf itself prints; BPF programs that interrupt each other
  in the middle; default actions of signals without a handler; the Rust loaders (\<^verbatim>\<open>main.rs\<close>,
  \<^verbatim>\<open>syscall.rs\<close>) and the build files.
\<close>

section \<open>bootstrap, from the tracepoints to the terminal\<close>

text \<open>The context of a hit.\<close>

fun hit_ctx :: "tp_hit \<Rightarrow> tp_ctx" where
  "hit_ctx (Exec ctx) = ctx"
| "hit_ctx (Exit ctx) = ctx"

lemma comm_terminated: "comm_doc (x_comm ctx) \<Longrightarrow> \<exists>s. c_str (snd (x_comm ctx TASK_COMM_LEN)) = Some s"
  by (rule c_str_terminated) (rule comm_docD(2), simp_all)

lemma expected_run_printable:
  assumes "list_all (\<lambda>x. comm_doc (x_comm (hit_ctx x)) \<and> fname (hit_ctx x) \<noteq> None) hs"
  shows "list_all (\<lambda>r. report_line ts r \<noteq> None) (expected_run fname d h hs)"
  using assms
proof (induction hs arbitrary: h)
  case (Cons x hs)
  then have "list_all (\<lambda>r. report_line ts r \<noteq> None) (expected fname d h x)"
    by (cases x) (auto dest!: comm_terminated)
  with Cons show ?case by simp
qed simp

lemma deliver_bootstrap_prints:
  assumes "\<forall>h. strftime_hms (lt (rv (env h Time_now))) = ts"
    and "list_all (\<lambda>r. report_line ts r \<noteq> None) (map report_of es)"
  shows "fst (deliver (handle_event_bootstrap env lt) es w) = Inr 0 \<and>
     printed Stdout (hist (snd (deliver (handle_event_bootstrap env lt) es w))) =
     printed Stdout (hist w) @ concat (map (the \<circ> report_line ts) (map report_of es))"
proof -
  have "fst (handle_event_bootstrap env lt e w) = Inr 0 \<and>
      printed Stdout (hist (snd (handle_event_bootstrap env lt e w))) =
      printed Stdout (hist w) @ the (report_line ts (report_of e))" if "e \<in> set es" for e w
    using that assms handle_event_report [where lt = lt and env = env and w = w and e = e]
    by (auto simp: list_all_iff)
  then show ?thesis
    using deliver_prints [where cb = "handle_event_bootstrap env lt" and line = "\<lambda>e. the (report_line ts (report_of e))"]
    by (simp add: comp_def)
qed

text \<open>
  C2. Both halves together: with an empty map and ring buffer and room for the hits, what the
  user sees when the records of a run of tracepoint hits are handed to the callback is the
  concatenation of the lines that the specification demands for that run, in order, and the
  callback never reads past a string. (The clock of the terminal is taken to stay at one
  second while the records are printed.)
\<close>

theorem bootstrap_session:
  assumes "bpf_hash_map mops exec_start_max_entries"
    and "bpf_ringbuf_cap rops event_layout sizeof_event capacity"
    and "start_times mops s = Map.empty" and "visible rops s = []"
    and "length hs \<le> exec_start_max_entries" and "length hs \<le> capacity"
    and "names_read fname hs"
    and "list_all (\<lambda>x. comm_doc (x_comm (hit_ctx x)) \<and> fname (hit_ctx x) \<noteq> None) hs"
    and "\<forall>h. strftime_hms (lt (rv (env h Time_now))) = ts"
  shows "fst (deliver (handle_event_bootstrap env lt) (visible rops (tp_run mops rops d hs s)) w) = Inr 0 \<and>
     printed Stdout (hist (snd (deliver (handle_event_bootstrap env lt)
       (visible rops (tp_run mops rops d hs s)) w))) =
     printed Stdout (hist w) @ concat (map (the \<circ> report_line ts) (expected_run fname d [] hs))"
proof -
  have k: "bootstrap_kernel_room mops rops exec_start_max_entries capacity"
    using assms(1,2) by (intro bootstrap_kernel_room.intro bootstrap_kernel.intro)
      (simp_all add: bpf_hash_map.axioms(1) bpf_ringbuf_cap.axioms(1))
  have r: "map report_of (visible rops (tp_run mops rops d hs s)) = expected_run fname d [] hs"
    using bootstrap_kernel_room.run_reports [OF k, of s "[]" hs fname d] assms(3-7) by simp
  show ?thesis
    using deliver_bootstrap_prints [where env = env and lt = lt and ts = ts, OF assms(9), where es = "visible rops (tp_run mops rops d hs s)" and w = w]
      expected_run_printable [OF assms(8), of ts d "[]"] by (simp add: r)
qed

lemma sample_comm_doc: "comm_doc (x_comm (sample_ctx g p t))"
  by (simp add: comm_doc_def sample_ctx_def length_str_copy) (simp add: str_copy_def)

theorem bootstrap_session_witness:
  "printed Stdout (hist (snd (deliver (handle_event_bootstrap (scripted (\<lambda>_. 0) []) (\<lambda>_. \<lparr>tm_hour = 9, tm_min = 5, tm_sec = 1\<rparr>))
     (visible (kernel_ringbuf 8 blank_event)
       (tp_run (kernel_hash 8192) (kernel_ringbuf 8 blank_event) 0 sample_run sample_start)) start_world))) =
   concat (map (the \<circ> report_line (strftime_hms \<lparr>tm_hour = 9, tm_min = 5, tm_sec = 1\<rparr>))
     (expected_run (\<lambda>_. Some ''/bin/ls'') 0 [] sample_run))"
proof -
  have n: "names_read (\<lambda>_. Some ''/bin/ls'') sample_run"
    by (auto simp: names_read_def sample_filename_at)
  have e: "printed Stdout (hist start_world) = []"
    by (simp add: printed_def start_world_def)
  show ?thesis
    by (rule bootstrap_session [where capacity = 8 and fname = "\<lambda>_. Some ''/bin/ls''" and w = start_world,
          THEN conjunct2, unfolded e append_Nil])
       (use n in \<open>simp_all add: sample_start_empty exec_start_max_entries_def kernel_hash.bpf_hash_map_axioms
          kernel_event_ringbuf sample_comm_doc\<close>)
qed

section \<open>sockfilter, from the packets to the terminal\<close>

text \<open>
  C4. Both halves of \<^verbatim>\<open>sockfilter\<close> together, in either byte order and whatever reserved slots
  contain: let the records of a sequence of readable frames be handed to the callback. There is one
  record per unfragmented IPv4 packet, in order, and it shows as the addresses, ports, packet type
  and interface of that packet demand, with the protocol that user space reads from the four bytes
  of which the packet's protocol is the first. A record whose protocol is below \<^verbatim>\<open>IPPROTO_MAX\<close> but
  has no name, of a packet for this host on a known interface, is the only one that makes the
  callback pass \<^verbatim>\<open>NULL\<close> to \<^verbatim>\<open>printf\<close>; everything before the first such record is printed.
\<close>

theorem sockfilter_session:
  assumes "bpf_ringbuf_cap rops so_layout sizeof_so_event capacity"
    and "list_all2 skb_access skbs pkts" and "list_all (readable en) pkts"
    and "ringbuf_records rops r = []" and "length skbs \<le> capacity"
    and recs: "recs = ringbuf_records rops (filter_run en rops skbs r)"
    and fs: "fs = concat (map2 flows skbs pkts)"
    and outs: "outs = map2 (\<lambda>f e. flow_output pmax ifname (with_proto f (ip_proto_of en e))) fs recs"
  shows "length recs = length fs \<and> map (\<lambda>e. first_byte en (ip_proto_of en e)) recs = map fl_proto fs \<and>
    fst (deliver (handle_event_sockfilter env en pmax ifname) recs w) = (if None \<in> set outs then Inl Null_string else Inr 0) \<and>
    printed Stdout (hist (snd (deliver (handle_event_sockfilter env en pmax ifname) recs w))) =
      printed Stdout (hist w) @ concat (map the (takeWhile (\<lambda>x. x \<noteq> None) outs))"
proof -
  have flows: "map wire_flow recs = fs"
    using socket_filter.run_flows [OF socket_filter.intro [OF assms(1)] assms(2,3), of r] assms(4,5) by (simp add: recs fs)
  have lay: "list_all so_layout recs"
    using socket_filter.run_layout [OF socket_filter.intro [OF assms(1)] assms(2,3), of r] assms(4) by (simp add: recs)
  have "first_byte en (ip_proto_of en e) = fl_proto (wire_flow e)" if "so_layout e" for e
    using that first_byte_layout by (simp add: wire_flow_def)
  then have proto: "map (\<lambda>e. first_byte en (ip_proto_of en e)) recs = map fl_proto fs"
    using lay by (simp add: flows [symmetric] list_all_iff)
  have outs': "outs = map (\<lambda>e. flow_output pmax ifname (flow_of en e)) recs"
    unfolding outs flows [symmetric] by (simp add: zip_map1 zip_same_conv_map comp_def flow_of_wire)
  have "fst (deliver (handle_event_sockfilter env en pmax ifname) recs w) = (if None \<in> set outs then Inl Null_string else Inr 0) \<and>
      printed Stdout (hist (snd (deliver (handle_event_sockfilter env en pmax ifname) recs w))) =
      printed Stdout (hist w) @ concat (map the (takeWhile (\<lambda>x. x \<noteq> None) outs))"
    unfolding outs' using lay by (intro deliver_outputs handle_event_flow) (simp add: list_all_iff)
  with proto show ?thesis using arg_cong [OF flows, of length] by simp
qed

theorem sockfilter_session_witness:
  "printed Stdout (hist (snd (deliver (handle_event_sockfilter (scripted (\<lambda>_. 0) ()) LE 256 (\<lambda>_. Some ''lo''))
     (ringbuf_records (kernel_ringbuf 4 zero_slot) (filter_run LE (kernel_ringbuf 4 zero_slot)
        [packet_skb 0 1 (sample_packet 0 6), packet_skb 0 1 (sample_packet 0x20 17)] [])) start_world))) =
   flow_line ''lo'' ''TCP'' (Flow [127, 0, 0, 1] [10, 0, 0, 2] 80 443 6 0 1)"
proof -
  let ?skbs = "[packet_skb 0 1 (sample_packet 0 6), packet_skb 0 1 (sample_packet 0x20 17)]"
  let ?pkts = "[sample_packet 0 6, sample_packet 0x20 17]"
  let ?recs = "ringbuf_records (kernel_ringbuf 4 zero_slot) (filter_run LE (kernel_ringbuf 4 zero_slot) ?skbs [])"
  let ?outs = "map2 (\<lambda>f e. flow_output 256 (\<lambda>_. Some ''lo'') (with_proto f (ip_proto_of LE e))) (concat (map2 flows ?skbs ?pkts)) ?recs"
  have "printed Stdout (hist (snd (deliver (handle_event_sockfilter (scripted (\<lambda>_. 0) ()) LE 256 (\<lambda>_. Some ''lo''))
      ?recs start_world))) =
    printed Stdout (hist (start_world :: unit world)) @ concat (map the (takeWhile (\<lambda>x. x \<noteq> None) ?outs))"
    by (rule sockfilter_session [where capacity = 4 and rops = "kernel_ringbuf 4 zero_slot" and skbs = ?skbs and pkts = ?pkts and r = "[]", THEN conjunct2, THEN conjunct2, THEN conjunct2])
       (simp_all add: kernel_so_ringbuf slot_layouts packet.skb_access_axioms sample_packet_simps)
  moreover have "swab16 0 = 0" "swab16 8 = 2048" "swab16 32 = 8192" by code_simp+
  then have "?outs = [Some (flow_line ''lo'' ''TCP'' (Flow [127, 0, 0, 1] [10, 0, 0, 2] 80 443 6 0 1))]"
    by (simp add: packet_flow_def packet_skb_def sample_packet_simps socket_handler_def load_u16_def ip_is_fragment_def
        kernel_ringbuf_def zero_slot_def ip_proto_of_def store_def Let_def flow_output_def ipproto_mapping_def)
  ultimately show ?thesis by simp
qed

section \<open>task_iter, from the tasks to the terminal\<close>

text \<open>
  C6. Both halves of \<^verbatim>\<open>task_iter\<close> together: when reading the iterator gives the records that the
  BPF program wrote for the tasks of the system, none of which has a stack of no frames, \<^verbatim>\<open>main\<close>
  returns 0 and has printed, for each task in order, the line that the documentation shows for its
  own id, name, stack depth (or error) and state.
\<close>

theorem task_iter_session:
  assumes "seq_file sops" and "\<forall>q t. fst (seq_write sops q t) = 0"
    and "buffers_ok s" and "seq_records sops (seq s) = []"
    and "list_all (\<lambda>(cpu, name, st, task). task_doc name st task \<and> st \<noteq> Inr []) ts"
    and "serves (seq_records sops (seq (iterate sops (map (\<lambda>(cpu, _, _, task). (cpu, Some task)) ts) s))) env"
    and "\<forall>h. rv (env h (Acq Skel_open_and_load)) \<noteq> 0" and "\<forall>h p. rv (env h (Op (Skel_attach p))) = 0"
    and "\<forall>h p. 0 \<le> rv (env h (Acq (Iter_create p)))"
  shows "\<exists>w. main_task_iter env = Some (Inr 0, w) \<and>
    printed Stdout (hist w) = concat (map (\<lambda>(_, name, st, task). documented_line (expected_report name st task)) ts)"
proof -
  let ?rs = "seq_records sops (seq (iterate sops (map (\<lambda>(cpu, _, _, task). (cpu, Some task)) ts) s))"
  let ?want = "map (\<lambda>(_, name, st, task). expected_report name st task) ts"
  have "list_all (\<lambda>(cpu, name, st, task). task_doc name st task) ts" using assms(5) by (auto simp: list_all_iff)
  with seq_file.iterate_reports [OF assms(1) _ assms(3), of ts] assms(2,4)
  have r: "map task_report_of ?rs = ?want" by simp
  have "list_all (\<lambda>x. tr_comm x \<noteq> None) ?want"
    by (auto simp: list_all_iff expected_report_def)
  then have "list_all (\<lambda>t. tr_comm (task_report_of t) \<noteq> None) ?rs"
    unfolding r [symmetric] by (simp add: list_all_iff)
  from main_task_iter_output [OF assms(6) this assms(7-9)] obtain w where
    "main_task_iter env = Some (Inr 0, w)" and "printed Stdout (hist w) = concat (map task_line (map task_report_of ?rs))"
    by auto
  moreover have "task_line (expected_report name st task) = documented_line (expected_report name st task)"
    if "task_doc name st task" "st \<noteq> Inr []" for name st task
    unfolding task_line_documented using that by (cases st) (auto simp: expected_report_def task_doc_def)
  then have "map task_line ?want = map (\<lambda>(_, name, st, task). documented_line (expected_report name st task)) ts"
    using assms(5) by (auto simp: list_all_iff)
  ultimately show ?thesis unfolding r by metis
qed

definition sample_tasks :: "(nat \<times> string \<times> stack \<times> task) list" where
  "sample_tasks = [(0, ''systemd'', Inr [10, 20, 30], sample_task ''systemd'' (Inr [10, 20, 30])),
     (0, ''sh'', Inl (- 22), sample_task ''sh'' (Inl (- 22)))]"

theorem task_iter_session_witness:
  "\<exists>w. main_task_iter (reading (seq (iterate growing_seq (map (\<lambda>(cpu, _, _, task). (cpu, Some task)) sample_tasks) sample_buffers))) =
     Some (Inr 0, w) \<and>
   printed Stdout (hist w) = documented_line (Task_report 7 8 1 (Some ''systemd'') 3 [10, 20, 30]) @
     documented_line (Task_report 7 8 1 (Some ''sh'') (- 22) [])"
proof -
  let ?rs = "seq (iterate growing_seq (map (\<lambda>(cpu, _, _, task). (cpu, Some task)) sample_tasks) sample_buffers)"
  have rs: "seq_records growing_seq ?rs = ?rs" by (simp add: growing_seq_def)
  have "\<exists>w. main_task_iter (reading ?rs) = Some (Inr 0, w) \<and>
     printed Stdout (hist w) = concat (map (\<lambda>(_, name, st, task). documented_line (expected_report name st task)) sample_tasks)"
    by (rule task_iter_session [where sops = growing_seq and s = sample_buffers, OF growing_seq.seq_file_axioms])
       (simp_all add: rs serves_def reading_def task_iter_answer_def sample_buffers_ok growing_seq_def,
        simp add: sample_tasks_def sample_task_doc no_nul_def)
  moreover have "concat (map (\<lambda>(_, name, st, task). documented_line (expected_report name st task)) sample_tasks) =
      documented_line (Task_report 7 8 1 (Some ''systemd'') 3 [10, 20, 30]) @
      documented_line (Task_report 7 8 1 (Some ''sh'') (- 22) [])"
  proof -
    have low: "(0x100000001 :: u32) = 1" by simp
    show ?thesis by (simp add: sample_tasks_def expected_report_def sample_task_def low del: documented_line.simps)
  qed
  ultimately show ?thesis by (simp only:)
qed

section \<open>The small loaders\<close>

text \<open>
  C20. Whenever one of the small loaders ends with an exit status, for whatever reason, it holds
  nothing: its skeleton has been destroyed, and no skeleton was used before it was opened or after
  it was destroyed.
\<close>

theorem loaders_tidy:
  assumes "prog \<in> {main_minimal, \<lambda>env. main_minimal_legacy env strerror, \<lambda>env. main_kprobe env strerror,
      \<lambda>env. main_fentry env strerror, \<lambda>env. main_ksyscall env strerror, \<lambda>env. main_usdt env strerror, main_uprobe}"
    and "prog env = Some (Inr status, w)"
  shows "holds w = Some [] \<and> (\<forall>n. ledger (take n (hist w)) [] \<noteq> None)"
proof -
  have "tidy_program prog"
    using assms(1) minimal.tidy_program_axioms minimal_legacy.tidy_program_axioms [of strerror]
      attach_and_wait.tidy_program_axioms [of strerror] usdt.tidy_program_axioms [of strerror] uprobe.tidy_program_axioms
    by (auto simp: main_kprobe_def main_fentry_def main_ksyscall_def)
  from tidy_program.nothing_held [OF this assms(2)] ledger_prefix [of "hist w" "[]"]
  show ?thesis by (fastforce simp: holds_def)
qed

theorem loaders_tidy_witness:
  "\<exists>w. main_usdt (scripted (\<lambda>c. if c = Acq Skel_open then 1 else 0) ()) (\<lambda>_. []) = Some (Inr 0, w) \<and> holds w = Some []"
proof -
  let ?env = "scripted (\<lambda>c. if c = Acq Skel_open then 1 else 0) () :: unit environment"
  have "\<exists>w. main_usdt ?env (\<lambda>_. []) = Some (Inr 0, w)"
    by (simp add: main_usdt_def cleanup_probe_def Let_def case_prod_beta sys_def scripted_def start_world_def)
  then obtain w where w: "main_usdt ?env (\<lambda>_. []) = Some (Inr 0, w)" by blast
  from loaders_tidy [where prog = "\<lambda>env. main_usdt env (\<lambda>_. [])" and strerror = "\<lambda>_. []" and env = ?env, OF _ w] w
  show ?thesis by blast
qed

text \<open>
  C21. The user can end the loaders that install a handler for SIGINT: if Ctrl-C is pressed at some
  moment and from then on, \<^verbatim>\<open>kprobe\<close>, \<^verbatim>\<open>fentry\<close>, \<^verbatim>\<open>ksyscall\<close> and \<^verbatim>\<open>usdt\<close> return an exit
  status and hold nothing; \<^verbatim>\<open>tc\<close> returns too.
\<close>

theorem loaders_interruptible:
  assumes "signalled_from n env"
  shows "(\<exists>status w. main_kprobe env strerror = Some (Inr status, w) \<and> holds w = Some []) \<and>
    (\<exists>status w. main_fentry env strerror = Some (Inr status, w) \<and> holds w = Some []) \<and>
    (\<exists>status w. main_ksyscall env strerror = Some (Inr status, w) \<and> holds w = Some []) \<and>
    (\<exists>status w. main_usdt env strerror = Some (Inr status, w) \<and> holds w = Some []) \<and>
    (\<exists>status w. main_tc env strerror = Some (Inr status, w))"
  using attach_and_wait.ends_clean [OF assms] usdt.ends_clean [OF assms] main_tc_ends [OF assms]
  by (simp add: main_kprobe_def main_fentry_def main_ksyscall_def)

theorem loaders_interruptible_witness:
  "\<exists>status w. main_kprobe (ctrl_c (\<lambda>c. if c = Acq Skel_open_and_load then 1 else 0) () 9) (\<lambda>_. []) = Some (Inr status, w) \<and>
     holds w = Some []"
  by (rule loaders_interruptible [OF signalled_ctrl_c, THEN conjunct1])

end
